(* ===== verification/Prelude.thy ===== *)
theory Prelude
  imports Complex_Main "HOL-Library.Char_ord" "HOL-Library.List_Lexorder"
begin

text \<open>
  Vocabulary shared by every component: the Python string operations the source uses, ordered
  dictionaries, and the named collections of proof rules.

  A Python \<open>str\<close> is modelled by a list of HOL characters, so its code points range over
  0..255 (Latin-1). Case conversion, whitespace and digits follow CPython on that range; the two
  characters whose upper case lies outside it (code points 181 and 255) are kept, which no
  comparison of the source can observe, since all its constants are ASCII.
\<close>

named_theorems wp_simps \<open>equations that push a specification through a program\<close>
named_theorems books \<open>which fields an operation leaves alone\<close>

type_synonym bytes = "char list"
type_synonym 'v dict = "(string \<times> 'v) list"

section \<open>Results\<close>

definition opt_get :: "'a \<Rightarrow> 'a option \<Rightarrow> 'a" where
  "opt_get d x = (case x of None \<Rightarrow> d | Some v \<Rightarrow> v)"

lemma opt_get_simps [simp]: "opt_get d None = d" "opt_get d (Some v) = v"
  by (simp_all add: opt_get_def)

definition sum_bind :: "'e + 'a \<Rightarrow> ('a \<Rightarrow> 'e + 'b) \<Rightarrow> 'e + 'b" where
  "sum_bind m f = (case m of Inl e \<Rightarrow> Inl e | Inr x \<Rightarrow> f x)"

lemma sum_bind_simps [simp]: "sum_bind (Inl e) f = Inl e" "sum_bind (Inr x) f = f x"
  by (simp_all add: sum_bind_def)

lemma sum_bind_Inr: "sum_bind m f = Inr z \<longleftrightarrow> (\<exists>x. m = Inr x \<and> f x = Inr z)"
  by (cases m) auto

lemma sum_bind_Inl: "sum_bind m f = Inl e \<longleftrightarrow> m = Inl e \<or> (\<exists>x. m = Inr x \<and> f x = Inl e)"
  by (cases m) auto

fun sum_map :: "('a \<Rightarrow> 'e + 'b) \<Rightarrow> 'a list \<Rightarrow> 'e + 'b list" where
  "sum_map f [] = Inr []"
| "sum_map f (x # xs) =
     (case f x of Inl e \<Rightarrow> Inl e
      | Inr y \<Rightarrow> (case sum_map f xs of Inl e \<Rightarrow> Inl e | Inr ys \<Rightarrow> Inr (y # ys)))"

lemma sum_map_length: "sum_map f xs = Inr ys \<Longrightarrow> length ys = length xs"
  by (induction xs arbitrary: ys) (auto split: sum.splits)

lemma sum_map_all:
  "sum_map f xs = Inr ys \<Longrightarrow> (\<And>x y. x \<in> set xs \<Longrightarrow> f x = Inr y \<Longrightarrow> P y) \<Longrightarrow> \<forall>y \<in> set ys. P y"
  by (induction xs arbitrary: ys) (fastforce split: sum.splits)+

section \<open>Dictionaries\<close>

text \<open>A Python \<open>dict\<close> keeps insertion order; assigning to a present key keeps its place.\<close>

fun dict_set :: "string \<Rightarrow> 'v \<Rightarrow> 'v dict \<Rightarrow> 'v dict" where
  "dict_set k v [] = [(k, v)]"
| "dict_set k v ((k', v') # d) = (if k = k' then (k, v) # d else (k', v') # dict_set k v d)"

definition dict_get :: "'v dict \<Rightarrow> string \<Rightarrow> 'v option" where
  "dict_get d k = map_of d k"

definition dict_setdefault :: "string \<Rightarrow> 'v \<Rightarrow> 'v dict \<Rightarrow> 'v dict" where
  "dict_setdefault k v d = (if k \<in> fst ` set d then d else d @ [(k, v)])"

definition dict_keys :: "'v dict \<Rightarrow> string list" where
  "dict_keys d = map fst d"

lemma dict_get_set [simp]: "dict_get (dict_set k v d) k' = (if k' = k then Some v else dict_get d k')"
  by (induction d) (auto simp: dict_get_def)

lemma dict_keys_set [simp]: "set (dict_keys (dict_set k v d)) = insert k (set (dict_keys d))"
  by (induction k v d rule: dict_set.induct) (auto simp: dict_keys_def)

lemma dict_set_set: "set (dict_set k v d) \<subseteq> insert (k, v) (set d)"
  by (induction k v d rule: dict_set.induct) auto

lemma distinct_dict_set: "distinct (dict_keys d) \<Longrightarrow> distinct (dict_keys (dict_set k v d))"
proof (induction d)
  case Nil
  then show ?case by (simp add: dict_keys_def)
next
  case (Cons a d)
  then show ?case
    using dict_keys_set [of k v d] by (cases a) (auto simp: dict_keys_def)
qed

lemma dict_set_all:
  "(\<forall>(k', v') \<in> set d. P k' v') \<Longrightarrow> P k v \<Longrightarrow> \<forall>(k', v') \<in> set (dict_set k v d). P k' v'"
  using dict_set_set [of k v d] by blast

section \<open>Characters\<close>

definition py_ord :: "char \<Rightarrow> nat" where
  "py_ord c = of_char c"

text \<open>\<open>str.isspace\<close> on Latin-1.\<close>

definition is_space :: "char \<Rightarrow> bool" where
  "is_space c = (let n = py_ord c in 9 \<le> n \<and> n \<le> 13 \<or> 28 \<le> n \<and> n \<le> 32 \<or> n = 133 \<or> n = 160)"

text \<open>The blanks \<open>int()\<close> skips around its digits; the separators 28..31 are not among them.\<close>

definition is_int_space :: "char \<Rightarrow> bool" where
  "is_int_space c = (let n = py_ord c in 9 \<le> n \<and> n \<le> 13 \<or> n = 32 \<or> n = 133 \<or> n = 160)"

definition is_dec :: "char \<Rightarrow> bool" where
  "is_dec c = (48 \<le> py_ord c \<and> py_ord c \<le> 57)"

text \<open>\<open>str.isdigit\<close> also accepts the superscripts two, three and one.\<close>

definition is_digit_char :: "char \<Rightarrow> bool" where
  "is_digit_char c = (is_dec c \<or> py_ord c = 178 \<or> py_ord c = 179 \<or> py_ord c = 185)"

definition lower_char :: "char \<Rightarrow> char" where
  "lower_char c =
     (let n = py_ord c in
      if 65 \<le> n \<and> n \<le> 90 \<or> 192 \<le> n \<and> n \<le> 222 \<and> n \<noteq> 215 then char_of (n + 32) else c)"

definition upper_char :: "char \<Rightarrow> string" where
  "upper_char c =
     (let n = py_ord c in
      if n = 223 then ''SS''
      else if 97 \<le> n \<and> n \<le> 122 \<or> 224 \<le> n \<and> n \<le> 254 \<and> n \<noteq> 247 then [char_of (n - 32)] else [c])"

lemma ord_less [simp]: "py_ord c < 256"
  by (simp add: py_ord_def)

lemma char_of_ord [simp]: "char_of (py_ord c) = c"
  by (simp add: py_ord_def)

lemma ord_char_of: "n < 256 \<Longrightarrow> py_ord (char_of n) = n"
  by (simp add: py_ord_def of_char_of)

section \<open>Strings\<close>

definition py_lower :: "string \<Rightarrow> string" where
  "py_lower s = map lower_char s"

definition py_upper :: "string \<Rightarrow> string" where
  "py_upper s = concat (map upper_char s)"

definition py_strip :: "string \<Rightarrow> string" where
  "py_strip s = rev (dropWhile is_space (rev (dropWhile is_space s)))"

text \<open>\<open>s.split(c)\<close> for a separator of one character: never empty.\<close>

fun py_split :: "char \<Rightarrow> string \<Rightarrow> string list" where
  "py_split c [] = [[]]"
| "py_split c (x # xs) =
     (if x = c then [] # py_split c xs
      else (case py_split c xs of [] \<Rightarrow> [[x]] | t # ts \<Rightarrow> (x # t) # ts))"

text \<open>\<open>sep.join(parts)\<close>.\<close>

fun py_join :: "string \<Rightarrow> string list \<Rightarrow> string" where
  "py_join sep [] = []"
| "py_join sep [s] = s"
| "py_join sep (s # ss) = s @ sep @ py_join sep ss"

definition py_startswith :: "string \<Rightarrow> string \<Rightarrow> bool" where
  "py_startswith s p = (take (length p) s = p)"

text \<open>\<open>p in s\<close> for strings.\<close>

fun py_contains :: "string \<Rightarrow> string \<Rightarrow> bool" where
  "py_contains p [] = (p = [])"
| "py_contains p (x # xs) = (py_startswith (x # xs) p \<or> py_contains p xs)"

text \<open>\<open>s.rstrip(c)\<close> for one character.\<close>

definition py_rstrip_char :: "char \<Rightarrow> string \<Rightarrow> string" where
  "py_rstrip_char c s = rev (dropWhile (\<lambda>x. x = c) (rev s))"

lemma py_split_nonempty [simp]: "py_split c s \<noteq> []"
  by (induction s) (auto split: list.splits)

lemma py_split_join: "py_join [c] (py_split c s) = s"
proof (induction s)
  case Nil
  show ?case by simp
next
  case (Cons x xs)
  obtain t ts where ts: "py_split c xs = t # ts"
    using py_split_nonempty [of c xs] by (cases "py_split c xs") blast+
  with Cons.IH show ?case
    by (cases ts) auto
qed

lemma py_split_no_sep: "t \<in> set (py_split c s) \<Longrightarrow> c \<notin> set t"
  by (induction s arbitrary: t) (fastforce split: list.splits if_splits)+

lemma py_split_single: "c \<notin> set s \<Longrightarrow> py_split c s = [s]"
  by (induction s) auto

lemma py_split_append_sep: "c \<notin> set s \<Longrightarrow> py_split c (s @ c # r) = s # py_split c r"
  by (induction s) auto

lemma py_split_of_join:
  "ss \<noteq> [] \<Longrightarrow> (\<forall>s \<in> set ss. c \<notin> set s) \<Longrightarrow> py_split c (py_join [c] ss) = ss"
proof (induction ss)
  case Nil
  then show ?case by simp
next
  case (Cons s ss)
  then show ?case
    by (cases ss) (simp_all add: py_split_single py_split_append_sep)
qed

lemma set_py_strip: "set (py_strip s) \<subseteq> set s"
  unfolding py_strip_def by (metis set_dropWhileD set_rev subsetI)

lemma py_strip_id: "(\<forall>c \<in> set s. \<not> is_space c) \<Longrightarrow> py_strip s = s"
proof -
  assume a: "\<forall>c \<in> set s. \<not> is_space c"
  have drop: "dropWhile is_space t = t" if "\<forall>c \<in> set t. \<not> is_space c" for t
    using that by (cases t) auto
  have "dropWhile is_space (rev s) = rev s" by (rule drop) (use a in simp)
  with drop [OF a] show ?thesis by (simp add: py_strip_def)
qed

lemma length_dropWhile: "length (dropWhile P xs) \<le> length xs"
  by (induction xs) auto

lemma py_contains_iff: "py_contains p s \<longleftrightarrow> (\<exists>a b. s = a @ p @ b)"
proof (induction s)
  case Nil
  show ?case by simp
next
  case (Cons x xs)
  have hd: "py_startswith (x # xs) p \<longleftrightarrow> (\<exists>b. x # xs = p @ b)"
    unfolding py_startswith_def by (metis append_eq_conv_conj append_take_drop_id)
  have "(\<exists>a b. x # xs = a @ p @ b) \<longleftrightarrow> (\<exists>b. x # xs = p @ b) \<or> (\<exists>a b. xs = a @ p @ b)"
    (is "?l \<longleftrightarrow> ?r")
  proof
    assume ?l
    then obtain a b where ab: "x # xs = a @ p @ b" by blast
    then show ?r by (cases a) auto
  next
    assume ?r
    then show ?l by (metis append_Cons append_Nil)
  qed
  with hd Cons.IH show ?case by simp
qed

text \<open>\<open>repr(s)\<close> on Latin-1: the quote character, the backslash and what is not printable are escaped.\<close>

definition hex_digit :: "nat \<Rightarrow> char" where
  "hex_digit n = (if n < 10 then char_of (48 + n) else char_of (87 + n))"

definition repr_char :: "char \<Rightarrow> char \<Rightarrow> string" where
  "repr_char q c =
     (let n = py_ord c; bs = CHR 0x5C in
      if c = q \<or> c = bs then [bs, c]
      else if n = 10 then [bs, CHR ''n''] else if n = 13 then [bs, CHR ''r''] else if n = 9 then [bs, CHR ''t'']
      else if n < 32 \<or> 127 \<le> n \<and> n \<le> 160 \<or> n = 173
      then [bs, CHR ''x'', hex_digit (n div 16), hex_digit (n mod 16)]
      else [c])"

definition py_repr :: "string \<Rightarrow> string" where
  "py_repr s =
     (let q = (if CHR 0x27 \<in> set s \<and> CHR 0x22 \<notin> set s then CHR 0x22 else CHR 0x27)
      in q # concat (map (repr_char q) s) @ [q])"

definition py_repr_list :: "string list \<Rightarrow> string" where
  "py_repr_list ss = ''['' @ py_join '', '' (map py_repr ss) @ '']''"

section \<open>Decimal integers\<close>

text \<open>\<open>str(n)\<close> for an integer.\<close>

fun show_nat :: "nat \<Rightarrow> string" where
  "show_nat n = (if n < 10 then [char_of (48 + n)] else show_nat (n div 10) @ [char_of (48 + n mod 10)])"

declare show_nat.simps [simp del]

definition show_int :: "int \<Rightarrow> string" where
  "show_int i = (if i < 0 then CHR ''-'' # show_nat (nat (- i)) else show_nat (nat i))"

definition dec_value :: "string \<Rightarrow> nat" where
  "dec_value s = foldl (\<lambda>a c. a * 10 + (py_ord c - 48)) 0 s"

text \<open>
  \<open>int(s)\<close>: blanks around an optional sign and digits, single underscores between digits, at
  most 4300 digits (CPython's limit on the conversion); \<open>None\<close> is the \<open>ValueError\<close>.
\<close>

fun digit_groups :: "string \<Rightarrow> bool" where
  "digit_groups [] = False"
| "digit_groups [c] = is_dec c"
| "digit_groups (c # d # s) =
     (is_dec c \<and> (if d = CHR ''_'' then digit_groups s else digit_groups (d # s)))"

definition py_int :: "string \<Rightarrow> int option" where
  "py_int s =
     (let t = rev (dropWhile is_int_space (rev (dropWhile is_int_space s)));
          neg = (t \<noteq> [] \<and> hd t = CHR ''-'');
          body = (if t \<noteq> [] \<and> (hd t = CHR ''-'' \<or> hd t = CHR ''+'') then tl t else t);
          ds = filter is_dec body
      in if digit_groups body \<and> length ds \<le> 4300
         then Some (if neg then - int (dec_value ds) else int (dec_value ds)) else None)"

lemma is_dec_digit: "n < 10 \<Longrightarrow> is_dec (char_of (48 + n :: nat))"
  by (simp add: is_dec_def ord_char_of)

lemma show_nat_dec: "\<forall>c \<in> set (show_nat n). is_dec c"
proof (induction n rule: show_nat.induct)
  case (1 n)
  then show ?case by (subst show_nat.simps) (auto simp: is_dec_digit)
qed

lemma show_nat_nonempty [simp]: "show_nat n \<noteq> []"
  by (subst show_nat.simps) simp

lemma dec_value_snoc: "dec_value (s @ [c]) = dec_value s * 10 + (py_ord c - 48)"
  by (simp add: dec_value_def)

lemma dec_value_show [simp]: "dec_value (show_nat n) = n"
proof (induction n rule: show_nat.induct)
  case (1 n)
  show ?case
  proof (cases "n < 10")
    case True
    then show ?thesis
      by (subst show_nat.simps) (simp add: dec_value_def ord_char_of)
  next
    case False
    then show ?thesis
      using 1 by (subst show_nat.simps) (simp add: dec_value_snoc ord_char_of)
  qed
qed

lemma show_nat_inj: "show_nat m = show_nat n \<longleftrightarrow> m = n"
  by (metis dec_value_show)

lemma dec_not_minus: "is_dec c \<Longrightarrow> c \<noteq> CHR ''-'' \<and> c \<noteq> CHR ''+'' \<and> c \<noteq> CHR ''_'' \<and> \<not> is_int_space c \<and> \<not> is_space c"
  by (auto simp: is_dec_def is_int_space_def is_space_def py_ord_def Let_def)

lemma show_int_inj: "show_int i = show_int j \<longleftrightarrow> i = j"
proof -
  have "CHR ''-'' \<notin> set (show_nat n)" for n
    using show_nat_dec dec_not_minus by blast
  then have neq: "CHR ''-'' # t \<noteq> show_nat n" "show_nat n \<noteq> CHR ''-'' # t" for t n
    by (metis list.set_intros(1))+
  show ?thesis
    by (auto simp: show_int_def neq show_nat_inj)
qed

lemma length_show_nat: "n < 10 ^ k \<Longrightarrow> 0 < k \<Longrightarrow> length (show_nat n) \<le> k"
proof (induction n arbitrary: k rule: show_nat.induct)
  case (1 n)
  show ?case
  proof (cases "n < 10")
    case True
    with "1.prems" show ?thesis by (subst show_nat.simps) simp
  next
    case False
    obtain k' where k: "k = Suc k'" using "1.prems" by (cases k) auto
    have "0 < k'" using "1.prems" False k by (cases k') auto
    moreover have "n div 10 < 10 ^ k'"
      using "1.prems" k by (simp add: less_mult_imp_div_less mult.commute)
    ultimately show ?thesis using 1 False k by (subst show_nat.simps) simp
  qed
qed

lemma digit_groups_dec: "s \<noteq> [] \<Longrightarrow> \<forall>c \<in> set s. is_dec c \<Longrightarrow> digit_groups s"
  by (induction s rule: digit_groups.induct) (auto dest: dec_not_minus)

lemma dropWhile_int_space: "\<forall>c \<in> set t. is_dec c \<Longrightarrow> dropWhile is_int_space t = t"
  by (cases t) (auto dest: dec_not_minus)

lemma py_int_show:
  assumes "length (show_nat n) \<le> 4300"
  shows "py_int (show_nat n) = Some (int n)"
proof -
  let ?s = "show_nat n"
  have d: "\<forall>c \<in> set ?s. is_dec c" by (rule show_nat_dec)
  have drop: "dropWhile is_int_space ?s = ?s" "dropWhile is_int_space (rev ?s) = rev ?s"
    using d by (simp_all add: dropWhile_int_space)
  have "is_dec (hd ?s)"
    using d by simp
  then have hd: "hd ?s \<noteq> CHR ''-''" "hd ?s \<noteq> CHR ''+''"
    using dec_not_minus by blast+
  have f: "filter is_dec ?s = ?s" using d by simp
  have g: "digit_groups ?s" using d by (simp add: digit_groups_dec)
  show ?thesis
    unfolding py_int_def Let_def drop rev_rev_ident using assms hd f g by simp
qed

lemma py_int_show_small: "n < 10000 \<Longrightarrow> py_int (show_nat n) = Some (int n)"
  by (rule py_int_show) (use length_show_nat [of n 4] in simp)

end
