(* ===== verification/Errors.thy ===== *)
theory Errors
  imports Prelude
begin

text \<open>
  The exceptions of the program (\<open>shared/errors.py\<close>, the exception classes of
  \<open>api/service.py\<close> and \<open>api/chaos.py\<close>) and of the libraries it catches, and the dynamic
  values (\<open>Any\<close>) that flow through the EXIF, DynamoDB and logging code. A finite float or decimal is a rational; NaN and
  the infinities have constructors of their own.
\<close>

text \<open>
  One constructor per class the source can tell apart. \<open>ClientError\<close> carries the two parts of
  its \<open>response\<close> the code reads: the \<open>Error.Code\<close> string and the \<open>HTTPStatusCode\<close>, either of
  which may be absent. \<open>BotoCoreError\<close> carries the name of the concrete class. Any other
  exception is \<open>OtherError\<close> with its class name and text.
\<close>

datatype exn =
    ClientError "string option" "int option"
  | BotoCoreError string
  | ConfigError string
  | TransientDependencyError string "string option"
  | ImageProcessingError string
  | UploadRejectedError string int string string
  | EnqueueFailedError string
  | ChaosInjectedError string
  | ValidationError string
  | UnidentifiedImageError string
  | DecompressionBombError string
  | OSError string
  | ValueError string
  | SyntaxError string
  | MemoryError string
  | OtherError string string

text \<open>\<open>type(exc).__name__\<close>.\<close>

fun exn_name :: "exn \<Rightarrow> string" where
  "exn_name (ClientError _ _) = ''ClientError''"
| "exn_name (BotoCoreError c) = c"
| "exn_name (ConfigError _) = ''ConfigError''"
| "exn_name (TransientDependencyError _ _) = ''TransientDependencyError''"
| "exn_name (ImageProcessingError _) = ''ImageProcessingError''"
| "exn_name (UploadRejectedError _ _ _ _) = ''UploadRejectedError''"
| "exn_name (EnqueueFailedError _) = ''EnqueueFailedError''"
| "exn_name (ChaosInjectedError _) = ''ChaosInjectedError''"
| "exn_name (ValidationError _) = ''ValidationError''"
| "exn_name (UnidentifiedImageError _) = ''UnidentifiedImageError''"
| "exn_name (DecompressionBombError _) = ''DecompressionBombError''"
| "exn_name (OSError _) = ''OSError''"
| "exn_name (ValueError _) = ''ValueError''"
| "exn_name (SyntaxError _) = ''SyntaxError''"
| "exn_name (MemoryError _) = ''MemoryError''"
| "exn_name (OtherError c _) = c"

text \<open>
  \<open>str(exc)\<close>. The text of a library exception is the library's, so it is an argument; the
  program's own classes print their message.
\<close>

fun exn_str :: "(exn \<Rightarrow> string) \<Rightarrow> exn \<Rightarrow> string" where
  "exn_str lib (ConfigError m) = m"
| "exn_str lib (TransientDependencyError m _) = m"
| "exn_str lib (ImageProcessingError m) = m"
| "exn_str lib (UploadRejectedError m _ _ _) = m"
| "exn_str lib (EnqueueFailedError m) = m"
| "exn_str lib (ChaosInjectedError m) = m"
| "exn_str lib (OSError m) = m"
| "exn_str lib (ValueError m) = m"
| "exn_str lib (SyntaxError m) = m"
| "exn_str lib (MemoryError m) = m"
| "exn_str lib e = lib e"

text \<open>\<open>except (TransientDependencyError, ClientError, BotoCoreError)\<close>.\<close>

fun is_infra :: "exn \<Rightarrow> bool" where
  "is_infra (TransientDependencyError _ _) = True"
| "is_infra (ClientError _ _) = True"
| "is_infra (BotoCoreError _) = True"
| "is_infra _ = False"

fun is_image_error :: "exn \<Rightarrow> bool" where
  "is_image_error (ImageProcessingError _) = True"
| "is_image_error _ = False"

lemma is_image_error_iff: "is_image_error e \<longleftrightarrow> (\<exists>m. e = ImageProcessingError m)"
  by (cases e) auto

lemma image_not_infra: "is_image_error e \<Longrightarrow> \<not> is_infra e"
  by (cases e) auto

section \<open>Dynamic values\<close>

text \<open>
  A finite Python float is modelled by the rational its shortest decimal \<open>repr\<close> denotes, a finite \<open>Decimal\<close> by its
  value; \<open>PNonFinite\<close> and \<open>PDecimalNonFinite\<close> are the floats and decimals that are not finite. \<open>PRational\<close> is an object exposing \<open>numerator\<close> and
  \<open>denominator\<close> (Pillow's \<open>IFDRational\<close>), \<open>PObj\<close> any other object, by its \<open>repr\<close>.
\<close>

datatype nonfinite = NotANumber | PlusInfinity | MinusInfinity

datatype pyval =
    PNone
  | PBool bool
  | PInt int
  | PFloat rat
  | PNonFinite nonfinite
  | PDecimal rat
  | PDecimalNonFinite nonfinite
  | PRational int int
  | PStr string
  | PBytes bytes
  | PList "pyval list"
  | PTuple "pyval list"
  | PDict "(string \<times> pyval) list"
  | PObj string

lemma size_dict_value: "(k, v) \<in> set d \<Longrightarrow> size v < Suc (size_list (size_prod (\<lambda>_. 0) size) d)"
  by (induction d) auto

end
