(* ===== verification/Models.thy ===== *)
theory Models
  imports Errors
begin

text \<open>
  \<open>shared/models.py\<close>: the job record stored in DynamoDB, the message sent over SQS, and the
  bodies of the HTTP interface. \<open>model_dump\<close> of a declared model is its declared fields in order
  followed by the extra ones (\<open>extra="allow"\<close>); parsing and validation are pydantic's and stay
  parameters of the components that use them (see \<open>Effects\<close>).
\<close>

definition MESSAGE_SCHEMA_VERSION :: int where
  "MESSAGE_SCHEMA_VERSION = 1"

datatype job_status = PENDING | PROCESSING | COMPLETE | FAILED

fun status_value :: "job_status \<Rightarrow> string" where
  "status_value PENDING = ''PENDING''"
| "status_value PROCESSING = ''PROCESSING''"
| "status_value COMPLETE = ''COMPLETE''"
| "status_value FAILED = ''FAILED''"

definition is_terminal :: "job_status \<Rightarrow> bool" where
  "is_terminal st \<longleftrightarrow> st \<in> {COMPLETE, FAILED}"

lemma status_value_inj [simp]: "status_value a = status_value b \<longleftrightarrow> a = b"
  by (cases a; cases b) simp_all

record thumbnail_output =
  to_size :: int
  to_key :: string
  to_width :: int
  to_height :: int
  to_bytes :: int
  to_extra :: "pyval dict"

definition thumbnail_dump :: "thumbnail_output \<Rightarrow> pyval" where
  "thumbnail_dump t = PDict
     ([(''size'', PInt (to_size t)), (''key'', PStr (to_key t)), (''width'', PInt (to_width t)),
       (''height'', PInt (to_height t)), (''bytes'', PInt (to_bytes t))] @ to_extra t)"

record job_record =
  jr_job_id :: string
  jr_status :: job_status
  jr_created_at :: string
  jr_filename :: string
  jr_size_bytes :: int
  jr_content_type :: string
  jr_input_key :: string
  jr_updated_at :: "string option"
  jr_started_at :: "string option"
  jr_completed_at :: "string option"
  jr_outputs :: "(string \<times> thumbnail_output) list option"
  jr_exif :: "pyval dict option"
  jr_source_width :: "int option"
  jr_source_height :: "int option"
  jr_source_format :: "string option"
  jr_processing_ms :: "int option"
  jr_error :: "string option"
  jr_trace_id :: "string option"
  jr_extra :: "pyval dict"

text \<open>\<open>exclude_none=True\<close>: a field that is \<open>None\<close> is left out.\<close>

definition opt_field :: "string \<Rightarrow> ('a \<Rightarrow> pyval) \<Rightarrow> 'a option \<Rightarrow> pyval dict" where
  "opt_field name f x = (case x of None \<Rightarrow> [] | Some v \<Rightarrow> [(name, f v)])"

definition record_dump :: "job_record \<Rightarrow> pyval dict" where
  "record_dump r =
     [(''job_id'', PStr (jr_job_id r)), (''status'', PStr (status_value (jr_status r))),
      (''created_at'', PStr (jr_created_at r)), (''filename'', PStr (jr_filename r)),
      (''size_bytes'', PInt (jr_size_bytes r)), (''content_type'', PStr (jr_content_type r)),
      (''input_key'', PStr (jr_input_key r))]
     @ opt_field ''updated_at'' PStr (jr_updated_at r)
     @ opt_field ''started_at'' PStr (jr_started_at r)
     @ opt_field ''completed_at'' PStr (jr_completed_at r)
     @ opt_field ''outputs'' (\<lambda>os. PDict (map (\<lambda>(k, t). (k, thumbnail_dump t)) os)) (jr_outputs r)
     @ opt_field ''exif'' PDict (jr_exif r)
     @ opt_field ''source_width'' PInt (jr_source_width r)
     @ opt_field ''source_height'' PInt (jr_source_height r)
     @ opt_field ''source_format'' PStr (jr_source_format r)
     @ opt_field ''processing_ms'' PInt (jr_processing_ms r)
     @ opt_field ''error'' PStr (jr_error r)
     @ opt_field ''trace_id'' PStr (jr_trace_id r)
     @ jr_extra r"

definition to_item :: "job_record \<Rightarrow> pyval dict" where
  "to_item r = dict_set ''status'' (PStr (status_value (jr_status r))) (record_dump r)"

definition public_view :: "job_record \<Rightarrow> pyval dict" where
  "public_view r = record_dump r"

record job_message =
  jm_schema_version :: int
  jm_job_id :: string
  jm_bucket :: string
  jm_input_key :: string
  jm_content_type :: string
  jm_filename :: string
  jm_submitted_at :: string
  jm_extra :: "pyval dict"

record chaos_request =
  cr_fail_readiness :: "bool option"
  cr_latency_ms :: "int option"
  cr_error_rate :: "rat option"

record chaos_state =
  fail_readiness :: bool
  latency_ms :: int
  error_rate :: rat

definition ChaosState :: chaos_state where
  "ChaosState = \<lparr>fail_readiness = False, latency_ms = 0, error_rate = 0\<rparr>"

text \<open>The field constraints of \<open>ChaosRequest\<close> (\<open>ge\<close>, \<open>le\<close>), which a parsed body satisfies.\<close>

definition chaos_request_ok :: "chaos_request \<Rightarrow> bool" where
  "chaos_request_ok r \<longleftrightarrow>
     (case cr_latency_ms r of None \<Rightarrow> True | Some l \<Rightarrow> 0 \<le> l \<and> l \<le> 60000) \<and>
     (case cr_error_rate r of None \<Rightarrow> True | Some p \<Rightarrow> 0 \<le> p \<and> p \<le> 1)"

lemma to_item_eq: "to_item r = record_dump r"
  by (simp add: to_item_def record_dump_def)

lemma to_item_status: "dict_get (to_item r) ''status'' = Some (PStr (status_value (jr_status r)))"
  by (simp add: to_item_def)

lemma to_item_job_id: "dict_get (to_item r) ''job_id'' = Some (PStr (jr_job_id r))"
  by (simp add: to_item_def record_dump_def dict_get_def)

end
