(* ===== verification/Config.thy ===== *)
theory Config
  imports Errors
begin

text \<open>
  \<open>shared/config.py\<close>: the environment is read once, validated, and frozen into a record. The
  mapping of environment variables is a partial map; every \<open>ConfigError\<close> of the source is an
  \<open>Inl\<close> with its message.
\<close>

type_synonym environ = "string \<Rightarrow> string option"

definition REQUIRED_VARS :: "string list" where
  "REQUIRED_VARS = [''AWS_REGION'', ''S3_BUCKET'', ''SQS_QUEUE_URL'', ''DYNAMODB_TABLE'']"

definition OPTIONAL_VARS :: "(string \<times> string option) list" where
  "OPTIONAL_VARS =
     [(''LOG_LEVEL'', Some ''INFO''), (''SHUTDOWN_GRACE_SECONDS'', Some ''30''), (''MAX_UPLOAD_BYTES'', Some ''10485760''),
      (''THUMBNAIL_SIZES'', Some ''150,400,800''), (''ENABLE_CHAOS_ENDPOINT'', Some ''false''),
      (''OTEL_EXPORTER_OTLP_ENDPOINT'', None), (''AWS_ENDPOINT_URL'', None)]"

definition VALID_LOG_LEVELS :: "string list" where
  "VALID_LOG_LEVELS = [''CRITICAL'', ''ERROR'', ''WARNING'', ''INFO'', ''DEBUG'']"

definition TRUE_VALUES :: "string list" where
  "TRUE_VALUES = [''1'', ''true'', ''yes'', ''on'']"

definition FALSE_VALUES :: "string list" where
  "FALSE_VALUES = [''0'', ''false'', ''no'', ''off'', '''']"

definition MAX_THUMBNAIL_EDGE :: int where
  "MAX_THUMBNAIL_EDGE = 8192"

record config =
  aws_region :: string
  s3_bucket :: string
  sqs_queue_url :: string
  dynamodb_table :: string
  log_level :: string
  shutdown_grace_seconds :: int
  max_upload_bytes :: int
  thumbnail_sizes :: "int list"
  enable_chaos_endpoint :: bool
  otel_exporter_otlp_endpoint :: "string option"
  aws_endpoint_url :: "string option"

definition cfg_get :: "environ \<Rightarrow> string \<Rightarrow> string option" where
  "cfg_get source name =
     (case source name of None \<Rightarrow> None
      | Some value \<Rightarrow> (let stripped = py_strip value in if stripped = [] then None else Some stripped))"

definition cfg_require :: "environ \<Rightarrow> string \<Rightarrow> exn + string" where
  "cfg_require source name =
     (case cfg_get source name of
        None \<Rightarrow> Inl (ConfigError (''missing required environment variable: '' @ name))
      | Some value \<Rightarrow> Inr value)"

definition cfg_log_level :: "environ \<Rightarrow> exn + string" where
  "cfg_log_level source =
     (let raw = opt_get ''INFO'' (cfg_get source ''LOG_LEVEL''); level = py_upper raw
      in if level \<notin> set VALID_LOG_LEVELS
         then Inl (ConfigError (''LOG_LEVEL must be one of '' @
                 py_repr_list (sort VALID_LOG_LEVELS) @ '', got '' @ py_repr raw))
         else Inr level)"

definition cfg_int :: "environ \<Rightarrow> string \<Rightarrow> int \<Rightarrow> int \<Rightarrow> exn + int" where
  "cfg_int source name dflt minimum =
     (case cfg_get source name of
        None \<Rightarrow> Inr dflt
      | Some raw \<Rightarrow>
          (case py_int raw of
             None \<Rightarrow> Inl (ConfigError (name @ '' must be an integer, got '' @ py_repr raw))
           | Some value \<Rightarrow>
               if value < minimum
               then Inl (ConfigError (name @ '' must be >= '' @ show_int minimum @ '', got '' @ show_int value))
               else Inr value))"

text \<open>\<open>_bool\<close> reads the raw variable, so an empty one counts as false rather than unset.\<close>

definition cfg_bool :: "environ \<Rightarrow> string \<Rightarrow> bool \<Rightarrow> exn + bool" where
  "cfg_bool source name dflt =
     (case source name of
        None \<Rightarrow> Inr dflt
      | Some raw \<Rightarrow>
          (let normalised = py_lower (py_strip raw)
           in if normalised \<in> set TRUE_VALUES then Inr True
              else if normalised \<in> set FALSE_VALUES then Inr False
              else Inl (ConfigError (name @ '' must be a boolean (true/false/1/0/yes/no/on/off), got '' @ py_repr raw))))"

text \<open>The loop of \<open>_thumbnail_sizes\<close>; the set of sizes is the accumulator.\<close>

fun parse_sizes :: "string \<Rightarrow> string list \<Rightarrow> int set \<Rightarrow> exn + int set" where
  "parse_sizes raw [] sizes = Inr sizes"
| "parse_sizes raw (t # ts) sizes =
     (let token = py_strip t
      in if token = [] then parse_sizes raw ts sizes
         else (case py_int token of
             None \<Rightarrow> Inl (ConfigError (''THUMBNAIL_SIZES must be a comma-separated list of integers, got '' @ py_repr raw))
           | Some n \<Rightarrow>
               if n \<le> 0 \<or> n > MAX_THUMBNAIL_EDGE
               then Inl (ConfigError (''THUMBNAIL_SIZES entries must be between 1 and ''
                           @ show_int MAX_THUMBNAIL_EDGE @ '', got '' @ show_int n))
               else parse_sizes raw ts (insert n sizes)))"

definition cfg_thumbnail_sizes :: "environ \<Rightarrow> exn + int list" where
  "cfg_thumbnail_sizes source =
     (let raw = opt_get ''150,400,800'' (cfg_get source ''THUMBNAIL_SIZES'')
      in case parse_sizes raw (py_split (CHR '','') raw) {} of
           Inl e \<Rightarrow> Inl e
         | Inr sizes \<Rightarrow>
             if sizes = {} then Inl (ConfigError ''THUMBNAIL_SIZES must contain at least one size'')
             else Inr (sorted_list_of_set sizes))"

definition missing_vars :: "environ \<Rightarrow> string list" where
  "missing_vars source = filter (\<lambda>name. cfg_get source name = None) REQUIRED_VARS"

definition load_config :: "environ \<Rightarrow> exn + config" where
  "load_config source =
     (if missing_vars source \<noteq> []
      then Inl (ConfigError (''missing required environment variable(s): ''
                  @ py_join '', '' (sort (missing_vars source))))
      else sum_bind (cfg_require source ''AWS_REGION'') (\<lambda>region.
           sum_bind (cfg_require source ''S3_BUCKET'') (\<lambda>bucket.
           sum_bind (cfg_require source ''SQS_QUEUE_URL'') (\<lambda>url.
           sum_bind (cfg_require source ''DYNAMODB_TABLE'') (\<lambda>table.
           sum_bind (cfg_log_level source) (\<lambda>level.
           sum_bind (cfg_int source ''SHUTDOWN_GRACE_SECONDS'' 30 0) (\<lambda>grace.
           sum_bind (cfg_int source ''MAX_UPLOAD_BYTES'' 10485760 1) (\<lambda>upload.
           sum_bind (cfg_thumbnail_sizes source) (\<lambda>sizes.
           sum_bind (cfg_bool source ''ENABLE_CHAOS_ENDPOINT'' False) (\<lambda>chaos.
          Inr \<lparr>aws_region = region, s3_bucket = bucket, sqs_queue_url = url, dynamodb_table = table,
               log_level = level, shutdown_grace_seconds = grace, max_upload_bytes = upload,
               thumbnail_sizes = sizes, enable_chaos_endpoint = chaos,
               otel_exporter_otlp_endpoint = cfg_get source ''OTEL_EXPORTER_OTLP_ENDPOINT'',
               aws_endpoint_url = cfg_get source ''AWS_ENDPOINT_URL''\<rparr>))))))))))"

text \<open>\<open>_mask_queue_url\<close>: \<open>str.split\<close> never returns an empty list, so the fallback is dead.\<close>

definition mask_queue_url :: "string \<Rightarrow> string" where
  "mask_queue_url queue_url =
     (let parts = py_split (CHR ''/'') (py_rstrip_char (CHR ''/'') queue_url)
      in if parts \<noteq> [] then last parts else queue_url)"

definition redacted :: "config \<Rightarrow> pyval dict" where
  "redacted c =
     [(''aws_region'', PStr (aws_region c)),
      (''s3_bucket'', PStr (s3_bucket c)),
      (''dynamodb_table'', PStr (dynamodb_table c)),
      (''sqs_queue_url'', PStr (mask_queue_url (sqs_queue_url c))),
      (''log_level'', PStr (log_level c)),
      (''shutdown_grace_seconds'', PInt (shutdown_grace_seconds c)),
      (''max_upload_bytes'', PInt (max_upload_bytes c)),
      (''thumbnail_sizes'', PList (map PInt (thumbnail_sizes c))),
      (''enable_chaos_endpoint'', PBool (enable_chaos_endpoint c)),
      (''otel_enabled'', PBool (otel_exporter_otlp_endpoint c \<noteq> None)),
      (''aws_endpoint_url'', case aws_endpoint_url c of None \<Rightarrow> PNone | Some u \<Rightarrow> PStr u)]"

section \<open>What a loaded configuration guarantees\<close>

definition valid_sizes :: "int list \<Rightarrow> bool" where
  "valid_sizes ss \<longleftrightarrow> ss \<noteq> [] \<and> sorted ss \<and> distinct ss \<and> (\<forall>s \<in> set ss. 1 \<le> s \<and> s \<le> MAX_THUMBNAIL_EDGE)"

definition config_wf :: "config \<Rightarrow> bool" where
  "config_wf c \<longleftrightarrow>
     aws_region c \<noteq> [] \<and> s3_bucket c \<noteq> [] \<and> sqs_queue_url c \<noteq> [] \<and> dynamodb_table c \<noteq> [] \<and>
     log_level c \<in> set VALID_LOG_LEVELS \<and> 0 \<le> shutdown_grace_seconds c \<and> 1 \<le> max_upload_bytes c \<and>
     valid_sizes (thumbnail_sizes c)"

lemma cfg_get_nonempty: "cfg_get source name = Some v \<Longrightarrow> v \<noteq> []"
  by (auto simp: cfg_get_def Let_def split: option.splits if_splits)

lemma cfg_require_nonempty: "cfg_require source name = Inr v \<Longrightarrow> v \<noteq> []"
  by (auto simp: cfg_require_def split: option.splits dest: cfg_get_nonempty)

lemma cfg_log_level_valid: "cfg_log_level source = Inr l \<Longrightarrow> l \<in> set VALID_LOG_LEVELS"
  by (auto simp: cfg_log_level_def Let_def split: if_splits)

lemma cfg_int_min: "cfg_int source name d m = Inr v \<Longrightarrow> m \<le> d \<Longrightarrow> m \<le> v"
  by (auto simp: cfg_int_def split: option.splits if_splits)

definition sizes_ok :: "int set \<Rightarrow> bool" where
  "sizes_ok ss \<longleftrightarrow> finite ss \<and> (\<forall>s \<in> ss. 1 \<le> s \<and> s \<le> MAX_THUMBNAIL_EDGE)"

lemma sizes_ok_insert: "sizes_ok ss \<Longrightarrow> \<not> n \<le> 0 \<Longrightarrow> \<not> n > MAX_THUMBNAIL_EDGE \<Longrightarrow> sizes_ok (insert n ss)"
  by (simp add: sizes_ok_def)

lemma parse_sizes_ok: "parse_sizes raw ts acc = Inr sizes \<Longrightarrow> sizes_ok acc \<Longrightarrow> sizes_ok sizes"
proof (induction ts arbitrary: acc)
  case Nil
  then show ?case by simp
next
  case (Cons t ts)
  from Cons.prems show ?case
    by (simp add: Let_def split: if_split_asm option.split_asm)
      (blast intro: Cons.IH sizes_ok_insert)+
qed

lemma cfg_thumbnail_sizes_valid:
  assumes "cfg_thumbnail_sizes source = Inr ss"
  shows "valid_sizes ss"
proof -
  from assms obtain raw ts sizes where p: "parse_sizes raw ts {} = Inr sizes"
    and ss: "sizes \<noteq> {}" "ss = sorted_list_of_set sizes"
    by (auto simp: cfg_thumbnail_sizes_def Let_def split: sum.split_asm if_split_asm)
  have "sizes_ok sizes" by (rule parse_sizes_ok [OF p]) (simp add: sizes_ok_def)
  with ss show ?thesis by (simp add: valid_sizes_def sizes_ok_def)
qed

lemma load_config_ok:
  assumes "load_config source = Inr c"
  shows "config_wf c"
proof -
  from assms obtain region bucket url table level grace upload sizes chaos where
      parts: "cfg_require source ''AWS_REGION'' = Inr region" "cfg_require source ''S3_BUCKET'' = Inr bucket"
        "cfg_require source ''SQS_QUEUE_URL'' = Inr url" "cfg_require source ''DYNAMODB_TABLE'' = Inr table"
        "cfg_log_level source = Inr level" "cfg_int source ''SHUTDOWN_GRACE_SECONDS'' 30 0 = Inr grace"
        "cfg_int source ''MAX_UPLOAD_BYTES'' 10485760 1 = Inr upload" "cfg_thumbnail_sizes source = Inr sizes"
    and c: "aws_region c = region" "s3_bucket c = bucket" "sqs_queue_url c = url" "dynamodb_table c = table"
        "log_level c = level" "shutdown_grace_seconds c = grace" "max_upload_bytes c = upload"
        "thumbnail_sizes c = sizes"
    unfolding load_config_def by (auto simp only: sum_bind_Inr if_split config.simps sum.simps split: if_split_asm)
  show ?thesis
    unfolding config_wf_def c
    using parts(1-5,8) cfg_int_min [OF parts(6)] cfg_int_min [OF parts(7)]
    by (simp add: cfg_require_nonempty cfg_log_level_valid cfg_thumbnail_sizes_valid)
qed

section \<open>Properties\<close>

lemma errors_are_config:
  "cfg_require source name = Inl e \<Longrightarrow> \<exists>m. e = ConfigError m"
  "cfg_log_level source = Inl e \<Longrightarrow> \<exists>m. e = ConfigError m"
  "cfg_int source name d k = Inl e \<Longrightarrow> \<exists>m. e = ConfigError m"
  "cfg_bool source name b = Inl e \<Longrightarrow> \<exists>m. e = ConfigError m"
  by (auto simp: cfg_require_def cfg_log_level_def cfg_int_def cfg_bool_def Let_def split: option.splits if_splits)

lemma parse_sizes_error: "parse_sizes raw ts acc = Inl e \<Longrightarrow> \<exists>m. e = ConfigError m"
  by (induction ts arbitrary: acc) (auto simp: Let_def split: if_split_asm option.split_asm)

lemma cfg_thumbnail_sizes_error: "cfg_thumbnail_sizes source = Inl e \<Longrightarrow> \<exists>m. e = ConfigError m"
  by (auto simp: cfg_thumbnail_sizes_def Let_def split: sum.split_asm if_split_asm dest: parse_sizes_error)

lemma load_config_error: "load_config source = Inl e \<Longrightarrow> \<exists>m. e = ConfigError m"
  unfolding load_config_def
  by (auto simp only: sum_bind_Inl sum.simps split: if_split_asm
      dest: errors_are_config cfg_thumbnail_sizes_error)

text \<open>
  C28: Loading a configuration either fails with \<open>ConfigError\<close> and nothing else, or yields a
  configuration in which every required name is present and not blank, the log level is a known one,
  and the numeric limits and thumbnail sizes (non-empty, ascending, distinct, between 1 and the
  maximal edge) are in range, whatever the environment holds.
\<close>

theorem load_config_total:
  "case load_config source of
     Inl e \<Rightarrow> \<exists>m. e = ConfigError m
   | Inr c \<Rightarrow> config_wf c \<and> missing_vars source = []"
proof (cases "load_config source")
  case (Inl e)
  then show ?thesis by (simp add: load_config_error)
next
  case (Inr c)
  then show ?thesis
    using load_config_ok [OF Inr] by (auto simp: load_config_def split: if_split_asm)
qed

lemma parse_sizes_show:
  "\<forall>n \<in> set ss. 1 \<le> n \<and> n \<le> MAX_THUMBNAIL_EDGE \<Longrightarrow>
   parse_sizes raw (map show_int ss) acc = Inr (acc \<union> set ss)"
proof (induction ss arbitrary: acc)
  case Nil
  then show ?case by simp
next
  case (Cons n ss)
  then have n: "1 \<le> n" "n \<le> MAX_THUMBNAIL_EDGE" by simp_all
  have dec: "\<forall>c \<in> set (show_int n). is_dec c" using n show_nat_dec by (simp add: show_int_def)
  then have strip: "py_strip (show_int n) = show_int n" by (intro py_strip_id) (auto dest: dec_not_minus)
  have "py_int (show_int n) = Some n"
    using n py_int_show_small [of "nat n"] by (simp add: show_int_def MAX_THUMBNAIL_EDGE_def)
  moreover have "show_int n \<noteq> []" using n by (simp add: show_int_def)
  ultimately show ?case using Cons n by (simp add: strip)
qed

lemma join_no_space:
  "\<forall>s \<in> set ss. \<forall>c \<in> set s. \<not> is_space c \<Longrightarrow> \<forall>c \<in> set (py_join '','' ss). \<not> is_space c"
  by (induction "'',''" ss rule: py_join.induct) (auto simp: is_space_def py_ord_def)

text \<open>
  The thumbnail sizes of a configuration survive being written back to the environment: printing
  any valid list of sizes with commas and reading it again gives the same list.
\<close>

theorem thumbnail_sizes_roundtrip:
  assumes "valid_sizes ss" "source ''THUMBNAIL_SIZES'' = Some (py_join '','' (map show_int ss))"
  shows "cfg_thumbnail_sizes source = Inr ss"
proof -
  from assms(1) have ss: "ss \<noteq> []" "sorted ss" "distinct ss" "\<forall>n \<in> set ss. 1 \<le> n \<and> n \<le> MAX_THUMBNAIL_EDGE"
    by (simp_all add: valid_sizes_def)
  let ?raw = "py_join '','' (map show_int ss)"
  have dec: "\<forall>s \<in> set (map show_int ss). \<forall>c \<in> set s. is_dec c" using ss(4) show_nat_dec by (auto simp: show_int_def)
  have strip: "py_strip ?raw = ?raw"
    by (intro py_strip_id join_no_space) (use dec dec_not_minus in blast)
  have split: "py_split CHR '','' ?raw = map show_int ss"
  proof (rule py_split_of_join)
    have "\<not> is_dec CHR '',''" by (simp add: is_dec_def py_ord_def)
    with dec show "\<forall>s \<in> set (map show_int ss). CHR '','' \<notin> set s" by blast
  qed (use ss(1) in simp)
  have "?raw \<noteq> []"
    using ss(1,4) by (cases ss; cases "tl ss") (auto simp: show_int_def)
  with assms(2) strip have "cfg_get source ''THUMBNAIL_SIZES'' = Some ?raw"
    by (simp add: cfg_get_def)
  moreover have "parse_sizes ?raw (map show_int ss) {} = Inr ({} \<union> set ss)"
    by (rule parse_sizes_show [OF ss(4)])
  ultimately show ?thesis
    using ss by (simp add: cfg_thumbnail_sizes_def split sorted_list_of_set_sort_remdups sorted_sort_id distinct_remdups_id)
qed

theorem thumbnail_sizes_roundtrip_witness:
  "cfg_thumbnail_sizes [''THUMBNAIL_SIZES'' \<mapsto> py_join '','' (map show_int [150, 400, 800])] = Inr [150, 400, 800]"
  by (rule thumbnail_sizes_roundtrip) (simp_all add: valid_sizes_def MAX_THUMBNAIL_EDGE_def)

text \<open>The environment with every unset optional variable set to its documented default.\<close>

definition with_defaults :: "environ \<Rightarrow> environ" where
  "with_defaults source name =
     (case source name of None \<Rightarrow> opt_get None (map_of OPTIONAL_VARS name) | Some value \<Rightarrow> Some value)"

lemma with_defaults_required:
  "opt_get None (map_of OPTIONAL_VARS name) = None \<Longrightarrow> cfg_get (with_defaults source) name = cfg_get source name"
  by (simp add: cfg_get_def with_defaults_def split: option.split)

lemma with_defaults_set: "source name = Some v \<Longrightarrow> with_defaults source name = Some v"
  by (simp add: with_defaults_def)

lemma default_values:
  "map_of OPTIONAL_VARS ''LOG_LEVEL'' = Some (Some ''INFO'')" "map_of OPTIONAL_VARS ''SHUTDOWN_GRACE_SECONDS'' = Some (Some ''30'')"
  "map_of OPTIONAL_VARS ''MAX_UPLOAD_BYTES'' = Some (Some ''10485760'')"
  "map_of OPTIONAL_VARS ''THUMBNAIL_SIZES'' = Some (Some ''150,400,800'')"
  "map_of OPTIONAL_VARS ''ENABLE_CHAOS_ENDPOINT'' = Some (Some ''false'')"
  by (simp_all add: OPTIONAL_VARS_def)

lemma default_parses:
  "py_strip ''INFO'' = ''INFO''" "py_strip ''30'' = ''30''" "py_strip ''10485760'' = ''10485760''"
  "py_strip ''150,400,800'' = ''150,400,800''" "py_lower (py_strip ''false'') = ''false''"
  by (simp_all add: py_strip_def is_space_def py_ord_def py_lower_def lower_char_def Let_def)

lemma default_numbers: "py_int ''30'' = Some 30" "py_int ''10485760'' = Some 10485760"
  by (simp_all add: py_int_def is_int_space_def is_dec_def py_ord_def dec_value_def Let_def)

lemma with_defaults_level: "cfg_log_level (with_defaults source) = cfg_log_level source"
proof -
  have "opt_get ''INFO'' (cfg_get (with_defaults source) ''LOG_LEVEL'') = opt_get ''INFO'' (cfg_get source ''LOG_LEVEL'')"
    by (cases "source ''LOG_LEVEL''") (simp_all add: cfg_get_def with_defaults_def default_values default_parses)
  then show ?thesis by (simp only: cfg_log_level_def)
qed

lemma with_defaults_int:
  assumes "map_of OPTIONAL_VARS name = Some (Some raw)" "py_strip raw = raw" "raw \<noteq> []" "py_int raw = Some n" "minimum \<le> n"
  shows "cfg_int (with_defaults source) name n minimum = cfg_int source name n minimum"
  using assms by (cases "source name") (simp_all add: cfg_int_def cfg_get_def with_defaults_def Let_def)

lemma with_defaults_sizes: "cfg_thumbnail_sizes (with_defaults source) = cfg_thumbnail_sizes source"
proof -
  have "opt_get ''150,400,800'' (cfg_get (with_defaults source) ''THUMBNAIL_SIZES'') = opt_get ''150,400,800'' (cfg_get source ''THUMBNAIL_SIZES'')"
    by (cases "source ''THUMBNAIL_SIZES''") (simp_all add: cfg_get_def with_defaults_def default_values default_parses)
  then show ?thesis by (simp only: cfg_thumbnail_sizes_def)
qed

lemma with_defaults_bool: "cfg_bool (with_defaults source) ''ENABLE_CHAOS_ENDPOINT'' False = cfg_bool source ''ENABLE_CHAOS_ENDPOINT'' False"
  by (cases "source ''ENABLE_CHAOS_ENDPOINT''")
    (simp_all add: cfg_bool_def with_defaults_def default_values default_parses TRUE_VALUES_def FALSE_VALUES_def Let_def)

text \<open>
  The documented defaults are the ones in force: in any environment, setting each unset optional variable to
  its default of \<open>OPTIONAL_VARS\<close> does not change what \<open>load_config\<close> returns.
\<close>

theorem optional_defaults_agree: "load_config (with_defaults source) = load_config source"
proof -
  have required: "cfg_get (with_defaults source) name = cfg_get source name"
    if "name \<in> set REQUIRED_VARS \<or> name = ''OTEL_EXPORTER_OTLP_ENDPOINT'' \<or> name = ''AWS_ENDPOINT_URL''" for name
    using that by (intro with_defaults_required) (auto simp: REQUIRED_VARS_def OPTIONAL_VARS_def)
  have missing: "missing_vars (with_defaults source) = missing_vars source"
    unfolding missing_vars_def by (rule filter_cong) (simp_all add: required)
  have grace: "cfg_int (with_defaults source) ''SHUTDOWN_GRACE_SECONDS'' 30 0 = cfg_int source ''SHUTDOWN_GRACE_SECONDS'' 30 0"
    by (rule with_defaults_int [OF default_values(2) default_parses(2) _ default_numbers(1)]) simp_all
  have upload: "cfg_int (with_defaults source) ''MAX_UPLOAD_BYTES'' 10485760 1 = cfg_int source ''MAX_UPLOAD_BYTES'' 10485760 1"
    by (rule with_defaults_int [OF default_values(3) default_parses(3) _ default_numbers(2)]) simp_all
  have require: "cfg_require (with_defaults source) name = cfg_require source name" if "name \<in> set REQUIRED_VARS" for name
    using that by (simp add: cfg_require_def required)
  show ?thesis
    unfolding load_config_def missing grace upload with_defaults_level with_defaults_sizes with_defaults_bool
    by (simp add: require required REQUIRED_VARS_def)
qed

end
