(* ===== verification/Effects.thy ===== *)
theory Effects
  imports Models Config
begin

text \<open>
  The effects of a process: what it asks of the outside world, what it keeps in its own metric
  registries and context, and the small language in which the components are written.

  Everything outside \<open>src/\<close> that answers a call (boto3, the clock, the random number generator, the
  file system, Pillow, pydantic's parsers, OpenTelemetry) is a field of the record \<open>env\<close>, a
  parameter of every definition that uses it; it answers from a world of any type \<open>'w\<close>, so
  nothing is fixed about it. Every request put on the wire to AWS is appended to the state's
  \<open>wire\<close> with its outcome: the theorems about ordering are theorems about that log.
\<close>

section \<open>Requests to AWS and their outcomes\<close>

datatype request =
    PutObject string string bytes string
  | GetObject string string
  | ReadBody string string
  | HeadBucket string
  | SendMessage string string "(string \<times> string) list"
  | ReceiveMessage string int int "string list" "string list" "int option"
  | DeleteMessage string string
  | ChangeMessageVisibility string string int
  | GetQueueAttributes string
  | PutItem string "pyval dict"
  | GetItem string string "bool option"
  | UpdateItem string string string "string option" "(string \<times> string) list" "pyval dict"

text \<open>
  A request returned (with the item, for \<open>GetItem\<close>; \<open>PNone\<close> otherwise) or raised.
\<close>

datatype outcome = Returned pyval | Raised exn

type_synonym event = "request \<times> outcome"

fun ok :: "event \<Rightarrow> bool" where
  "ok (q, Returned v) = True"
| "ok (q, Raised e) = False"

lemma ok_iff: "ok ev \<longleftrightarrow> (\<exists>v. snd ev = Returned v)"
  by (cases ev rule: ok.cases) auto

text \<open>An SQS message as \<open>receive_message\<close> returns it; any key may be missing.\<close>

datatype msg_attr = AttrMap "string option" | AttrOther

record sqs_message =
  MessageId :: "string option"
  ReceiptHandle :: "string option"
  Body :: "string option"
  Attributes :: "(string \<times> string) list option"
  MessageAttributes :: "(string \<times> msg_attr) list option"

section \<open>Pillow\<close>

text \<open>
  An image as Pillow shows it to this program: its detected format, size, mode, whether
  \<open>info\<close> has a transparency entry, and an opaque raster. Every Pillow call is a parameter.
\<close>

record pil_image =
  im_format :: "string option"
  im_size :: "int \<times> int"
  im_mode :: string
  im_transparency :: bool
  im_raster :: bytes

text \<open>What \<open>getexif()\<close> returns: the base entries, and the outcome of \<open>get_ifd\<close> on the EXIF sub-IFD.\<close>

record pil_exif =
  ex_entries :: "(int \<times> pyval) list"
  ex_sub_ifd :: "exn + (int \<times> pyval) list"

record pillow =
  pil_open :: "bytes \<Rightarrow> exn + pil_image"
  pil_verify :: "pil_image \<Rightarrow> exn option"
  pil_load :: "pil_image \<Rightarrow> exn + pil_image"
  pil_getexif :: "pil_image \<Rightarrow> exn + pil_exif"
  pil_exif_transpose :: "pil_image \<Rightarrow> exn + pil_image option"
  pil_convert :: "string \<Rightarrow> pil_image \<Rightarrow> exn + pil_image"
  pil_over_white :: "pil_image \<Rightarrow> exn + pil_image"
  pil_thumbnail :: "int \<times> int \<Rightarrow> pil_image \<Rightarrow> exn + pil_image"
  pil_save_jpeg :: "pil_image \<Rightarrow> exn + bytes"
  pil_TAGS :: "int \<Rightarrow> string option"
  pil_GPSTAGS :: "int \<Rightarrow> string option"
  round6 :: "rat \<Rightarrow> rat"

section \<open>The environment\<close>

text \<open>The arguments of a boto3 client, as \<open>build_client\<close> and \<open>build_dynamodb_resource\<close> give them.\<close>

record boto_config =
  bc_max_attempts :: int
  bc_mode :: string
  bc_connect_timeout :: int
  bc_read_timeout :: int
  bc_user_agent_extra :: string

record boto_client =
  bo_service :: string
  bo_region :: string
  bo_endpoint :: "string option"
  bo_config :: boto_config

record 'w env =
  boto_connect :: "boto_client \<Rightarrow> 'w \<Rightarrow> (exn + unit) \<times> 'w"
  put_object :: "string \<Rightarrow> string \<Rightarrow> bytes \<Rightarrow> string \<Rightarrow> 'w \<Rightarrow> (exn + unit) \<times> 'w"
  get_object :: "string \<Rightarrow> string \<Rightarrow> 'w \<Rightarrow> (exn + unit) \<times> 'w"
  read_body :: "string \<Rightarrow> string \<Rightarrow> 'w \<Rightarrow> (exn + bytes) \<times> 'w"
  head_bucket :: "string \<Rightarrow> 'w \<Rightarrow> (exn + unit) \<times> 'w"
  send_message :: "string \<Rightarrow> string \<Rightarrow> (string \<times> string) list \<Rightarrow> 'w \<Rightarrow> (exn + string option) \<times> 'w"
  receive_message :: "string \<Rightarrow> int \<Rightarrow> int \<Rightarrow> string list \<Rightarrow> string list \<Rightarrow> int option \<Rightarrow> 'w \<Rightarrow> (exn + sqs_message list option) \<times> 'w"
  delete_message :: "string \<Rightarrow> string \<Rightarrow> 'w \<Rightarrow> (exn + unit) \<times> 'w"
  change_message_visibility :: "string \<Rightarrow> string \<Rightarrow> int \<Rightarrow> 'w \<Rightarrow> (exn + unit) \<times> 'w"
  get_queue_attributes :: "string \<Rightarrow> 'w \<Rightarrow> (exn + unit) \<times> 'w"
  put_item :: "string \<Rightarrow> pyval dict \<Rightarrow> 'w \<Rightarrow> (exn + unit) \<times> 'w"
  get_item :: "string \<Rightarrow> string \<Rightarrow> bool option \<Rightarrow> 'w \<Rightarrow> (exn + pyval dict option) \<times> 'w"
  update_item :: "string \<Rightarrow> string \<Rightarrow> string \<Rightarrow> string option \<Rightarrow> (string \<times> string) list \<Rightarrow> pyval dict \<Rightarrow> 'w \<Rightarrow> (exn + unit) \<times> 'w"
  now_iso :: "'w \<Rightarrow> string \<times> 'w"
  uuid4 :: "'w \<Rightarrow> string \<times> 'w"
  random01 :: "'w \<Rightarrow> rat \<times> 'w"
  clock :: "'w \<Rightarrow> rat \<times> 'w"
  mkdtemp :: "string \<Rightarrow> 'w \<Rightarrow> (exn + string) \<times> 'w"
  rmtree :: "string \<Rightarrow> 'w \<Rightarrow> bool \<times> 'w"
  write_file :: "string \<Rightarrow> bytes \<Rightarrow> 'w \<Rightarrow> (exn + unit) \<times> 'w"
  read_file :: "string \<Rightarrow> 'w \<Rightarrow> (exn + bytes) \<times> 'w"
  beats_due :: "'w \<Rightarrow> nat \<times> 'w"
  trace_carrier_now :: "'w \<Rightarrow> (string \<times> string) list \<times> 'w"
  span_ids :: "'w \<Rightarrow> (string option \<times> string option) \<times> 'w"
  validate_record :: "pyval dict \<Rightarrow> exn + job_record"
  parse_message :: "string \<Rightarrow> exn + job_message"
  dump_message :: "job_message \<Rightarrow> string"
  lib_str :: "exn \<Rightarrow> string"
  pil :: pillow

section \<open>The state of a process\<close>

text \<open>
  The registries of \<open>shared/metrics.py\<close> (a counter is a function from its label to its value, a
  histogram the list of its observations), the structlog context, the temporary directories that
  exist, the delays slept between attempts, and the wire log.
\<close>

record 'w st =
  world :: 'w
  wire :: "event list"
  slept :: "rat list"
  sqs_errors_total :: "string \<Rightarrow> nat"
  http_requests_total :: "string \<times> string \<times> string \<Rightarrow> nat"
  http_durations :: "(string \<times> rat) list"
  uploads_total :: "string \<Rightarrow> nat"
  upload_sizes :: "int list"
  jobs_processed_total :: "string \<Rightarrow> nat"
  job_durations :: "rat list"
  jobs_inflight :: int
  stage_durations :: "(string \<times> rat) list"
  log_context :: "(string \<times> string) list"
  temp_dirs :: "string list"

definition inc :: "'l \<Rightarrow> ('l \<Rightarrow> nat) \<Rightarrow> ('l \<Rightarrow> nat)" where
  "inc l c = c(l := Suc (c l))"

text \<open>
  The fields an AWS wrapper never touches: everything but the world, the wire log, the sleeps and
  the SQS error counter.
\<close>

definition same_books :: "'w st \<Rightarrow> 'w st \<Rightarrow> bool" where
  "same_books s t \<longleftrightarrow>
     http_requests_total t = http_requests_total s \<and> http_durations t = http_durations s \<and>
     uploads_total t = uploads_total s \<and> upload_sizes t = upload_sizes s \<and>
     jobs_processed_total t = jobs_processed_total s \<and> job_durations t = job_durations s \<and>
     jobs_inflight t = jobs_inflight s \<and> stage_durations t = stage_durations s \<and>
     log_context t = log_context s \<and> temp_dirs t = temp_dirs s"

lemma same_books_refl [simp, intro]: "same_books s s"
  by (simp add: same_books_def)

lemma same_books_trans: "same_books s t \<Longrightarrow> same_books t u \<Longrightarrow> same_books s u"
  by (simp add: same_books_def)

lemma same_booksD:
  assumes "same_books s t"
  shows "http_requests_total t = http_requests_total s" "http_durations t = http_durations s"
    "uploads_total t = uploads_total s" "upload_sizes t = upload_sizes s"
    "jobs_processed_total t = jobs_processed_total s" "job_durations t = job_durations s"
    "jobs_inflight t = jobs_inflight s" "stage_durations t = stage_durations s"
    "log_context t = log_context s" "temp_dirs t = temp_dirs s"
  using assms by (simp_all add: same_books_def)

section \<open>Programs\<close>

type_synonym ('w, 'a) prog = "'w st \<Rightarrow> (exn + 'a) \<times> 'w st"

definition return :: "'a \<Rightarrow> ('w, 'a) prog" where
  "return x s = (Inr x, s)"

definition raise :: "exn \<Rightarrow> ('w, 'a) prog" where
  "raise e s = (Inl e, s)"

definition bind :: "('w, 'a) prog \<Rightarrow> ('a \<Rightarrow> ('w, 'b) prog) \<Rightarrow> ('w, 'b) prog" where
  "bind m f s = (case m s of (Inl e, s') \<Rightarrow> (Inl e, s') | (Inr x, s') \<Rightarrow> f x s')"

text \<open>\<open>attempt m\<close> is the body of a \<open>try\<close>: its exception becomes a value to match on.\<close>

definition attempt :: "('w, 'a) prog \<Rightarrow> ('w, exn + 'a) prog" where
  "attempt m s = (case m s of (r, s') \<Rightarrow> (Inr r, s'))"

text \<open>\<open>try: m finally: f\<close>; an exception of \<open>f\<close> replaces the outcome of \<open>m\<close>.\<close>

definition finalize :: "('w, 'a) prog \<Rightarrow> ('w, unit) prog \<Rightarrow> ('w, 'a) prog" where
  "finalize m f s =
     (case m s of (r, s') \<Rightarrow> (case f s' of (Inl e, s'') \<Rightarrow> (Inl e, s'') | (Inr _, s'') \<Rightarrow> (r, s'')))"

definition modify :: "('w st \<Rightarrow> 'w st) \<Rightarrow> ('w, unit) prog" where
  "modify f s = (Inr (), f s)"

definition of_sum :: "exn + 'a \<Rightarrow> ('w, 'a) prog" where
  "of_sum r s = (r, s)"

text \<open>A call outside the wire that cannot raise, and one that can.\<close>

definition ask :: "('w \<Rightarrow> 'a \<times> 'w) \<Rightarrow> ('w, 'a) prog" where
  "ask f s = (case f (world s) of (x, w) \<Rightarrow> (Inr x, s\<lparr>world := w\<rparr>))"

definition ask_io :: "('w \<Rightarrow> (exn + 'a) \<times> 'w) \<Rightarrow> ('w, 'a) prog" where
  "ask_io f s = (case f (world s) of (r, w) \<Rightarrow> (r, s\<lparr>world := w\<rparr>))"

text \<open>A call to AWS: one entry on the wire, whatever its outcome.\<close>

definition on_wire :: "request \<Rightarrow> ('a \<Rightarrow> pyval) \<Rightarrow> ('w \<Rightarrow> (exn + 'a) \<times> 'w) \<Rightarrow> ('w, 'a) prog" where
  "on_wire q show f s =
     (case f (world s) of (r, w) \<Rightarrow>
        (r, s\<lparr>world := w, wire := wire s @ [(q, case r of Inl e \<Rightarrow> Raised e | Inr x \<Rightarrow> Returned (show x))]\<rparr>))"

definition sleep :: "rat \<Rightarrow> ('w, unit) prog" where
  "sleep d = modify (\<lambda>s. s\<lparr>slept := slept s @ [d]\<rparr>)"

section \<open>Specifications of programs\<close>

text \<open>\<open>wp m Q s\<close>: running \<open>m\<close> from \<open>s\<close> ends in an outcome and a state that satisfy \<open>Q\<close>.\<close>

definition wp :: "('w, 'a) prog \<Rightarrow> (exn + 'a \<Rightarrow> 'w st \<Rightarrow> bool) \<Rightarrow> 'w st \<Rightarrow> bool" where
  "wp m Q s \<longleftrightarrow> (case m s of (r, s') \<Rightarrow> Q r s')"

lemma wpD: "wp m Q s \<Longrightarrow> m s = (r, s') \<Longrightarrow> Q r s'"
  by (simp add: wp_def)

lemma wpI: "(\<And>r s'. m s = (r, s') \<Longrightarrow> Q r s') \<Longrightarrow> wp m Q s"
  by (cases "m s") (simp add: wp_def)

lemma wp_mono: "wp m P s \<Longrightarrow> (\<And>r s'. P r s' \<Longrightarrow> Q r s') \<Longrightarrow> wp m Q s"
  by (auto simp: wp_def split: prod.splits)

lemma wp_conj: "wp m P s \<Longrightarrow> wp m Q s \<Longrightarrow> wp m (\<lambda>r s'. P r s' \<and> Q r s') s"
  by (auto simp: wp_def)

lemma wp_return [wp_simps]: "wp (return x) Q s = Q (Inr x) s"
  by (simp add: wp_def return_def)

lemma wp_raise [wp_simps]: "wp (raise e) Q s = Q (Inl e) s"
  by (simp add: wp_def raise_def)

lemma wp_bind [wp_simps]:
  "wp (bind m f) Q s = wp m (\<lambda>r s'. case r of Inl e \<Rightarrow> Q (Inl e) s' | Inr x \<Rightarrow> wp (f x) Q s') s"
  by (simp add: wp_def bind_def split: prod.split sum.split)

lemma wp_attempt [wp_simps]: "wp (attempt m) Q s = wp m (\<lambda>r s'. Q (Inr r) s') s"
  by (simp add: wp_def attempt_def split: prod.split)

lemma wp_finalize [wp_simps]:
  "wp (finalize m f) Q s =
     wp m (\<lambda>r s'. wp f (\<lambda>rf s''. case rf of Inl e \<Rightarrow> Q (Inl e) s'' | Inr _ \<Rightarrow> Q r s'') s') s"
  by (simp add: wp_def finalize_def split: prod.split sum.split)

lemma wp_bind_attempt: "wp m (\<lambda>r s'. wp (g r) Q s') s \<Longrightarrow> wp (bind (attempt m) g) Q s"
  by (simp add: wp_bind wp_attempt)

lemma wp_bind_of_sum: "wp (bind (of_sum (Inr x)) g) Q s = wp (g x) Q s"
  by (simp add: wp_def bind_def of_sum_def)

lemma wp_modify [wp_simps]: "wp (modify f) Q s = Q (Inr ()) (f s)"
  by (simp add: wp_def modify_def)

lemma wp_of_sum [wp_simps]: "wp (of_sum r) Q s = Q r s"
  by (simp add: wp_def of_sum_def)

lemma wp_sleep [wp_simps]: "wp (sleep d) Q s = Q (Inr ()) (s\<lparr>slept := slept s @ [d]\<rparr>)"
  by (simp add: sleep_def wp_modify)

lemma wp_ask: "(\<And>x w. Q (Inr x) (s\<lparr>world := w\<rparr>)) \<Longrightarrow> wp (ask f) Q s"
  by (simp add: wp_def ask_def split: prod.split)

lemma wp_ask_io: "(\<And>r w. Q r (s\<lparr>world := w\<rparr>)) \<Longrightarrow> wp (ask_io f) Q s"
  by (simp add: wp_def ask_io_def split: prod.split)

lemma wp_if [wp_simps]: "wp (if b then m else m') Q s = (if b then wp m Q s else wp m' Q s)"
  by simp

lemma same_books_simps [simp]:
  "same_books s (t\<lparr>world := w\<rparr>) = same_books s t"
  "same_books s (t\<lparr>wire := l\<rparr>) = same_books s t"
  "same_books s (t\<lparr>slept := ds\<rparr>) = same_books s t"
  "same_books s (t\<lparr>sqs_errors_total := c\<rparr>) = same_books s t"
  by (simp_all add: same_books_def)

text \<open>
  The contract of an operation that only talks to AWS: it extends the wire by a trace that \<open>K\<close>
  relates to its outcome, and leaves the books alone.
\<close>

definition talks :: "(event list \<Rightarrow> exn + 'a \<Rightarrow> bool) \<Rightarrow> ('w, 'a) prog \<Rightarrow> bool" where
  "talks K m \<longleftrightarrow>
     (\<forall>s. wp m (\<lambda>r s'. (\<exists>tr. wire s' = wire s @ tr \<and> K tr r) \<and> same_books s s') s)"

lemma talksI:
  "(\<And>s. wp m (\<lambda>r s'. (\<exists>tr. wire s' = wire s @ tr \<and> K tr r) \<and> same_books s s') s) \<Longrightarrow> talks K m"
  by (simp add: talks_def)

lemma talksD:
  assumes "talks K m" "m s = (r, s')"
  shows "\<exists>tr. wire s' = wire s @ tr \<and> K tr r" "same_books s s'"
  using wpD [OF assms(1) [unfolded talks_def, rule_format] assms(2)] by simp_all

lemma wp_talks:
  assumes "talks K m"
    and "\<And>r s' tr. wire s' = wire s @ tr \<Longrightarrow> K tr r \<Longrightarrow> same_books s s' \<Longrightarrow> Q r s'"
  shows "wp m Q s"
  using assms(1) [unfolded talks_def, rule_format, of s] by (rule wp_mono) (use assms(2) in blast)

lemma talks_mono: "talks K m \<Longrightarrow> (\<And>tr r. K tr r \<Longrightarrow> K' tr r) \<Longrightarrow> talks K' m"
  unfolding talks_def by (blast intro: wp_mono)

section \<open>Composing contracts\<close>

text \<open>The trace of \<open>bind m f\<close>: that of \<open>m\<close>, then, unless \<open>m\<close> raised, that of \<open>f\<close> on its value.\<close>

definition seq_trace ::
  "(event list \<Rightarrow> exn + 'a \<Rightarrow> bool) \<Rightarrow> ('a \<Rightarrow> event list \<Rightarrow> exn + 'b \<Rightarrow> bool) \<Rightarrow> event list \<Rightarrow> exn + 'b \<Rightarrow> bool" where
  "seq_trace K1 K2 tr r \<longleftrightarrow>
     (\<exists>t1 r1 t2. tr = t1 @ t2 \<and> K1 t1 r1 \<and> (case r1 of Inl e \<Rightarrow> t2 = [] \<and> r = Inl e | Inr x \<Rightarrow> K2 x t2 r))"

definition silent :: "(exn + 'a \<Rightarrow> bool) \<Rightarrow> event list \<Rightarrow> exn + 'a \<Rightarrow> bool" where
  "silent P tr r \<longleftrightarrow> tr = [] \<and> P r"

lemma seq_trace_InlI: "K1 tr (Inl e) \<Longrightarrow> seq_trace K1 K2 tr (Inl e)"
  unfolding seq_trace_def by (intro exI [of _ tr] exI [of _ "Inl e"] exI [of _ "[]"]) simp

lemma seq_trace_InrI: "K1 t1 (Inr x) \<Longrightarrow> K2 x t2 r \<Longrightarrow> seq_trace K1 K2 (t1 @ t2) r"
  unfolding seq_trace_def by (intro exI [of _ t1] exI [of _ "Inr x"] exI [of _ t2]) simp

lemma seq_traceE:
  assumes "seq_trace K1 K2 tr r"
  obtains (left) e where "K1 tr (Inl e)" "r = Inl e"
    | (right) t1 x t2 where "tr = t1 @ t2" "K1 t1 (Inr x)" "K2 x t2 r"
proof -
  obtain t1 r1 t2 where t: "tr = t1 @ t2" "K1 t1 r1" "case r1 of Inl e \<Rightarrow> t2 = [] \<and> r = Inl e | Inr x \<Rightarrow> K2 x t2 r"
    using assms unfolding seq_trace_def by blast
  show thesis
    by (cases r1) (use t left right in auto)
qed

lemma attempt_seqE:
  assumes "seq_trace (\<lambda>tr r. \<exists>r'. r = Inr r' \<and> K tr r') K2 tr r"
  obtains t1 t2 r1 where "tr = t1 @ t2" "K t1 r1" "K2 r1 t2 r"
  using assms by (rule seq_traceE) auto

lemma talks_bind:
  fixes m :: "('w, 'a) prog" and f :: "'a \<Rightarrow> ('w, 'b) prog"
  assumes "talks K1 m" "\<And>x. talks (K2 x) (f x)"
  shows "talks (seq_trace K1 K2) (bind m f)"
proof (rule talksI, unfold wp_bind, rule wp_talks [OF assms(1)])
  fix s s1 :: "'w st" and t1 r1
  assume w: "wire s1 = wire s @ t1" and K1: "K1 t1 r1" and b: "same_books s s1"
  let ?Q = "\<lambda>r s'. (\<exists>tr. wire s' = wire s @ tr \<and> seq_trace K1 K2 tr r) \<and> same_books s s'"
  show "case r1 of Inl e \<Rightarrow> ?Q (Inl e) s1 | Inr x \<Rightarrow> wp (f x) ?Q s1"
  proof (cases r1)
    case (Inl e)
    with w b K1 show ?thesis by (auto intro: seq_trace_InlI)
  next
    case (Inr x)
    have "wp (f x) ?Q s1"
    proof (rule wp_talks [OF assms(2)])
      fix r s' t2
      assume "wire s' = wire s1 @ t2" "K2 x t2 r" "same_books s1 s'"
      with w b K1 Inr show "?Q r s'"
        by (auto intro: seq_trace_InrI same_books_trans)
    qed
    with Inr show ?thesis by simp
  qed
qed

lemma talks_return: "talks (silent (\<lambda>r. r = Inr x)) (return x)"
  by (rule talksI) (simp add: wp_return silent_def)

lemma talks_raise: "talks (silent (\<lambda>r. r = Inl e)) (raise e)"
  by (rule talksI) (simp add: wp_raise silent_def)

lemma talks_of_sum: "talks (silent (\<lambda>r. x = r)) (of_sum x)"
  by (rule talksI) (simp add: wp_of_sum silent_def)

lemma talks_ask: "talks (silent (\<lambda>r. \<exists>x. r = Inr x)) (ask f)"
  by (rule talksI) (auto simp: silent_def same_books_def intro!: wp_ask)

lemma talks_ask_io: "talks (silent (\<lambda>r. True)) (ask_io f)"
  by (rule talksI) (auto simp: silent_def same_books_def intro!: wp_ask_io)

lemma talks_attempt: "talks K m \<Longrightarrow> talks (\<lambda>tr r. \<exists>r'. r = Inr r' \<and> K tr r') (attempt m)"
  by (rule talksI) (auto simp: wp_attempt elim!: wp_talks)

lemma seq_silent: "seq_trace (silent P) K2 tr r \<longleftrightarrow>
    (\<exists>e. P (Inl e) \<and> tr = [] \<and> r = Inl e) \<or> (\<exists>x. P (Inr x) \<and> K2 x tr r)"
proof
  assume "seq_trace (silent P) K2 tr r"
  then show "(\<exists>e. P (Inl e) \<and> tr = [] \<and> r = Inl e) \<or> (\<exists>x. P (Inr x) \<and> K2 x tr r)"
    by (rule seq_traceE) (auto simp: silent_def)
next
  assume "(\<exists>e. P (Inl e) \<and> tr = [] \<and> r = Inl e) \<or> (\<exists>x. P (Inr x) \<and> K2 x tr r)"
  then show "seq_trace (silent P) K2 tr r"
    using seq_trace_InrI [of "silent P" "[]" _ K2 tr r] seq_trace_InlI [of "silent P" tr _ K2]
    by (auto simp: silent_def)
qed

text \<open>An event that is not in a prefix of the log has the whole prefix before it.\<close>

lemma after_prefix: "xs @ ys = a @ ev # b \<Longrightarrow> ev \<notin> set xs \<Longrightarrow> \<exists>a'. a = xs @ a' \<and> ys = a' @ ev # b"
  by (auto simp: append_eq_append_conv2 append_eq_Cons_conv Cons_eq_append_conv)

section \<open>Contracts on the log alone\<close>

text \<open>\<open>logs K m\<close>: like \<open>talks\<close>, for a program that may also write its own books.\<close>

definition logs :: "(event list \<Rightarrow> exn + 'a \<Rightarrow> bool) \<Rightarrow> ('w, 'a) prog \<Rightarrow> bool" where
  "logs K m \<longleftrightarrow> (\<forall>s. wp m (\<lambda>r s'. \<exists>tr. wire s' = wire s @ tr \<and> K tr r) s)"

lemma talks_logs: "talks K m \<Longrightarrow> logs K m"
  unfolding talks_def logs_def by (blast intro: wp_mono)

lemma logs_mono: "logs K m \<Longrightarrow> (\<And>tr r. K tr r \<Longrightarrow> K' tr r) \<Longrightarrow> logs K' m"
  unfolding logs_def by (blast intro: wp_mono)

lemma logsD:
  assumes "logs K m" "m s = (r, s')"
  shows "\<exists>tr. wire s' = wire s @ tr \<and> K tr r"
  using wpD [OF assms(1) [unfolded logs_def, rule_format] assms(2)] .

lemma wp_logs:
  assumes "logs K m" and "\<And>r s' tr. wire s' = wire s @ tr \<Longrightarrow> K tr r \<Longrightarrow> Q r s'"
  shows "wp m Q s"
  using assms(1) [unfolded logs_def, rule_format, of s] by (rule wp_mono) (use assms(2) in blast)

lemma logs_bind:
  fixes m :: "('w, 'a) prog" and f :: "'a \<Rightarrow> ('w, 'b) prog"
  assumes "logs K1 m" "\<And>x. logs (K2 x) (f x)"
  shows "logs (seq_trace K1 K2) (bind m f)"
  unfolding logs_def wp_bind
proof (intro allI, rule wp_logs [OF assms(1)])
  fix s s1 :: "'w st" and t1 r1
  assume w: "wire s1 = wire s @ t1" and K1: "K1 t1 r1"
  let ?Q = "\<lambda>r s'. \<exists>tr. wire s' = wire s @ tr \<and> seq_trace K1 K2 tr r"
  show "case r1 of Inl e \<Rightarrow> ?Q (Inl e) s1 | Inr x \<Rightarrow> wp (f x) ?Q s1"
  proof (cases r1)
    case (Inl e)
    with w K1 show ?thesis by (auto intro: seq_trace_InlI)
  next
    case (Inr x)
    have "wp (f x) ?Q s1"
      by (rule wp_logs [OF assms(2)]) (use w K1 Inr in \<open>auto intro: seq_trace_InrI\<close>)
    with Inr show ?thesis by simp
  qed
qed

lemma logs_return: "logs (silent (\<lambda>r. r = Inr x)) (return x)"
  by (rule talks_logs [OF talks_return])

lemma logs_raise: "logs (silent (\<lambda>r. r = Inl e)) (raise e)"
  by (rule talks_logs [OF talks_raise])

lemma logs_of_sum: "logs (silent (\<lambda>r. x = r)) (of_sum x)"
  by (rule talks_logs [OF talks_of_sum])

lemma logs_ask: "logs (silent (\<lambda>r. \<exists>x. r = Inr x)) (ask f)"
  by (rule talks_logs [OF talks_ask])

lemma logs_ask_io: "logs (silent (\<lambda>r. True)) (ask_io f)"
  by (rule talks_logs [OF talks_ask_io])

lemma logs_modify: "(\<And>s. wire (f s) = wire s) \<Longrightarrow> logs (silent (\<lambda>r. r = Inr ())) (modify f)"
  by (simp add: logs_def wp_modify silent_def)

lemma logs_attempt: "logs K m \<Longrightarrow> logs (\<lambda>tr r. \<exists>r'. r = Inr r' \<and> K tr r') (attempt m)"
  unfolding logs_def by (auto simp: wp_attempt elim!: wp_mono)

lemma logs_finalize:
  fixes m :: "('w, 'a) prog"
  assumes "logs K m" "logs (silent (\<lambda>r. r = Inr ())) f"
  shows "logs K (finalize m f)"
  unfolding logs_def wp_finalize
proof (intro allI, rule wp_logs [OF assms(1)])
  fix s s1 :: "'w st" and tr r
  assume "wire s1 = wire s @ tr" "K tr r"
  then show "wp f (\<lambda>rf s''. case rf of Inl e \<Rightarrow> \<exists>tr. wire s'' = wire s @ tr \<and> K tr (Inl e)
      | Inr _ \<Rightarrow> \<exists>tr. wire s'' = wire s @ tr \<and> K tr r) s1"
    by (intro wp_logs [OF assms(2)]) (auto simp: silent_def)
qed

lemma logs_conj: "logs K m \<Longrightarrow> logs K' m \<Longrightarrow> logs (\<lambda>tr r. K tr r \<and> K' tr r) m"
  unfolding logs_def wp_def by (fastforce split: prod.splits)

text \<open>A property of logs that holds of the empty log and composes can be followed through a program.\<close>

definition steady :: "(event list \<Rightarrow> bool) \<Rightarrow> bool" where
  "steady K \<longleftrightarrow> K [] \<and> (\<forall>a b. K a \<longrightarrow> K b \<longrightarrow> K (a @ b))"

abbreviation holds_of :: "(event list \<Rightarrow> bool) \<Rightarrow> event list \<Rightarrow> exn + 'a \<Rightarrow> bool" where
  "holds_of K \<equiv> \<lambda>tr r. K tr"

lemma steady_bind:
  "steady K \<Longrightarrow> logs (holds_of K) m \<Longrightarrow> (\<And>x. logs (holds_of K) (f x)) \<Longrightarrow> logs (holds_of K) (bind m f)"
  by (rule logs_mono [OF logs_bind [of "holds_of K" m "\<lambda>_. holds_of K"]]) (auto simp: steady_def elim: seq_traceE)

lemma steady_attempt: "logs (holds_of K) m \<Longrightarrow> logs (holds_of K) (attempt m)"
  by (rule logs_mono [OF logs_attempt]) auto

lemma steady_finalize:
  "logs (holds_of K) m \<Longrightarrow> logs (silent (\<lambda>r. r = Inr ())) f \<Longrightarrow> logs (holds_of K) (finalize m f)"
  by (rule logs_finalize)

lemma steady_silent: "steady K \<Longrightarrow> logs (silent P) m \<Longrightarrow> logs (holds_of K) m"
  by (erule logs_mono) (auto simp: steady_def silent_def)

lemma steady_basic:
  "steady K \<Longrightarrow> logs (holds_of K) (return x)" "steady K \<Longrightarrow> logs (holds_of K) (raise e)"
  "steady K \<Longrightarrow> logs (holds_of K) (ask g)" "steady K \<Longrightarrow> logs (holds_of K) (ask_io h)"
  by (erule steady_silent, rule logs_return logs_raise logs_ask logs_ask_io)+

text \<open>\<open>only P\<close>: every request on the wire satisfies \<open>P\<close>.\<close>

definition reqs :: "(request \<Rightarrow> bool) \<Rightarrow> event list \<Rightarrow> bool" where
  "reqs P tr \<longleftrightarrow> (\<forall>ev \<in> set tr. P (fst ev))"

definition only :: "(request \<Rightarrow> bool) \<Rightarrow> event list \<Rightarrow> exn + 'a \<Rightarrow> bool" where
  "only P tr r \<longleftrightarrow> reqs P tr"

lemma reqs_simps [simp]: "reqs P []" "reqs P (t1 @ t2) \<longleftrightarrow> reqs P t1 \<and> reqs P t2" "reqs P (ev # tr) \<longleftrightarrow> P (fst ev) \<and> reqs P tr"
  by (auto simp: reqs_def)

lemma reqs_mono: "reqs P tr \<Longrightarrow> (\<And>q. P q \<Longrightarrow> P' q) \<Longrightarrow> reqs P' tr"
  by (auto simp: reqs_def)

lemma reqsD: "reqs P tr \<Longrightarrow> ev \<in> set tr \<Longrightarrow> P (fst ev)"
  by (simp add: reqs_def)

lemma only_silent: "silent P tr r \<Longrightarrow> only Q tr r'"
  by (simp add: silent_def only_def)

lemma only_bind: "logs (only P) m \<Longrightarrow> (\<And>x. logs (only P) (f x)) \<Longrightarrow> logs (only P) (bind m f)"
  by (rule logs_mono [OF logs_bind [where ?K1.0 = "only P" and ?K2.0 = "\<lambda>_. only P"]], assumption, assumption)
    (auto simp: only_def elim!: seq_traceE)

lemma only_basic:
  "logs (only P) (return x)" "logs (only P) (raise e)" "logs (only P) (of_sum r)"
  "logs (only P) (ask f)" "logs (only P) (ask_io g)" "(\<And>s. wire (h s) = wire s) \<Longrightarrow> logs (only P) (modify h)"
  by (rule logs_mono [OF logs_return] logs_mono [OF logs_raise] logs_mono [OF logs_of_sum]
      logs_mono [OF logs_ask] logs_mono [OF logs_ask_io] logs_mono [OF logs_modify]; auto elim: only_silent)+

lemma only_attempt: "logs (only P) m \<Longrightarrow> logs (only P) (attempt m)"
  by (erule logs_mono [OF logs_attempt]) (auto simp: only_def)

lemma only_finalize: "logs (only P) m \<Longrightarrow> logs (silent (\<lambda>r. r = Inr ())) f \<Longrightarrow> logs (only P) (finalize m f)"
  by (rule logs_finalize)

lemma only_mono: "logs (only P) m \<Longrightarrow> (\<And>q. P q \<Longrightarrow> P' q) \<Longrightarrow> logs (only P') m"
  by (erule logs_mono) (auto simp: only_def intro: reqs_mono)

lemmas only_intros = only_bind only_basic only_attempt only_finalize

text \<open>\<open>guarded Q P tr\<close>: no request that satisfies \<open>Q\<close> is attempted in \<open>tr\<close> until an event satisfies \<open>P\<close>.\<close>

fun guarded :: "(request \<Rightarrow> bool) \<Rightarrow> (event \<Rightarrow> bool) \<Rightarrow> event list \<Rightarrow> bool" where
  "guarded Q P [] \<longleftrightarrow> True"
| "guarded Q P (ev # tr) \<longleftrightarrow> \<not> Q (fst ev) \<and> (P ev \<or> guarded Q P tr)"

lemma guarded_append: "guarded Q P (t1 @ t2) \<longleftrightarrow> guarded Q P t1 \<and> ((\<exists>ev \<in> set t1. P ev) \<or> guarded Q P t2)"
  by (induction t1) auto

lemma guarded_reqs: "reqs (\<lambda>q. \<not> Q q) tr \<Longrightarrow> guarded Q P tr"
  by (induction tr) auto

lemma guarded_split:
  "guarded Q P tr \<Longrightarrow> tr = a @ ev # b \<Longrightarrow> Q (fst ev) \<Longrightarrow> \<exists>ev' \<in> set a. P ev'"
  by (induction tr arbitrary: a) (auto simp: Cons_eq_append_conv)

lemma guardedI:
  "(\<And>a ev b. tr = a @ ev # b \<Longrightarrow> Q (fst ev) \<Longrightarrow> \<exists>ev' \<in> set a. P ev') \<Longrightarrow> guarded Q P tr"
proof (induction tr)
  case Nil
  show ?case by simp
next
  case (Cons x tr)
  have "\<not> Q (fst x)" using Cons.prems [of "[]" x tr] by auto
  moreover have "guarded Q P tr" if "\<not> P x"
  proof (rule Cons.IH)
    fix a ev b
    assume "tr = a @ ev # b" "Q (fst ev)"
    with Cons.prems [of "x # a" ev b] that show "\<exists>ev' \<in> set a. P ev'" by simp
  qed
  ultimately show ?case by auto
qed

text \<open>A cleanup that says nothing and cannot raise.\<close>

lemma quiet_bind:
  "logs (silent (\<lambda>r. \<exists>x. r = Inr x)) m \<Longrightarrow> (\<And>x. logs (silent (\<lambda>r. r = Inr ())) (f x)) \<Longrightarrow>
   logs (silent (\<lambda>r. r = Inr ())) (bind m f)"
  by (rule logs_mono [OF logs_bind [where ?K1.0 = "silent (\<lambda>r. \<exists>x. r = Inr x)" and ?K2.0 = "\<lambda>_. silent (\<lambda>r. r = Inr ())"]], assumption, assumption)
    (auto simp: silent_def elim!: seq_traceE)

section \<open>Contracts on the books\<close>

text \<open>
  \<open>tallies f B m\<close>: the view \<open>f\<close> of the books before and after \<open>m\<close> is related by \<open>B\<close>, given the outcome.
\<close>

definition tallies :: "('w st \<Rightarrow> 'b) \<Rightarrow> (exn + 'a \<Rightarrow> 'b \<Rightarrow> 'b \<Rightarrow> bool) \<Rightarrow> ('w, 'a) prog \<Rightarrow> bool" where
  "tallies f B m \<longleftrightarrow> (\<forall>s. wp m (\<lambda>r s'. B r (f s) (f s')) s)"

abbreviation keeps :: "('w st \<Rightarrow> 'b) \<Rightarrow> ('w, 'a) prog \<Rightarrow> bool" where
  "keeps f m \<equiv> tallies f (\<lambda>r a b. b = a) m"

lemma tallies_iff: "tallies f B m \<longleftrightarrow> (\<forall>s r s'. m s = (r, s') \<longrightarrow> B r (f s) (f s'))"
  by (simp add: tallies_def wp_def split: prod.split)

lemma talliesD: "tallies f B m \<Longrightarrow> m s = (r, s') \<Longrightarrow> B r (f s) (f s')"
  unfolding tallies_def by (blast dest: wpD)

lemma wp_tallies:
  assumes "tallies f B m" and "\<And>r s'. B r (f s) (f s') \<Longrightarrow> Q r s'"
  shows "wp m Q s"
  using assms(1) [unfolded tallies_def, rule_format, of s] by (rule wp_mono) (use assms(2) in blast)

lemma tallies_mono: "tallies f B m \<Longrightarrow> (\<And>r a b. B r a b \<Longrightarrow> B' r a b) \<Longrightarrow> tallies f B' m"
  unfolding tallies_def by (blast intro: wp_mono)

text \<open>What a view of the books must not look at for the AWS wrappers to keep it.\<close>

definition book_view :: "('w st \<Rightarrow> 'b) \<Rightarrow> bool" where
  "book_view f \<longleftrightarrow> (\<forall>s s'. same_books s s' \<longrightarrow> f s' = f s)"

lemma keeps_talks: "book_view f \<Longrightarrow> talks K m \<Longrightarrow> keeps f m"
  unfolding tallies_iff book_view_def by (blast dest: talksD(2))

lemma book_view_simps:
  assumes "book_view f"
  shows "f (s\<lparr>world := w\<rparr>) = f s" "f (s\<lparr>slept := d\<rparr>) = f s"
proof -
  have eq: "same_books s s' \<Longrightarrow> f s' = f s" for s s'
    using assms by (simp only: book_view_def)
  show "f (s\<lparr>world := w\<rparr>) = f s" "f (s\<lparr>slept := d\<rparr>) = f s"
    by (rule eq, simp add: same_books_def)+
qed

lemma tallies_bind:
  assumes m: "tallies f B1 m" and g: "\<And>x. tallies f (B2 x) (g x)"
    and l: "\<And>e a b. B1 (Inl e) a b \<Longrightarrow> B (Inl e) a b"
    and r: "\<And>x r a b c. B1 (Inr x) a b \<Longrightarrow> B2 x r b c \<Longrightarrow> B r a c"
  shows "tallies f B (bind m g)"
  unfolding tallies_iff
proof (intro allI impI)
  fix s r' s'
  assume b: "bind m g s = (r', s')"
  obtain r1 s1 where m1: "m s = (r1, s1)" by (cases "m s")
  with m have B1: "B1 r1 (f s) (f s1)" by (simp add: tallies_iff)
  show "B r' (f s) (f s')"
  proof (cases r1)
    case (Inl e)
    with b m1 B1 l show ?thesis by (auto simp: bind_def)
  next
    case (Inr x)
    with b m1 have "g x s1 = (r', s')" by (simp add: bind_def)
    with g have "B2 x r' (f s1) (f s')" by (simp add: tallies_iff)
    with B1 Inr r show ?thesis by blast
  qed
qed

lemma tallies_return: "(\<And>a. B (Inr x) a a) \<Longrightarrow> tallies f B (return x)"
  by (simp add: tallies_def wp_return)

lemma tallies_raise: "(\<And>a. B (Inl e) a a) \<Longrightarrow> tallies f B (raise e)"
  by (simp add: tallies_def wp_raise)

lemma keeps_bind: "keeps f m \<Longrightarrow> (\<And>x. keeps f (g x)) \<Longrightarrow> keeps f (bind m g)"
  by (erule tallies_bind) auto

lemma tallies_after:
  "keeps f m \<Longrightarrow> (\<And>x. tallies f B (g x)) \<Longrightarrow> (\<And>e a. B (Inl e) a a) \<Longrightarrow> tallies f B (bind m g)"
  by (erule tallies_bind) auto

lemma keeps_attempt: "keeps f m \<Longrightarrow> keeps f (attempt m)"
  by (simp add: tallies_def wp_attempt)

lemma tallies_after_attempt:
  "keeps f m \<Longrightarrow> (\<And>x. tallies f B (g x)) \<Longrightarrow> tallies f B (bind (attempt m) g)"
  unfolding tallies_iff bind_def attempt_def by (auto split: prod.splits) metis

lemma keeps_finalize: "keeps f m \<Longrightarrow> keeps f g \<Longrightarrow> keeps f (finalize m g)"
  unfolding tallies_iff finalize_def by (auto split: prod.splits sum.splits)

lemma keeps_basic:
  "keeps f (return x)" "keeps f (raise e)" "keeps f (of_sum r)"
  by (simp_all add: tallies_def wp_simps)

lemma keeps_ask: "book_view f \<Longrightarrow> keeps f (ask g)"
  unfolding tallies_def by (auto simp: book_view_simps intro!: wp_ask)

lemma tallies_ask: "book_view f \<Longrightarrow> tallies f (\<lambda>r a b. (\<exists>x. r = Inr x) \<and> b = a) (ask g)"
  unfolding tallies_def by (auto simp: book_view_simps intro!: wp_ask)

lemma keeps_ask_io: "book_view f \<Longrightarrow> keeps f (ask_io g)"
  unfolding tallies_def by (auto simp: book_view_simps intro!: wp_ask_io)

lemma keeps_modify: "(\<And>s. f (h s) = f s) \<Longrightarrow> keeps f (modify h)"
  by (simp add: tallies_def wp_modify)

lemma keeps_if: "(b \<Longrightarrow> keeps f m) \<Longrightarrow> (\<not> b \<Longrightarrow> keeps f m') \<Longrightarrow> keeps f (if b then m else m')"
  by simp

lemmas keeps_intros = keeps_bind keeps_attempt keeps_finalize keeps_basic keeps_ask keeps_ask_io keeps_modify keeps_if

end
