(* ===== verification/Retry.thy ===== *)
theory Retry
  imports Effects
begin

text \<open>
  \<open>shared/retry.py\<close>: which errors are worth a second try, the backoff ladder, and the loop
  \<open>call_with_retry\<close> every AWS call goes through. Delays are exact rationals: the source's floats
  are a base times a power of two, which is exact in binary too. \<open>random.uniform(0, b)\<close> is
  \<open>b * random()\<close>.
\<close>

definition TRANSIENT_ERROR_CODES :: "string list" where
  "TRANSIENT_ERROR_CODES =
    [''InternalError'', ''InternalFailure'', ''InternalServerError'',
     ''ProvisionedThroughputExceededException'', ''RequestLimitExceeded'', ''RequestThrottled'',
     ''RequestThrottledException'', ''RequestTimeout'', ''RequestTimeoutException'',
     ''ServiceUnavailable'', ''SlowDown'', ''ThrottledException'', ''Throttling'',
     ''ThrottlingException'', ''TooManyRequestsException'', ''TransactionInProgressException'',
     ''503'', ''500'']"

definition TRANSIENT_BOTOCORE_ERRORS :: "string list" where
  "TRANSIENT_BOTOCORE_ERRORS =
    [''ConnectionClosedError'', ''ConnectTimeoutError'', ''EndpointConnectionError'',
     ''IncompleteReadError'', ''ReadTimeoutError'', ''ResponseStreamingError'']"

record retry_policy =
  attempts :: int
  base_delay :: rat
  max_delay :: rat

definition DEFAULT_POLICY :: retry_policy where
  "DEFAULT_POLICY = \<lparr>attempts = 4, base_delay = 1/5, max_delay = 5\<rparr>"

definition STARTUP_POLICY :: retry_policy where
  "STARTUP_POLICY = \<lparr>attempts = 8, base_delay = 1/2, max_delay = 15\<rparr>"

definition exponential :: "retry_policy \<Rightarrow> int \<Rightarrow> rat" where
  "exponential p k = min (max_delay p) (base_delay p * 2 ^ nat (k - 1))"

definition delay_for :: "'w env \<Rightarrow> retry_policy \<Rightarrow> int \<Rightarrow> ('w, rat) prog" where
  "delay_for env p k = bind (ask (random01 env)) (\<lambda>u. return (exponential p k * u))"

fun is_transient :: "exn \<Rightarrow> bool" where
  "is_transient (ClientError code status) =
     (opt_get [] code \<in> set TRANSIENT_ERROR_CODES \<or> 500 \<le> opt_get 0 status \<or> opt_get 0 status = 429)"
| "is_transient (BotoCoreError cls) = (cls \<in> set TRANSIENT_BOTOCORE_ERRORS)"
| "is_transient _ = False"

text \<open>A \<open>ClientError\<close> whose code the caller asked to treat as success.\<close>

fun swallowed :: "string list \<Rightarrow> exn \<Rightarrow> bool" where
  "swallowed codes (ClientError code status) = (opt_get [] code \<in> set codes)"
| "swallowed codes _ = False"

definition exhausted :: "'w env \<Rightarrow> string \<Rightarrow> retry_policy \<Rightarrow> exn option \<Rightarrow> exn" where
  "exhausted env operation p last_exc =
     TransientDependencyError
       (operation @ '' failed after '' @ show_int (attempts p) @ '' attempts: '' @
        (case last_exc of None \<Rightarrow> ''None'' | Some e \<Rightarrow> exn_str (lib_str env) e))
       (Some operation)"

text \<open>
  The loop, from attempt \<open>k\<close> on. An error that is neither a \<open>ClientError\<close> nor a \<open>BotoCoreError\<close> is
  not caught, which is the \<open>\<not> is_transient\<close> case too. The result is \<open>None\<close> for a swallowed code.
\<close>

function retry_from ::
  "'w env \<Rightarrow> ('w, 'a) prog \<Rightarrow> string \<Rightarrow> retry_policy \<Rightarrow> string list \<Rightarrow> int \<Rightarrow> exn option \<Rightarrow> ('w, 'a option) prog" where
  "retry_from env func operation p codes k last_exc =
     (if attempts p < k then raise (exhausted env operation p last_exc)
      else bind (attempt func) (\<lambda>r. case r of
          Inr x \<Rightarrow> return (Some x)
        | Inl e \<Rightarrow>
            if swallowed codes e then return None
            else if \<not> is_transient e then raise e
            else if k < attempts p
            then bind (delay_for env p k) (\<lambda>delay. bind (sleep delay) (\<lambda>_.
                   retry_from env func operation p codes (k + 1) (Some e)))
            else retry_from env func operation p codes (k + 1) (Some e)))"
  by pat_completeness auto
termination
  by (relation "measure (\<lambda>(env, func, operation, p, codes, k, last_exc). nat (attempts p + 1 - k))") auto

declare retry_from.simps [simp del]

definition call_with_retry ::
  "'w env \<Rightarrow> ('w, 'a) prog \<Rightarrow> string \<Rightarrow> retry_policy \<Rightarrow> string list \<Rightarrow> ('w, 'a option) prog" where
  "call_with_retry env func operation p codes = retry_from env func operation p codes 1 None"

section \<open>The ladder as a reading of the outcomes\<close>

text \<open>
  What the loop promises, said about the outcomes on the wire alone: with \<open>n\<close> attempts left, the
  log of one request \<open>q\<close> is a run of transient failures that ends in the first decisive outcome
  (a return, a swallowed code, an error not worth a retry), or uses all \<open>n\<close> up and ends in
  \<open>TransientDependencyError\<close>.
\<close>

fun ladder :: "request \<Rightarrow> ('a \<Rightarrow> pyval) \<Rightarrow> string list \<Rightarrow> string \<Rightarrow> nat \<Rightarrow> event list \<Rightarrow> exn + 'a option \<Rightarrow> bool" where
  "ladder q sh codes operation 0 tr r \<longleftrightarrow>
     tr = [] \<and> (\<exists>m. r = Inl (TransientDependencyError m (Some operation)))"
| "ladder q sh codes operation (Suc n) tr r \<longleftrightarrow>
     (case tr of [] \<Rightarrow> False
      | (q', Returned v) # rest \<Rightarrow> q' = q \<and> rest = [] \<and> (\<exists>x. r = Inr (Some x) \<and> v = sh x)
      | (q', Raised e) # rest \<Rightarrow> q' = q \<and>
          (if swallowed codes e then rest = [] \<and> r = Inr None
           else if \<not> is_transient e then rest = [] \<and> r = Inl e
           else ladder q sh codes operation n rest r))"

lemma wp_on_wire:
  "(\<And>e w. Q (Inl e) (s\<lparr>world := w, wire := wire s @ [(q, Raised e)]\<rparr>)) \<Longrightarrow>
   (\<And>x w. Q (Inr x) (s\<lparr>world := w, wire := wire s @ [(q, Returned (sh x))]\<rparr>)) \<Longrightarrow>
   wp (on_wire q sh f) Q s"
  by (simp add: wp_def on_wire_def split: prod.split sum.split)

lemma wp_delay_sleep:
  "(\<And>w u. Q (Inr ()) (s\<lparr>world := w, slept := slept s @ [exponential p k * u]\<rparr>)) \<Longrightarrow>
   wp (bind (delay_for env p k) sleep) Q s"
  by (auto simp: delay_for_def wp_simps intro!: wp_ask)

lemma ladder_intros:
  "ladder q sh codes operation (Suc n) [(q, Returned (sh x))] (Inr (Some x))"
  "swallowed codes e \<Longrightarrow> ladder q sh codes operation (Suc n) [(q, Raised e)] (Inr None)"
  "\<not> swallowed codes e \<Longrightarrow> \<not> is_transient e \<Longrightarrow> ladder q sh codes operation (Suc n) [(q, Raised e)] (Inl e)"
  "\<not> swallowed codes e \<Longrightarrow> is_transient e \<Longrightarrow> ladder q sh codes operation n tr r \<Longrightarrow>
     ladder q sh codes operation (Suc n) ((q, Raised e) # tr) r"
  by auto

lemma retry_ladder:
  "wp (retry_from env (on_wire q sh f) operation p codes k last_exc)
     (\<lambda>r s'. (\<exists>tr. wire s' = wire s @ tr \<and> ladder q sh codes operation (nat (attempts p + 1 - k)) tr r)
             \<and> same_books s s') s"
proof (induction "nat (attempts p + 1 - k)" arbitrary: k last_exc s)
  case 0
  then have "attempts p < k" by simp
  then show ?case
    by (subst retry_from.simps) (simp add: wp_simps exhausted_def)
next
  case (Suc n)
  then have k: "\<not> attempts p < k" and n: "nat (attempts p + 1 - k) = Suc n" "n = nat (attempts p + 1 - (k + 1))"
    by simp_all
  have again: "wp (retry_from env (on_wire q sh f) operation p codes (k + 1) (Some e))
      (\<lambda>r s'. (\<exists>tr. wire s' = wire s @ tr \<and> ladder q sh codes operation (Suc n) tr r) \<and> same_books s s') s1"
    if e: "\<not> swallowed codes e" "is_transient e"
      and s1: "wire s1 = wire s @ [(q, Raised e)]" "same_books s s1" for e s1
    by (rule wp_mono [OF Suc.hyps(1) [OF n(2)]]) (use e s1 n(2) same_books_trans ladder_intros(4) in fastforce)
  show ?case
    by (subst retry_from.simps, unfold n(1))
      (auto simp: k wp_simps delay_for_def simp del: ladder.simps
        intro!: wp_on_wire wp_ask again ladder_intros(1-3))
qed

section \<open>What callers use of the ladder\<close>

lemma ladder_bounded: "ladder q sh codes operation n tr r \<Longrightarrow> length tr \<le> n"
  by (induction n arbitrary: tr) (fastforce split: list.splits outcome.splits if_splits)+

lemma ladder_request: "ladder q sh codes operation n tr r \<Longrightarrow> ev \<in> set tr \<Longrightarrow> fst ev = q"
  by (induction n arbitrary: tr) (fastforce split: list.splits outcome.splits if_splits)+

lemma ladder_raised: "ladder q sh codes operation n tr (Inl e) \<Longrightarrow> ev \<in> set tr \<Longrightarrow> \<not> ok ev"
  by (induction n arbitrary: tr) (fastforce split: list.splits outcome.splits if_splits)+

lemma ladder_returned:
  "ladder q sh codes operation n tr (Inr (Some x)) \<Longrightarrow>
   \<exists>fails. tr = fails @ [(q, Returned (sh x))] \<and> (\<forall>ev \<in> set fails. \<exists>e. ev = (q, Raised e) \<and> is_transient e)"
proof (induction n arbitrary: tr)
  case 0
  then show ?case by simp
next
  case (Suc n)
  then obtain q' o' rest where tr: "tr = (q', o') # rest" by (cases tr) auto
  show ?case
  proof (cases o')
    case (Returned v)
    with Suc.prems tr show ?thesis by (intro exI [of _ "[]"]) simp
  next
    case (Raised e)
    with Suc.prems tr have e: "q' = q" "is_transient e" "ladder q sh codes operation n rest (Inr (Some x))"
      by (auto split: if_splits)
    from Suc.IH [OF e(3)] obtain fails where "rest = fails @ [(q, Returned (sh x))]"
      "\<forall>ev \<in> set fails. \<exists>e. ev = (q, Raised e) \<and> is_transient e" by blast
    with tr Raised e show ?thesis by (intro exI [of _ "(q, Raised e) # fails"]) simp
  qed
qed

lemma ladder_not_swallowed: "\<not> ladder q sh [] operation n tr (Inr None)"
proof (induction n arbitrary: tr)
  case (Suc n)
  have "\<not> swallowed [] e" for e by (cases e) auto
  with Suc show ?case by (auto split: list.splits outcome.splits)
qed simp

text \<open>What an exception that leaves the loop says: all attempts used on transient errors, or one error not worth a retry.\<close>

lemma ladder_exn:
  "ladder q sh codes operation n tr (Inl e) \<Longrightarrow>
     (\<exists>m. e = TransientDependencyError m (Some operation)) \<and> length tr = n \<and>
       (\<forall>ev \<in> set tr. \<exists>e'. ev = (q, Raised e') \<and> is_transient e')
   \<or> \<not> is_transient e \<and> (\<exists>fails. tr = fails @ [(q, Raised e)])"
proof (induction n arbitrary: tr)
  case 0
  then show ?case by simp
next
  case (Suc n)
  then obtain q' e' rest where tr: "tr = (q', Raised e') # rest" "q' = q"
    by (auto split: list.splits outcome.splits)
  show ?case
  proof (cases "is_transient e' \<and> \<not> swallowed codes e'")
    case True
    with Suc.prems tr have "ladder q sh codes operation n rest (Inl e)" by simp
    from Suc.IH [OF this] tr True show ?thesis by auto
  next
    case False
    with Suc.prems tr show ?thesis by (auto split: if_splits)
  qed
qed

text \<open>The log of one wrapped call, as its caller sees it.\<close>

text \<open>An exception that leaves a call is the loop's own, or one that AWS raised on the way.\<close>

definition blames :: "event list \<Rightarrow> exn \<Rightarrow> bool" where
  "blames tr e \<longleftrightarrow> (\<exists>m op. e = TransientDependencyError m op) \<or> list_ex (\<lambda>ev. snd ev = Raised e) tr"

lemma ladder_blames: "ladder q sh codes operation n tr (Inl e) \<Longrightarrow> blames tr e"
  by (drule ladder_exn) (auto simp: blames_def)

definition call_trace :: "request \<Rightarrow> ('a \<Rightarrow> pyval) \<Rightarrow> event list \<Rightarrow> exn + 'a \<Rightarrow> bool" where
  "call_trace q sh tr r \<longleftrightarrow>
     tr \<noteq> [] \<and> (\<forall>ev \<in> set tr. fst ev = q) \<and>
     (case r of Inl e \<Rightarrow> (\<forall>ev \<in> set tr. \<not> ok ev) \<and> blames tr e
      | Inr x \<Rightarrow> \<exists>fails. tr = fails @ [(q, Returned (sh x))] \<and> (\<forall>ev \<in> set fails. \<not> ok ev))"

lemma ladder_nonempty: "ladder q sh codes operation n tr r \<Longrightarrow> 0 < n \<Longrightarrow> tr \<noteq> []"
  by (cases n) auto

lemma ladder_call_trace_Inl: "ladder q sh codes operation n tr (Inl e) \<Longrightarrow> 0 < n \<Longrightarrow> call_trace q sh' tr (Inl e)"
  by (auto simp: call_trace_def dest: ladder_request ladder_raised ladder_nonempty ladder_blames)

lemma ladder_call_trace_Some: "ladder q sh codes operation n tr (Inr (Some x)) \<Longrightarrow> call_trace q sh tr (Inr x)"
  by (fastforce simp: call_trace_def dest: ladder_returned)

lemma wp_call_with_retry:
  assumes "\<And>s' tr r. wire s' = wire s @ tr \<Longrightarrow> ladder q sh codes operation (nat (attempts p)) tr r \<Longrightarrow>
    same_books s s' \<Longrightarrow> Q r s'"
  shows "wp (call_with_retry env (on_wire q sh f) operation p codes) Q s"
  unfolding call_with_retry_def
  by (rule wp_mono [OF retry_ladder]) (use assms in auto)

lemma call_trace_reqs: "call_trace q sh tr r \<Longrightarrow> P q \<Longrightarrow> reqs P tr"
  by (simp add: call_trace_def reqs_def)

lemma call_trace_ok: "call_trace q sh tr (Inr x) \<Longrightarrow> (q, Returned (sh x)) \<in> set tr"
  by (auto simp: call_trace_def)

lemma call_trace_request: "call_trace q sh tr r \<Longrightarrow> ev \<in> set tr \<Longrightarrow> fst ev = q"
  by (simp add: call_trace_def)

section \<open>How long a ladder sleeps\<close>

text \<open>
  From attempt \<open>k\<close> on, the sleeps appended are at most one per remaining gap, the \<open>i\<close>-th within the
  ladder's \<open>i\<close>-th delay.
\<close>

definition naps :: "retry_policy \<Rightarrow> int \<Rightarrow> rat list \<Rightarrow> rat list \<Rightarrow> bool" where
  "naps p k before after \<longleftrightarrow>
     (\<exists>ds. after = before @ ds \<and> int (length ds) \<le> max 0 (attempts p - k) \<and>
        (\<forall>i < length ds. 0 \<le> ds ! i \<and> ds ! i \<le> exponential p (k + int i)))"

lemma naps_none [simp]: "naps p k ds ds"
  by (simp add: naps_def)

lemma naps_more:
  assumes "naps p (k + 1) (before @ [d]) after" "0 \<le> d" "d \<le> exponential p k" "k < attempts p"
  shows "naps p k before after"
proof -
  obtain ds where ds: "after = before @ d # ds" "int (length ds) \<le> max 0 (attempts p - (k + 1))"
    "\<forall>i < length ds. 0 \<le> ds ! i \<and> ds ! i \<le> exponential p (k + 1 + int i)"
    using assms(1) by (auto simp: naps_def)
  have "0 \<le> (d # ds) ! i \<and> (d # ds) ! i \<le> exponential p (k + int i)" if "i < length (d # ds)" for i
    using that ds(3) assms(2,3) by (cases i) (auto simp: add.commute add.left_commute)
  with ds(1,2) assms(4) show ?thesis
    unfolding naps_def by (intro exI [of _ "d # ds"]) auto
qed

lemma naps_last: "naps p (k + 1) before after \<Longrightarrow> \<not> k < attempts p \<Longrightarrow> naps p k before after"
  by (auto simp: naps_def)

lemma wp_random:
  assumes "\<And>w. 0 \<le> fst (random01 env w) \<and> fst (random01 env w) \<le> 1"
    and "\<And>u w. 0 \<le> u \<Longrightarrow> u \<le> 1 \<Longrightarrow> Q (Inr u) (s\<lparr>world := w\<rparr>)"
  shows "wp (ask (random01 env)) Q s"
  using assms by (auto simp: wp_def ask_def split: prod.split) (metis fst_conv)+

lemma retry_from_naps:
  assumes rnd: "\<And>w. 0 \<le> fst (random01 env w) \<and> fst (random01 env w) \<le> 1"
    and base: "0 \<le> base_delay p" "0 \<le> max_delay p"
  shows "wp (retry_from env (on_wire q sh f) operation p codes k last_exc) (\<lambda>r s'. naps p k (slept s) (slept s')) s"
proof (induction "nat (attempts p + 1 - k)" arbitrary: k last_exc s)
  case 0
  then show ?case
    by (subst retry_from.simps) (simp add: wp_simps)
next
  case (Suc n)
  then have k: "\<not> attempts p < k" and n: "n = nat (attempts p + 1 - (k + 1))" by simp_all
  have expo: "0 \<le> exponential p k" using base by (simp add: exponential_def)
  have slept: "wp (retry_from env (on_wire q sh f) operation p codes (k + 1) (Some e))
      (\<lambda>r s'. naps p k (slept s) (slept s'))
      (s\<lparr>wire := l, world := w, slept := slept s @ [exponential p k * u]\<rparr>)"
    if "k < attempts p" "0 \<le> u" "u \<le> 1" for e l w u
    by (rule wp_mono [OF Suc.hyps(1) [OF n]])
      (use that expo in \<open>auto intro!: naps_more [of p k "slept s" "exponential p k * u"] simp: mult_left_le\<close>)
  have last: "wp (retry_from env (on_wire q sh f) operation p codes (k + 1) (Some e))
      (\<lambda>r s'. naps p k (slept s) (slept s')) s1"
    if "\<not> k < attempts p" "slept s1 = slept s" for e s1
    by (rule wp_mono [OF Suc.hyps(1) [OF n]]) (use that naps_last in auto)
  show ?case
  proof (cases "k < attempts p")
    case True
    then show ?thesis
      by (subst retry_from.simps)
        (auto simp: wp_simps delay_for_def intro!: wp_on_wire wp_random [OF rnd] slept)
  next
    case False
    with k have eq: "k = attempts p" by simp
    show ?thesis
      unfolding eq
      by (subst retry_from.simps) (auto simp: wp_simps intro!: wp_on_wire last [unfolded eq])
  qed
qed

section \<open>Properties\<close>

text \<open>
  C13: The retry loop is the ladder. For every behaviour of AWS, the log of one wrapped call with \<open>n\<close>
  attempts consists of copies of its request: transient failures up to the first decisive outcome,
  which the caller gets (a swallowed code as \<open>None\<close>), or \<open>n\<close> transient failures, after which the
  caller gets \<open>TransientDependencyError\<close> carrying the operation; the loop touches no other state.
\<close>

theorem call_with_retry_is_ladder:
  "wp (call_with_retry env (on_wire q sh f) operation p codes)
     (\<lambda>r s'. \<exists>tr. wire s' = wire s @ tr \<and> ladder q sh codes operation (nat (attempts p)) tr r \<and> same_books s s') s"
  by (rule wp_call_with_retry) blast

text \<open>
  An exception leaves the retry loop for one of two reasons only: all attempts were made and all
  failed transiently, or the last attempt failed with an error that is not transient, and that is the
  exception; in both cases no attempt after it was made, and never more than configured.
\<close>

theorem retry_failure_reason:
  "wp (call_with_retry env (on_wire q sh f) operation p codes)
     (\<lambda>r s'. case r of Inr x \<Rightarrow> True
       | Inl e \<Rightarrow> \<exists>tr. wire s' = wire s @ tr \<and> length tr \<le> nat (attempts p) \<and>
           ((\<exists>m. e = TransientDependencyError m (Some operation)) \<and> length tr = nat (attempts p) \<and>
              list_all (\<lambda>ev. \<exists>e'. ev = (q, Raised e') \<and> is_transient e') tr
            \<or> (\<exists>fails. tr = fails @ [(q, Raised e)] \<and> is_transient e = False))) s"
  by (rule wp_call_with_retry) (auto simp: list_all_iff split: sum.split dest: ladder_bounded ladder_exn)

text \<open>
  C34: The loop sleeps at most once between two attempts, and the \<open>i\<close>-th sleep lies between zero and
  the \<open>i\<close>-th step of the exponential ladder, capped at the policy's maximum, provided the random
  number generator returns numbers between 0 and 1 and the policy's delays are not negative.
\<close>

theorem retry_sleeps_bounded:
  assumes "\<And>w. 0 \<le> fst (random01 env w) \<and> fst (random01 env w) \<le> 1"
    and "0 \<le> base_delay p" "0 \<le> max_delay p"
  shows "wp (call_with_retry env (on_wire q sh f) operation p codes)
     (\<lambda>r s'. \<exists>ds. slept s' = slept s @ ds \<and> int (length ds) \<le> max 0 (attempts p - 1) \<and>
        list_all (\<lambda>i. 0 \<le> ds ! i \<and> ds ! i \<le> min (max_delay p) (base_delay p * 2 ^ i)) [0..<length ds]) s"
  unfolding call_with_retry_def
proof (rule wp_mono [OF retry_from_naps [OF assms]])
  fix r and s' :: "'a st"
  assume "naps p 1 (slept s) (slept s')"
  then obtain ds where ds: "slept s' = slept s @ ds" "int (length ds) \<le> max 0 (attempts p - 1)"
    "\<forall>i < length ds. 0 \<le> ds ! i \<and> ds ! i \<le> exponential p (1 + int i)"
    by (auto simp: naps_def)
  then have "list_all (\<lambda>i. 0 \<le> ds ! i \<and> ds ! i \<le> min (max_delay p) (base_delay p * 2 ^ i)) [0..<length ds]"
    by (auto simp: list_all_iff exponential_def)
  with ds show "\<exists>ds. slept s' = slept s @ ds \<and> int (length ds) \<le> max 0 (attempts p - 1) \<and>
        list_all (\<lambda>i. 0 \<le> ds ! i \<and> ds ! i \<le> min (max_delay p) (base_delay p * 2 ^ i)) [0..<length ds]" by blast
qed

end
