(* ===== verification/Dynamo.thy ===== *)
theory Dynamo
  imports Errors
begin

text \<open>
  Value marshalling of \<open>shared/aws.py\<close>: DynamoDB has no float, so \<open>_to_dynamo\<close> turns floats into
  decimals (through their shortest decimal text, which is how a finite float is modelled; NaN and the infinities are values of their own), drops the
  \<open>None\<close> entries of dictionaries and turns tuples into lists; \<open>_from_dynamo\<close> turns decimals back
  into integers where they are integral, into floats otherwise.
\<close>

fun to_dynamo :: "pyval \<Rightarrow> pyval" where
  "to_dynamo (PFloat q) = PDecimal q"
| "to_dynamo (PNonFinite x) = PDecimalNonFinite x"
| "to_dynamo (PDict d) = PDict (map (\<lambda>(k, v). (k, to_dynamo v)) (filter (\<lambda>(k, v). v \<noteq> PNone) d))"
| "to_dynamo (PList xs) = PList (map to_dynamo xs)"
| "to_dynamo (PTuple xs) = PList (map to_dynamo xs)"
| "to_dynamo v = v"

text \<open>
  No item that is read has a decimal that is not finite: DynamoDB has no such numbers and boto3 refuses to write
  them. \<open>int\<close> would raise on one, a case \<open>from_dynamo\<close> leaves out.
\<close>

definition py_trunc :: "rat \<Rightarrow> int" where
  "py_trunc q = (if 0 \<le> q then \<lfloor>q\<rfloor> else - \<lfloor>- q\<rfloor>)"

fun from_dynamo :: "pyval \<Rightarrow> pyval" where
  "from_dynamo (PDecimal q) =
     (let as_int = py_trunc q in if q = of_int as_int then PInt as_int else PFloat q)"
| "from_dynamo (PDict d) = PDict (map (\<lambda>(k, v). (k, from_dynamo v)) d)"
| "from_dynamo (PList xs) = PList (map from_dynamo xs)"
| "from_dynamo v = v"

definition to_dynamo_dict :: "pyval dict \<Rightarrow> pyval dict" where
  "to_dynamo_dict d = map (\<lambda>(k, v). (k, to_dynamo v)) (filter (\<lambda>(k, v). v \<noteq> PNone) d)"

definition from_dynamo_dict :: "pyval dict \<Rightarrow> pyval dict" where
  "from_dynamo_dict d = map (\<lambda>(k, v). (k, from_dynamo v)) d"

lemma to_dynamo_PDict: "to_dynamo (PDict d) = PDict (to_dynamo_dict d)"
  by (simp add: to_dynamo_dict_def)

lemma from_dynamo_PDict: "from_dynamo (PDict d) = PDict (from_dynamo_dict d)"
  by (simp add: from_dynamo_dict_def)

text \<open>A value with no float anywhere inside, as the DynamoDB serializer requires.\<close>

fun float_free :: "pyval \<Rightarrow> bool" where
  "float_free (PFloat q) = False"
| "float_free (PNonFinite x) = False"
| "float_free (PDict d) = (\<forall>(k, v) \<in> set d. float_free v)"
| "float_free (PList xs) = (\<forall>x \<in> set xs. float_free x)"
| "float_free (PTuple xs) = (\<forall>x \<in> set xs. float_free x)"
| "float_free v = True"

text \<open>A value whose numbers are all finite, as DynamoDB requires as well.\<close>

fun finite_numbers :: "pyval \<Rightarrow> bool" where
  "finite_numbers (PNonFinite x) = False"
| "finite_numbers (PDecimalNonFinite x) = False"
| "finite_numbers (PDict d) = (\<forall>(k, v) \<in> set d. finite_numbers v)"
| "finite_numbers (PList xs) = (\<forall>x \<in> set xs. finite_numbers x)"
| "finite_numbers (PTuple xs) = (\<forall>x \<in> set xs. finite_numbers x)"
| "finite_numbers v = True"

text \<open>
  What a round trip through the table makes of a value: integral floats and decimals become
  integers, other decimals floats, tuples lists, and \<open>None\<close> entries of dictionaries are gone.
\<close>

fun table_form :: "pyval \<Rightarrow> pyval" where
  "table_form (PFloat q) = (if q \<in> \<int> then PInt \<lfloor>q\<rfloor> else PFloat q)"
| "table_form (PDecimal q) = (if q \<in> \<int> then PInt \<lfloor>q\<rfloor> else PFloat q)"
| "table_form (PDict d) = PDict (map (\<lambda>(k, v). (k, table_form v)) (filter (\<lambda>(k, v). v \<noteq> PNone) d))"
| "table_form (PList xs) = PList (map table_form xs)"
| "table_form (PTuple xs) = PList (map table_form xs)"
| "table_form v = v"

text \<open>Values a round trip returns unchanged.\<close>

fun table_stable :: "pyval \<Rightarrow> bool" where
  "table_stable (PFloat q) = (q \<notin> \<int>)"
| "table_stable (PDecimal q) = False"
| "table_stable (PNonFinite x) = False"
| "table_stable (PDecimalNonFinite x) = False"
| "table_stable (PDict d) = (\<forall>(k, v) \<in> set d. v \<noteq> PNone \<and> table_stable v)"
| "table_stable (PList xs) = (\<forall>x \<in> set xs. table_stable x)"
| "table_stable (PTuple xs) = False"
| "table_stable v = True"

lemma to_dynamo_float_free: "float_free (to_dynamo v)"
  by (induction v rule: to_dynamo.induct) (auto split: prod.splits)

lemma py_trunc_int: "q = of_int (py_trunc q) \<longleftrightarrow> q \<in> \<int>"
proof
  assume "q = of_int (py_trunc q)"
  then show "q \<in> \<int>" by (metis Ints_of_int)
qed (auto simp: py_trunc_def elim: Ints_cases)

lemma py_trunc_Ints: "q \<in> \<int> \<Longrightarrow> py_trunc q = \<lfloor>q\<rfloor>"
  by (auto simp: py_trunc_def Ints_def)

lemma from_to_dynamo: "finite_numbers v \<Longrightarrow> from_dynamo (to_dynamo v) = table_form v"
  by (induction v rule: to_dynamo.induct) (auto simp: py_trunc_int py_trunc_Ints Let_def)

lemma to_dynamo_finite: "finite_numbers v \<Longrightarrow> finite_numbers (to_dynamo v)"
  by (induction v rule: to_dynamo.induct) auto

lemma table_form_finite: "finite_numbers v \<Longrightarrow> finite_numbers (table_form v)"
  by (induction v rule: table_form.induct) auto

lemma table_stable_finite: "table_stable v \<Longrightarrow> finite_numbers v"
  by (induction v rule: table_stable.induct) auto

lemma table_form_stable: "table_stable v \<Longrightarrow> table_form v = v"
proof (induction v rule: table_stable.induct)
  case (5 d)
  then have "filter (\<lambda>(k, v). v \<noteq> PNone) d = d"
    by (auto simp: filter_id_conv)
  moreover have "map (\<lambda>(k, v). (k, table_form v)) d = d"
    using 5 by (auto intro!: map_idI)
  ultimately show ?case by simp
qed (auto intro!: map_idI)

lemma table_form_PNone: "table_form v = PNone \<longleftrightarrow> v = PNone"
  by (cases v) auto

lemma table_form_idem: "table_form (table_form v) = table_form v"
proof (induction v rule: table_form.induct)
  case (3 d)
  let ?P = "\<lambda>(k, v). v \<noteq> PNone"
  let ?g = "\<lambda>(k, v). (k, table_form v)"
  have "filter ?P (map ?g (filter ?P d)) = map ?g (filter ?P d)"
    by (auto simp: filter_id_conv table_form_PNone)
  moreover have "map ?g (map ?g (filter ?P d)) = map ?g (filter ?P d)"
    using 3 by auto
  ultimately show ?case by (simp only: table_form.simps)
qed auto

section \<open>Properties\<close>

text \<open>
  C30: What is written to DynamoDB contains no float at any depth, as its serializer demands. If the numbers of a value
  are finite, so are those written, and
  reading it back gives the normal form of the value: integral numbers as integers, other numbers as
  floats, tuples as lists, absent dictionary entries gone. Writing that again changes nothing more.
\<close>

theorem dynamo_roundtrip:
  "float_free (to_dynamo v) \<and>
   (if finite_numbers v
    then finite_numbers (to_dynamo v) \<and> from_dynamo (to_dynamo v) = table_form v \<and>
      from_dynamo (to_dynamo (table_form v)) = table_form v
    else True)"
  by (simp add: to_dynamo_float_free to_dynamo_finite from_to_dynamo table_form_finite table_form_idem)

text \<open>
  A value without integral floats, decimals, tuples or absent entries comes back from the table
  exactly as it was written.
\<close>

theorem dynamo_roundtrip_exact:
  assumes "table_stable v"
  shows "from_dynamo (to_dynamo v) = v"
  using assms by (simp add: from_to_dynamo table_stable_finite table_form_stable)

theorem dynamo_roundtrip_exact_witness:
  "from_dynamo (to_dynamo (PDict [(''a'', PList [PInt 1, PStr ''x'']), (''b'', PFloat (1/2))])) =
   PDict [(''a'', PList [PInt 1, PStr ''x'']), (''b'', PFloat (1/2))]"
proof (rule dynamo_roundtrip_exact)
  have "(1/2 :: rat) \<notin> \<int>"
  proof
    assume "(1/2 :: rat) \<in> \<int>"
    then obtain i where "(1/2 :: rat) = of_int i" by (rule Ints_cases)
    then have "(of_int (2 * i) :: rat) = of_int 1" by simp
    then have "2 * i = 1" by (simp only: of_int_eq_iff)
    then show False by presburger
  qed
  then show "table_stable (PDict [(''a'', PList [PInt 1, PStr ''x'']), (''b'', PFloat (1/2))])" by simp
qed

end
