(* ===== verification/Aws.thy ===== *)
theory Aws
  imports Retry Dynamo
begin

text \<open>
  The three service wrappers of \<open>shared/aws.py\<close>. Each method builds one boto3 request, sends it
  through \<open>call_with_retry\<close> and unpacks the answer. The update and condition expressions are the
  strings the source sends; what DynamoDB makes of them is the table's business (the \<open>env\<close>).
  A response that is not there (\<open>None\<close>) makes the source's \<open>response.get\<close> or \<open>response[...]\<close>
  raise; without swallowed codes that never happens (\<open>ladder_not_swallowed\<close>).
\<close>

definition READINESS_SENTINEL_JOB_ID :: string where
  "READINESS_SENTINEL_JOB_ID = ''__readiness_probe__''"

definition REACHABLE_DENIED_CODES :: "string list" where
  "REACHABLE_DENIED_CODES =
    [''AccessDenied'', ''AccessDeniedException'', ''Forbidden'', ''403'', ''AuthorizationError'',
     ''UnauthorizedOperation'', ''MissingAuthenticationToken'', ''InvalidClientTokenId'']"

text \<open>The policy the three \<open>check\<close> methods build inline.\<close>

definition PROBE_POLICY :: retry_policy where
  "PROBE_POLICY = \<lparr>attempts = 2, base_delay = 1/10, max_delay = 1/2\<rparr>"

abbreviation no_answer :: "'a \<Rightarrow> pyval" where
  "no_answer \<equiv> \<lambda>_. PNone"

text \<open>The answer to a receive: handle and body of each message, as the worker reads them.\<close>

definition receive_answer :: "sqs_message list option \<Rightarrow> pyval" where
  "receive_answer messages =
     PList (map (\<lambda>m. PTuple [PStr (opt_get [] (ReceiptHandle m)), PStr (opt_get [] (Body m))]) (opt_get [] messages))"

section \<open>S3Store\<close>

record s3_store =
  ss_bucket :: string
  ss_policy :: retry_policy

definition s3_put_bytes :: "'w env \<Rightarrow> s3_store \<Rightarrow> string \<Rightarrow> bytes \<Rightarrow> string \<Rightarrow> ('w, unit) prog" where
  "s3_put_bytes env S key data content_type =
     bind (call_with_retry env
             (on_wire (PutObject (ss_bucket S) key data content_type) no_answer
                (put_object env (ss_bucket S) key data content_type))
             ''s3.put_object'' (ss_policy S) [])
       (\<lambda>_. return ())"

text \<open>The body is read outside the retry loop.\<close>

definition s3_get_bytes :: "'w env \<Rightarrow> s3_store \<Rightarrow> string \<Rightarrow> ('w, bytes) prog" where
  "s3_get_bytes env S key =
     bind (call_with_retry env
             (on_wire (GetObject (ss_bucket S) key) no_answer (get_object env (ss_bucket S) key))
             ''s3.get_object'' (ss_policy S) [])
       (\<lambda>response. case response of
          None \<Rightarrow> raise (OtherError ''TypeError'' ''response is None'')
        | Some _ \<Rightarrow> on_wire (ReadBody (ss_bucket S) key) no_answer (read_body env (ss_bucket S) key))"

definition s3_download_to :: "'w env \<Rightarrow> s3_store \<Rightarrow> string \<Rightarrow> string \<Rightarrow> ('w, int) prog" where
  "s3_download_to env S key destination =
     bind (s3_get_bytes env S key) (\<lambda>payload.
       bind (ask_io (write_file env destination payload)) (\<lambda>_. return (int (length payload))))"

definition s3_check :: "'w env \<Rightarrow> s3_store \<Rightarrow> ('w, unit) prog" where
  "s3_check env S =
     bind (call_with_retry env
             (on_wire (HeadBucket (ss_bucket S)) no_answer (head_bucket env (ss_bucket S)))
             ''s3.head_bucket'' PROBE_POLICY REACHABLE_DENIED_CODES)
       (\<lambda>_. return ())"

section \<open>JobQueue\<close>

record job_queue =
  jq_url :: string
  jq_policy :: retry_policy

text \<open>\<open>operation.split(".", 1)[-1]\<close>.\<close>

definition op_label :: "string \<Rightarrow> string" where
  "op_label operation =
     (case dropWhile (\<lambda>c. c \<noteq> CHR ''.'') operation of [] \<Rightarrow> operation | _ # rest \<Rightarrow> rest)"

definition jq_call :: "'w env \<Rightarrow> job_queue \<Rightarrow> string \<Rightarrow> ('w, 'a) prog \<Rightarrow> ('w, 'a option) prog" where
  "jq_call env Q operation func =
     bind (attempt (call_with_retry env func operation (jq_policy Q) [])) (\<lambda>r. case r of
         Inr x \<Rightarrow> return x
       | Inl e \<Rightarrow>
           bind (modify (\<lambda>s. s\<lparr>sqs_errors_total := inc (op_label operation) (sqs_errors_total s)\<rparr>))
             (\<lambda>_. raise e))"

definition jq_send_job :: "'w env \<Rightarrow> job_queue \<Rightarrow> string \<Rightarrow> (string \<times> string) list \<Rightarrow> ('w, string) prog" where
  "jq_send_job env Q body attributes =
     (let message_attributes = filter (\<lambda>(name, value). value \<noteq> []) attributes
      in bind (jq_call env Q ''sqs.send_message''
                 (on_wire (SendMessage (jq_url Q) body message_attributes) no_answer
                    (send_message env (jq_url Q) body message_attributes)))
           (\<lambda>response. case response of
              None \<Rightarrow> raise (OtherError ''AttributeError'' ''response is None'')
            | Some message_id \<Rightarrow> return (opt_get [] message_id)))"

text \<open>\<open>MessageAttributeNames\<close> and \<open>AttributeNames\<close> of \<open>receive\<close>.\<close>

abbreviation receive_request :: "string \<Rightarrow> int \<Rightarrow> int \<Rightarrow> int option \<Rightarrow> request" where
  "receive_request url max_messages wait_seconds visibility_timeout \<equiv>
     ReceiveMessage url max_messages wait_seconds [''All''] [''ApproximateReceiveCount'', ''SentTimestamp''] visibility_timeout"

definition jq_receive ::
  "'w env \<Rightarrow> job_queue \<Rightarrow> int \<Rightarrow> int \<Rightarrow> int option \<Rightarrow> ('w, sqs_message list) prog" where
  "jq_receive env Q max_messages wait_seconds visibility_timeout =
     bind (jq_call env Q ''sqs.receive_message''
             (on_wire (ReceiveMessage (jq_url Q) max_messages wait_seconds [''All'']
                  [''ApproximateReceiveCount'', ''SentTimestamp''] visibility_timeout) receive_answer
                (receive_message env (jq_url Q) max_messages wait_seconds [''All'']
                  [''ApproximateReceiveCount'', ''SentTimestamp''] visibility_timeout)))
       (\<lambda>response. case response of
          None \<Rightarrow> raise (OtherError ''AttributeError'' ''response is None'')
        | Some messages \<Rightarrow> return (opt_get [] messages))"

definition jq_delete :: "'w env \<Rightarrow> job_queue \<Rightarrow> string \<Rightarrow> ('w, unit) prog" where
  "jq_delete env Q receipt_handle =
     bind (jq_call env Q ''sqs.delete_message''
             (on_wire (DeleteMessage (jq_url Q) receipt_handle) no_answer
                (delete_message env (jq_url Q) receipt_handle)))
       (\<lambda>_. return ())"

definition jq_change_visibility :: "'w env \<Rightarrow> job_queue \<Rightarrow> string \<Rightarrow> int \<Rightarrow> ('w, unit) prog" where
  "jq_change_visibility env Q receipt_handle timeout_seconds =
     bind (jq_call env Q ''sqs.change_message_visibility''
             (on_wire (ChangeMessageVisibility (jq_url Q) receipt_handle timeout_seconds) no_answer
                (change_message_visibility env (jq_url Q) receipt_handle timeout_seconds)))
       (\<lambda>_. return ())"

definition jq_check :: "'w env \<Rightarrow> job_queue \<Rightarrow> ('w, unit) prog" where
  "jq_check env Q =
     bind (call_with_retry env
             (on_wire (GetQueueAttributes (jq_url Q)) no_answer (get_queue_attributes env (jq_url Q)))
             ''sqs.get_queue_attributes'' PROBE_POLICY REACHABLE_DENIED_CODES)
       (\<lambda>_. return ())"

section \<open>JobTable\<close>

record job_table =
  jt_name :: string
  jt_policy :: retry_policy

definition item_answer :: "pyval dict option \<Rightarrow> pyval" where
  "item_answer item = (case item of None \<Rightarrow> PNone | Some d \<Rightarrow> PDict d)"

definition jt_put_job :: "'w env \<Rightarrow> job_table \<Rightarrow> job_record \<Rightarrow> ('w, unit) prog" where
  "jt_put_job env T record =
     (let item = to_dynamo_dict (to_item record)
      in bind (call_with_retry env
                 (on_wire (PutItem (jt_name T) item) no_answer (put_item env (jt_name T) item))
                 ''dynamodb.put_item'' (jt_policy T) [])
           (\<lambda>_. return ()))"

text \<open>\<open>if not item\<close> also takes an empty item for a missing one.\<close>

definition decode_item :: "'w env \<Rightarrow> pyval dict \<Rightarrow> exn + job_record" where
  "decode_item env item = validate_record env (from_dynamo_dict item)"

definition jt_get_job :: "'w env \<Rightarrow> job_table \<Rightarrow> string \<Rightarrow> ('w, job_record option) prog" where
  "jt_get_job env T job_id =
     bind (call_with_retry env
             (on_wire (GetItem (jt_name T) job_id (Some True)) item_answer
                (get_item env (jt_name T) job_id (Some True)))
             ''dynamodb.get_item'' (jt_policy T) [])
       (\<lambda>response. case response of
          None \<Rightarrow> raise (OtherError ''AttributeError'' ''response is None'')
        | Some None \<Rightarrow> return None
        | Some (Some item) \<Rightarrow>
            if item = [] then return None
            else bind (of_sum (decode_item env item)) (\<lambda>r. return (Some r)))"

definition update_call ::
  "'w env \<Rightarrow> job_table \<Rightarrow> string \<Rightarrow> string \<Rightarrow> string option \<Rightarrow> (string \<times> string) list \<Rightarrow> pyval dict \<Rightarrow> ('w, unit) prog" where
  "update_call env T job_id update condition names values =
     bind (call_with_retry env
             (on_wire (UpdateItem (jt_name T) job_id update condition names values) no_answer
                (update_item env (jt_name T) job_id update condition names values))
             ''dynamodb.update_item'' (jt_policy T) [])
       (\<lambda>_. return ())"

definition PROCESSING_UPDATE :: string where
  "PROCESSING_UPDATE = ''SET #s = :processing, started_at = :now, updated_at = :now''"

definition PROCESSING_CONDITION :: string where
  "PROCESSING_CONDITION = ''attribute_exists(job_id) AND #s <> :complete''"

definition COMPLETE_UPDATE :: string where
  "COMPLETE_UPDATE =
     ''SET #s = :status, outputs = :outputs, exif = :exif, '' @
     ''source_width = :width, source_height = :height, '' @
     ''source_format = :format, processing_ms = :ms, '' @
     ''completed_at = :now, updated_at = :now REMOVE #e''"

definition FAILED_UPDATE :: string where
  "FAILED_UPDATE = ''SET #s = :status, #e = :reason, completed_at = :now, updated_at = :now''"

definition processing_values :: "string \<Rightarrow> pyval dict" where
  "processing_values now =
     [('':processing'', PStr (status_value PROCESSING)), ('':complete'', PStr (status_value COMPLETE)),
      ('':now'', PStr now)]"

definition complete_values ::
  "(string \<times> thumbnail_output) list \<Rightarrow> pyval dict \<Rightarrow> int \<Rightarrow> int \<Rightarrow> string \<Rightarrow> int \<Rightarrow> string \<Rightarrow> pyval dict" where
  "complete_values outputs exif width height fmt ms now = to_dynamo_dict
     [('':status'', PStr (status_value COMPLETE)),
      ('':outputs'', PDict (map (\<lambda>(key, value). (key, thumbnail_dump value)) outputs)),
      ('':exif'', PDict exif), ('':width'', PInt width), ('':height'', PInt height),
      ('':format'', PStr fmt), ('':ms'', PInt ms), ('':now'', PStr now)]"

definition failed_values :: "string \<Rightarrow> string \<Rightarrow> pyval dict" where
  "failed_values reason now =
     [('':status'', PStr (status_value FAILED)), ('':reason'', PStr (take 512 reason)), ('':now'', PStr now)]"

fun conditional_check_failed :: "exn \<Rightarrow> bool" where
  "conditional_check_failed (ClientError code status) = (code = Some ''ConditionalCheckFailedException'')"
| "conditional_check_failed _ = False"

definition jt_mark_processing :: "'w env \<Rightarrow> job_table \<Rightarrow> string \<Rightarrow> ('w, bool) prog" where
  "jt_mark_processing env T job_id =
     bind (ask (now_iso env)) (\<lambda>now.
     bind (attempt (update_call env T job_id PROCESSING_UPDATE (Some PROCESSING_CONDITION)
             [(''#s'', ''status'')] (processing_values now))) (\<lambda>r. case r of
         Inr _ \<Rightarrow> return True
       | Inl e \<Rightarrow> if conditional_check_failed e then return False else raise e))"

definition jt_mark_complete ::
  "'w env \<Rightarrow> job_table \<Rightarrow> string \<Rightarrow> (string \<times> thumbnail_output) list \<Rightarrow> pyval dict \<Rightarrow> int \<Rightarrow> int \<Rightarrow> string \<Rightarrow> int \<Rightarrow> ('w, unit) prog" where
  "jt_mark_complete env T job_id outputs exif width height fmt ms =
     bind (ask (now_iso env)) (\<lambda>now.
       update_call env T job_id COMPLETE_UPDATE None [(''#s'', ''status''), (''#e'', ''error'')]
         (complete_values outputs exif width height fmt ms now))"

definition jt_mark_failed :: "'w env \<Rightarrow> job_table \<Rightarrow> string \<Rightarrow> string \<Rightarrow> ('w, unit) prog" where
  "jt_mark_failed env T job_id reason =
     bind (ask (now_iso env)) (\<lambda>now.
       update_call env T job_id FAILED_UPDATE None [(''#s'', ''status''), (''#e'', ''error'')]
         (failed_values reason now))"

definition jt_check :: "'w env \<Rightarrow> job_table \<Rightarrow> ('w, unit) prog" where
  "jt_check env T =
     bind (call_with_retry env
             (on_wire (GetItem (jt_name T) READINESS_SENTINEL_JOB_ID None) item_answer
                (get_item env (jt_name T) READINESS_SENTINEL_JOB_ID None))
             ''dynamodb.get_item'' PROBE_POLICY REACHABLE_DENIED_CODES)
       (\<lambda>_. return ())"

end
