(* ===== verification/Clients.thy ===== *)
theory Clients
  imports Aws
begin

text \<open>
  \<open>AwsClients\<close>: the bundle of wrapped operations a service is handed, here a record of programs, so
  that the API and the worker depend on the operations and not on how they are wrapped. The locale
  \<open>aws_clients\<close> is the contract they rely on: which requests each operation may put on the wire and
  what its outcome says about them. Its interpretation on \<open>AwsClients.build\<close> discharges the contract
  for the wrappers of \<open>Aws\<close>. \<open>aws_build\<close> is the call of \<open>build\<close> itself: it creates the boto3 clients, which
  can fail, and hands out the bundle. \<open>ReadinessProbe\<close> and \<open>wait_for_dependencies\<close> are the two users of
  the bundle that live in \<open>shared/aws.py\<close> itself.
\<close>

record 'w clients =
  store_put_bytes :: "string \<Rightarrow> bytes \<Rightarrow> string \<Rightarrow> ('w, unit) prog"
  store_download_to :: "string \<Rightarrow> string \<Rightarrow> ('w, int) prog"
  store_check :: "('w, unit) prog"
  queue_send_job :: "string \<Rightarrow> (string \<times> string) list \<Rightarrow> ('w, string) prog"
  queue_receive :: "int \<Rightarrow> int \<Rightarrow> int option \<Rightarrow> ('w, sqs_message list) prog"
  queue_delete :: "string \<Rightarrow> ('w, unit) prog"
  queue_change_visibility :: "string \<Rightarrow> int \<Rightarrow> ('w, unit) prog"
  queue_check :: "('w, unit) prog"
  table_put_job :: "job_record \<Rightarrow> ('w, unit) prog"
  table_get_job :: "string \<Rightarrow> ('w, job_record option) prog"
  table_mark_processing :: "string \<Rightarrow> ('w, bool) prog"
  table_mark_complete :: "string \<Rightarrow> (string \<times> thumbnail_output) list \<Rightarrow> pyval dict \<Rightarrow> int \<Rightarrow> int \<Rightarrow> string \<Rightarrow> int \<Rightarrow> ('w, unit) prog"
  table_mark_failed :: "string \<Rightarrow> string \<Rightarrow> ('w, unit) prog"
  table_check :: "('w, unit) prog"

definition client_store :: "config \<Rightarrow> s3_store" where
  "client_store cfg = \<lparr>ss_bucket = s3_bucket cfg, ss_policy = DEFAULT_POLICY\<rparr>"

definition client_queue :: "config \<Rightarrow> job_queue" where
  "client_queue cfg = \<lparr>jq_url = sqs_queue_url cfg, jq_policy = DEFAULT_POLICY\<rparr>"

definition client_table :: "config \<Rightarrow> job_table" where
  "client_table cfg = \<lparr>jt_name = dynamodb_table cfg, jt_policy = DEFAULT_POLICY\<rparr>"

lemma client_names [simp]:
  "ss_bucket (client_store cfg) = s3_bucket cfg" "jq_url (client_queue cfg) = sqs_queue_url cfg"
  "jt_name (client_table cfg) = dynamodb_table cfg"
  "0 < attempts (ss_policy (client_store cfg))" "0 < attempts (jq_policy (client_queue cfg))"
  "0 < attempts (jt_policy (client_table cfg))"
  by (simp_all add: client_store_def client_queue_def client_table_def DEFAULT_POLICY_def)

definition build_clients :: "'w env \<Rightarrow> config \<Rightarrow> 'w clients" where
  "build_clients env cfg =
     (let S = client_store cfg; Q = client_queue cfg; T = client_table cfg
      in \<lparr>store_put_bytes = s3_put_bytes env S, store_download_to = s3_download_to env S,
          store_check = s3_check env S,
          queue_send_job = jq_send_job env Q, queue_receive = jq_receive env Q,
          queue_delete = jq_delete env Q, queue_change_visibility = jq_change_visibility env Q,
          queue_check = jq_check env Q,
          table_put_job = jt_put_job env T, table_get_job = jt_get_job env T,
          table_mark_processing = jt_mark_processing env T,
          table_mark_complete = jt_mark_complete env T, table_mark_failed = jt_mark_failed env T,
          table_check = jt_check env T\<rparr>)"

section \<open>The boto3 clients\<close>

definition SQS_READ_TIMEOUT :: int where "SQS_READ_TIMEOUT = 40"
definition DEFAULT_READ_TIMEOUT :: int where "DEFAULT_READ_TIMEOUT = 30"
definition CONNECT_TIMEOUT :: int where "CONNECT_TIMEOUT = 5"

definition build_boto_config :: "int \<Rightarrow> boto_config" where
  "build_boto_config read_timeout =
     \<lparr>bc_max_attempts = 3, bc_mode = ''standard'', bc_connect_timeout = CONNECT_TIMEOUT,
      bc_read_timeout = read_timeout, bc_user_agent_extra = ''pixelforge/1.0''\<rparr>"

definition build_client :: "string \<Rightarrow> config \<Rightarrow> int option \<Rightarrow> boto_client" where
  "build_client service cfg read_timeout =
     \<lparr>bo_service = service, bo_region = aws_region cfg, bo_endpoint = aws_endpoint_url cfg,
      bo_config = build_boto_config (case read_timeout of Some t \<Rightarrow> t | None \<Rightarrow> DEFAULT_READ_TIMEOUT)\<rparr>"

definition build_dynamodb_resource :: "config \<Rightarrow> boto_client" where
  "build_dynamodb_resource cfg =
     \<lparr>bo_service = ''dynamodb'', bo_region = aws_region cfg, bo_endpoint = aws_endpoint_url cfg,
      bo_config = build_boto_config DEFAULT_READ_TIMEOUT\<rparr>"

text \<open>The boto3 clients of \<open>AwsClients.build\<close>, in its order; the wrappers around them are \<open>build_clients\<close>.\<close>

definition boto_clients :: "config \<Rightarrow> boto_client list" where
  "boto_clients cfg =
     [build_client ''s3'' cfg None, build_client ''sqs'' cfg (Some SQS_READ_TIMEOUT), build_dynamodb_resource cfg]"

text \<open>
  \<open>AwsClients.build\<close>: boto3 creates the three clients, and may refuse to (a malformed endpoint or region), and
  the wrappers are put around them.
\<close>

definition connect_clients :: "'w env \<Rightarrow> config \<Rightarrow> ('w, unit) prog" where
  "connect_clients env cfg =
     bind (ask_io (boto_connect env (build_client ''s3'' cfg None))) (\<lambda>_.
     bind (ask_io (boto_connect env (build_client ''sqs'' cfg (Some SQS_READ_TIMEOUT)))) (\<lambda>_.
       ask_io (boto_connect env (build_dynamodb_resource cfg))))"

definition aws_build :: "'w env \<Rightarrow> config \<Rightarrow> ('w, 'w clients) prog" where
  "aws_build env cfg = bind (connect_clients env cfg) (\<lambda>_. return (build_clients env cfg))"

text \<open>It sends nothing, touches no book, and fails only with an exception of boto3 about one of its clients.\<close>

lemma wp_connect:
  "(\<And>w. Q (Inr ()) (s\<lparr>world := w\<rparr>)) \<Longrightarrow> (\<And>e w. fst (f (world s)) = Inl e \<Longrightarrow> Q (Inl e) (s\<lparr>world := w\<rparr>)) \<Longrightarrow>
   wp (ask_io f) Q s"
  by (cases "f (world s)"; cases "fst (f (world s))") (auto simp: wp_def ask_io_def)

lemma wp_connect_clients:
  assumes ok: "\<And>w. Q (Inr ()) (s\<lparr>world := w\<rparr>)"
    and err: "\<And>b e w0 w. b \<in> set (boto_clients cfg) \<Longrightarrow> fst (boto_connect env b w0) = Inl e \<Longrightarrow> Q (Inl e) (s\<lparr>world := w\<rparr>)"
  shows "wp (connect_clients env cfg) Q s"
proof -
  have mem: "build_client ''s3'' cfg None \<in> set (boto_clients cfg)"
    "build_client ''sqs'' cfg (Some SQS_READ_TIMEOUT) \<in> set (boto_clients cfg)" "build_dynamodb_resource cfg \<in> set (boto_clients cfg)"
    by (simp_all add: boto_clients_def)
  have step: "wp (ask_io (boto_connect env b)) R (s\<lparr>world := w\<rparr>)"
    if "b \<in> set (boto_clients cfg)" "\<And>w. R (Inr ()) (s\<lparr>world := w\<rparr>)" "\<And>e w. Q (Inl e) (s\<lparr>world := w\<rparr>) \<Longrightarrow> R (Inl e) (s\<lparr>world := w\<rparr>)"
    for b R w
    by (rule wp_connect) (use that err [OF that(1)] in auto)
  have "wp (connect_clients env cfg) Q (s\<lparr>world := world s\<rparr>)"
    unfolding connect_clients_def wp_bind
    by (rule step [OF mem(1)], unfold sum.case, rule step [OF mem(2)], unfold sum.case, rule step [OF mem(3)])
      (simp_all add: ok)
  then show ?thesis by simp
qed

lemma quiet_connect: "logs (silent (\<lambda>r. True)) (connect_clients env cfg)"
  unfolding logs_def by (auto simp: silent_def intro!: wp_connect_clients)

lemma aws_build_bind: "bind (aws_build env cfg) f = bind (connect_clients env cfg) (\<lambda>_. f (build_clients env cfg))"
  by (rule ext) (simp add: aws_build_def bind_def return_def split: prod.split sum.split)

section \<open>The requests each table operation sends\<close>

definition processing_request :: "string \<Rightarrow> string \<Rightarrow> string \<Rightarrow> request" where
  "processing_request tbl job now =
     UpdateItem tbl job PROCESSING_UPDATE (Some PROCESSING_CONDITION) [(''#s'', ''status'')] (processing_values now)"

definition complete_request ::
  "string \<Rightarrow> string \<Rightarrow> (string \<times> thumbnail_output) list \<Rightarrow> pyval dict \<Rightarrow> int \<Rightarrow> int \<Rightarrow> string \<Rightarrow> int \<Rightarrow> string \<Rightarrow> request" where
  "complete_request tbl job outputs exif width height fmt ms now =
     UpdateItem tbl job COMPLETE_UPDATE None [(''#s'', ''status''), (''#e'', ''error'')]
       (complete_values outputs exif width height fmt ms now)"

definition failed_request :: "string \<Rightarrow> string \<Rightarrow> string \<Rightarrow> string \<Rightarrow> request" where
  "failed_request tbl job reason now =
     UpdateItem tbl job FAILED_UPDATE None [(''#s'', ''status''), (''#e'', ''error'')] (failed_values reason now)"

text \<open>The writes of a worker to the record of a job.\<close>

definition table_write :: "string \<Rightarrow> string \<Rightarrow> request \<Rightarrow> bool" where
  "table_write tbl job q \<longleftrightarrow>
     (\<exists>now. q = processing_request tbl job now) \<or>
     (\<exists>os ex w h f ms now. q = complete_request tbl job os ex w h f ms now) \<or>
     (\<exists>reason now. q = failed_request tbl job reason now)"

lemma table_writeI:
  "table_write tbl job (processing_request tbl job now)"
  "table_write tbl job (complete_request tbl job os ex w h f ms now)"
  "table_write tbl job (failed_request tbl job reason now)"
  unfolding table_write_def by blast+

lemma table_write_update: "table_write tbl job q \<Longrightarrow> \<exists>u c ns vs. q = UpdateItem tbl job u c ns vs"
  by (auto simp: table_write_def processing_request_def complete_request_def failed_request_def)

definition get_trace :: "(pyval dict \<Rightarrow> exn + job_record) \<Rightarrow> request \<Rightarrow> event list \<Rightarrow> exn + job_record option \<Rightarrow> bool" where
  "get_trace decode q tr r \<longleftrightarrow>
     (\<forall>ev \<in> set tr. fst ev = q) \<and>
     (r = Inr None \<longrightarrow> (\<exists>v. (q, Returned v) \<in> set tr \<and> (v = PNone \<or> v = PDict []))) \<and>
     (\<forall>rec. r = Inr (Some rec) \<longrightarrow> (\<exists>i. (q, Returned (PDict i)) \<in> set tr \<and> i \<noteq> [] \<and> decode i = Inr rec))"

definition processing_trace :: "string \<Rightarrow> string \<Rightarrow> event list \<Rightarrow> exn + bool \<Rightarrow> bool" where
  "processing_trace tbl job tr r \<longleftrightarrow>
     (\<exists>now. (\<forall>ev \<in> set tr. fst ev = processing_request tbl job now) \<and>
        (case r of Inr True \<Rightarrow> (\<exists>v. (processing_request tbl job now, Returned v) \<in> set tr)
         | Inr False \<Rightarrow> (\<exists>e. (processing_request tbl job now, Raised e) \<in> set tr \<and> conditional_check_failed e)
         | Inl e \<Rightarrow> (\<forall>ev \<in> set tr. \<not> ok ev)))"

section \<open>The contract\<close>

locale aws_clients =
  fixes C :: "'w clients" and bucket url tbl :: string and decode :: "pyval dict \<Rightarrow> exn + job_record"
  assumes put_bytes: "talks (call_trace (PutObject bucket key data ct) no_answer) (store_put_bytes C key data ct)"
    and download: "talks (only (\<lambda>q. q = GetObject bucket key \<or> q = ReadBody bucket key)) (store_download_to C key dest)"
    and send_job: "talks (call_trace (SendMessage url body (filter (\<lambda>(n, v). v \<noteq> []) attrs)) no_answer)
           (queue_send_job C body attrs)"
    and receive: "talks (call_trace (receive_request url m w vis) (\<lambda>ms. receive_answer (Some ms))) (queue_receive C m w vis)"
    and delete: "talks (call_trace (DeleteMessage url rh) no_answer) (queue_delete C rh)"
    and change_visibility: "talks (call_trace (ChangeMessageVisibility url rh t) no_answer) (queue_change_visibility C rh t)"
    and put_job: "talks (call_trace (PutItem tbl (to_dynamo_dict (to_item r))) no_answer) (table_put_job C r)"
    and get_job: "talks (get_trace decode (GetItem tbl job (Some True))) (table_get_job C job)"
    and mark_processing: "talks (processing_trace tbl job) (table_mark_processing C job)"
    and mark_complete: "talks (\<lambda>tr r. \<exists>now. call_trace (complete_request tbl job os ex wd ht fm ms now) no_answer tr r)
           (table_mark_complete C job os ex wd ht fm ms)"
    and mark_failed: "talks (\<lambda>tr r. \<exists>now. call_trace (failed_request tbl job reason now) no_answer tr r)
           (table_mark_failed C job reason)"
    and store_probe: "talks (only (\<lambda>q. q = HeadBucket bucket)) (store_check C)"
    and queue_probe: "talks (only (\<lambda>q. q = GetQueueAttributes url)) (queue_check C)"
    and table_probe: "talks (only (\<lambda>q. q = GetItem tbl READINESS_SENTINEL_JOB_ID None)) (table_check C)"

section \<open>The wrappers meet it\<close>

lemma call_trace_no_answer: "call_trace q no_answer tr (Inr x) \<Longrightarrow> call_trace q no_answer tr (Inr y)"
  by (simp add: call_trace_def)

lemma talks_call_unit:
  assumes "0 < attempts p"
  shows "talks (call_trace q no_answer) (bind (call_with_retry env (on_wire q no_answer f) operation p []) (\<lambda>_. return ()))"
proof (rule talksI, unfold wp_bind, rule wp_call_with_retry)
  fix s s' :: "'a st" and tr r
  assume a: "wire s' = wire s @ tr" "ladder q no_answer [] operation (nat (attempts p)) tr r" "same_books s s'"
  show "case r of Inl e \<Rightarrow> (\<exists>tr. wire s' = wire s @ tr \<and> call_trace q no_answer tr (Inl e)) \<and> same_books s s'
      | Inr x \<Rightarrow> wp (return ()) (\<lambda>r s'. (\<exists>tr. wire s' = wire s @ tr \<and> call_trace q no_answer tr r) \<and> same_books s s') s'"
  proof (cases r)
    case (Inl e)
    with a assms show ?thesis by (auto intro: ladder_call_trace_Inl)
  next
    case (Inr x)
    with a show ?thesis
      by (cases x) (auto simp: wp_simps ladder_not_swallowed dest!: ladder_call_trace_Some
          intro: call_trace_no_answer)
  qed
qed

lemma talks_probe:
  "talks (only (\<lambda>q'. q' = q)) (bind (call_with_retry env (on_wire q sh f) operation p codes) (\<lambda>_. return ()))"
proof (rule talksI, unfold wp_bind, rule wp_call_with_retry)
  fix s s' :: "'a st" and tr r
  assume a: "wire s' = wire s @ tr" "ladder q sh codes operation (nat (attempts p)) tr r" "same_books s s'"
  then have "\<forall>ev \<in> set tr. fst ev = q" by (blast dest: ladder_request)
  with a show "case r of Inl e \<Rightarrow> (\<exists>tr. wire s' = wire s @ tr \<and> only (\<lambda>q'. q' = q) tr (Inl e)) \<and> same_books s s'
      | Inr x \<Rightarrow> wp (return ()) (\<lambda>r s'. (\<exists>tr. wire s' = wire s @ tr \<and> only (\<lambda>q'. q' = q) tr r) \<and> same_books s s') s'"
    by (auto simp: only_def reqs_def wp_simps split: sum.split)
qed

lemma wp_jq_call:
  assumes pos: "0 < attempts (jq_policy J)" and step: "\<And>s' tr r. wire s' = wire s @ tr \<Longrightarrow> same_books s s' \<Longrightarrow>
      call_trace q sh tr r \<Longrightarrow> Q (map_sum id Some r) s'"
  shows "wp (jq_call env J operation (on_wire q sh f)) Q s"
  unfolding jq_call_def wp_bind wp_attempt
proof (rule wp_call_with_retry)
  fix s' tr r
  assume a: "wire s' = wire s @ tr" "ladder q sh [] operation (nat (attempts (jq_policy J))) tr r" "same_books s s'"
  show "case Inr r of Inl e \<Rightarrow> Q (Inl e) s'
      | Inr x \<Rightarrow> wp (case x of Inl e \<Rightarrow> bind (modify (\<lambda>s. s\<lparr>sqs_errors_total := inc (op_label operation) (sqs_errors_total s)\<rparr>))
            (\<lambda>_. raise e) | Inr x \<Rightarrow> return x) Q s'"
  proof (cases r)
    case (Inl e)
    have "Q (map_sum id Some (Inl e)) (s'\<lparr>sqs_errors_total := inc (op_label operation) (sqs_errors_total s')\<rparr>)"
      by (rule step [of _ tr]) (use a Inl pos in \<open>auto intro: ladder_call_trace_Inl\<close>)
    with Inl show ?thesis by (simp add: wp_simps)
  next
    case (Inr x)
    with a obtain y where y: "x = Some y" by (cases x) (auto simp: ladder_not_swallowed)
    have "Q (map_sum id Some (Inr y)) s'"
      by (rule step) (use a Inr y in \<open>auto intro: ladder_call_trace_Some\<close>)
    with Inr y show ?thesis by (simp add: wp_simps)
  qed
qed

lemma talks_jq_unit:
  assumes "0 < attempts (jq_policy J)"
  shows "talks (call_trace q no_answer) (bind (jq_call env J operation (on_wire q no_answer f)) (\<lambda>_. return ()))"
proof (rule talksI, unfold wp_bind, rule wp_jq_call [OF assms])
  fix s s' :: "'a st" and tr and r :: "exn + 'b"
  assume a: "wire s' = wire s @ tr" "same_books s s'" "call_trace q no_answer tr r"
  then show "case map_sum id Some r of Inl e \<Rightarrow> (\<exists>tr. wire s' = wire s @ tr \<and> call_trace q no_answer tr (Inl e)) \<and> same_books s s'
      | Inr x \<Rightarrow> wp (return ()) (\<lambda>r s'. (\<exists>tr. wire s' = wire s @ tr \<and> call_trace q no_answer tr r) \<and> same_books s s') s'"
    by (cases r) (auto simp: wp_simps call_trace_def)
qed

lemma talks_s3_put_bytes:
  assumes "0 < attempts (ss_policy S)"
  shows "talks (call_trace (PutObject (ss_bucket S) key data ct) no_answer) (s3_put_bytes env S key data ct)"
  unfolding s3_put_bytes_def using assms by (rule talks_call_unit)

lemma talks_jq_delete:
  assumes "0 < attempts (jq_policy Q)"
  shows "talks (call_trace (DeleteMessage (jq_url Q) rh) no_answer) (jq_delete env Q rh)"
  unfolding jq_delete_def using assms by (rule talks_jq_unit)

lemma talks_jq_change_visibility:
  assumes "0 < attempts (jq_policy Q)"
  shows "talks (call_trace (ChangeMessageVisibility (jq_url Q) rh t) no_answer) (jq_change_visibility env Q rh t)"
  unfolding jq_change_visibility_def using assms by (rule talks_jq_unit)

lemma talks_jt_put_job:
  assumes "0 < attempts (jt_policy T)"
  shows "talks (call_trace (PutItem (jt_name T) (to_dynamo_dict (to_item r))) no_answer) (jt_put_job env T r)"
  unfolding jt_put_job_def Let_def using assms by (rule talks_call_unit)

lemma talks_update_call:
  assumes "0 < attempts (jt_policy T)"
  shows "talks (call_trace (UpdateItem (jt_name T) job u c ns vs) no_answer) (update_call env T job u c ns vs)"
  unfolding update_call_def using assms by (rule talks_call_unit)

lemma talks_ask_then:
  assumes "\<And>x. talks (K x) (m x)"
  shows "talks (\<lambda>tr r. \<exists>x. K x tr r) (bind (ask f) m)"
  unfolding talks_def wp_bind
proof (intro allI wp_ask)
  fix s x w
  show "case Inr x of Inl e \<Rightarrow> (\<exists>tr. wire (s\<lparr>world := w\<rparr>) = wire s @ tr \<and> (\<exists>x. K x tr (Inl e))) \<and> same_books s (s\<lparr>world := w\<rparr>)
      | Inr x \<Rightarrow> wp (m x) (\<lambda>r s'. (\<exists>tr. wire s' = wire s @ tr \<and> (\<exists>x. K x tr r)) \<and> same_books s s') (s\<lparr>world := w\<rparr>)"
    by simp (rule wp_talks [OF assms], auto simp: same_books_def)
qed

lemma talks_jt_mark_complete:
  assumes "0 < attempts (jt_policy T)"
  shows "talks (\<lambda>tr r. \<exists>now. call_trace (complete_request (jt_name T) job os ex wd ht fm ms now) no_answer tr r)
     (jt_mark_complete env T job os ex wd ht fm ms)"
  unfolding jt_mark_complete_def complete_request_def by (rule talks_ask_then [OF talks_update_call [OF assms]])

lemma talks_jt_mark_failed:
  assumes "0 < attempts (jt_policy T)"
  shows "talks (\<lambda>tr r. \<exists>now. call_trace (failed_request (jt_name T) job reason now) no_answer tr r) (jt_mark_failed env T job reason)"
  unfolding jt_mark_failed_def failed_request_def by (rule talks_ask_then [OF talks_update_call [OF assms]])

text \<open>The error that leaves \<open>update_call\<close> with a conditional-check code is one the table raised.\<close>

lemma update_call_raised:
  fixes s :: "'w st"
  shows "wp (update_call env T job u c ns vs)
     (\<lambda>r s'. \<forall>e. r = Inl e \<longrightarrow> conditional_check_failed e \<longrightarrow>
        (\<exists>tr. wire s' = wire s @ tr \<and> (UpdateItem (jt_name T) job u c ns vs, Raised e) \<in> set tr)) s"
  unfolding update_call_def wp_bind
proof (rule wp_call_with_retry)
  fix s' :: "'w st" and tr r
  assume w: "wire s' = wire s @ tr"
    and l: "ladder (UpdateItem (jt_name T) job u c ns vs) no_answer [] ''dynamodb.update_item'' (nat (attempts (jt_policy T))) tr r"
  show "case r of Inl e \<Rightarrow> \<forall>e'. Inl e = Inl e' \<longrightarrow> conditional_check_failed e' \<longrightarrow>
          (\<exists>tr. wire s' = wire s @ tr \<and> (UpdateItem (jt_name T) job u c ns vs, Raised e') \<in> set tr)
      | Inr x \<Rightarrow> wp (return ()) (\<lambda>r s'. \<forall>e. r = Inl e \<longrightarrow> conditional_check_failed e \<longrightarrow>
          (\<exists>tr. wire s' = wire s @ tr \<and> (UpdateItem (jt_name T) job u c ns vs, Raised e) \<in> set tr)) s'"
    using w ladder_exn [of _ _ _ _ _ tr] l by (cases r) (fastforce simp: wp_simps)+
qed

lemma talks_jt_mark_processing:
  assumes "0 < attempts (jt_policy T)"
  shows "talks (processing_trace (jt_name T) job) (jt_mark_processing env T job)"
proof -
  let ?q = "processing_request (jt_name T) job"
  let ?K = "\<lambda>now tr (r :: exn + bool). (\<forall>ev \<in> set tr. fst ev = ?q now) \<and>
        (case r of Inr True \<Rightarrow> (\<exists>v. (?q now, Returned v) \<in> set tr)
         | Inr False \<Rightarrow> (\<exists>e. (?q now, Raised e) \<in> set tr \<and> conditional_check_failed e)
         | Inl e \<Rightarrow> (\<forall>ev \<in> set tr. \<not> ok ev))"
  let ?call = "\<lambda>now. update_call env T job PROCESSING_UPDATE (Some PROCESSING_CONDITION)
      [(''#s'', ''status'')] (processing_values now)"
  have "talks (?K now) (bind (attempt (?call now)) (\<lambda>r. case r of Inr _ \<Rightarrow> return True
       | Inl e \<Rightarrow> if conditional_check_failed e then return False else raise e))" for now
  proof (rule talksI, unfold wp_bind wp_attempt)
    fix s
    have "wp (?call now) (\<lambda>r s'. (\<exists>tr. wire s' = wire s @ tr \<and> call_trace (?q now) no_answer tr r) \<and> same_books s s') s"
      using talks_update_call [OF assms, of job _ _ _ _ env] unfolding talks_def processing_request_def by blast
    moreover note update_call_raised [of env T job PROCESSING_UPDATE "Some PROCESSING_CONDITION"
        "[(''#s'', ''status'')]" "processing_values now" s, folded processing_request_def]
    ultimately show "wp (?call now)
       (\<lambda>r s'. case Inr r of Inl e \<Rightarrow> (\<exists>tr. wire s' = wire s @ tr \<and> ?K now tr (Inl e)) \<and> same_books s s'
          | Inr x \<Rightarrow> wp (case x of Inl e \<Rightarrow> if conditional_check_failed e then return False else raise e | Inr _ \<Rightarrow> return True)
              (\<lambda>r s'. (\<exists>tr. wire s' = wire s @ tr \<and> ?K now tr r) \<and> same_books s s') s') s"
      by (rule wp_mono [OF wp_conj]) (auto simp: wp_simps call_trace_def split: sum.splits)
  qed
  from talks_ask_then [OF this] show ?thesis
    unfolding jt_mark_processing_def by (rule talks_mono) (auto simp: processing_trace_def)
qed

lemma talks_jt_get_job:
  fixes env :: "'w env"
  shows "talks (get_trace (decode_item env) (GetItem (jt_name T) job (Some True))) (jt_get_job env T job)"
proof (rule talksI, unfold jt_get_job_def wp_bind, rule wp_call_with_retry)
  let ?q = "GetItem (jt_name T) job (Some True)"
  let ?Q = "\<lambda>s r s'. (\<exists>tr. wire s' = wire s @ tr \<and> get_trace (decode_item env) ?q tr r) \<and> same_books s s'"
  fix s s' :: "'w st" and tr r
  assume w: "wire s' = wire s @ tr" "same_books s s'"
    and l: "ladder ?q item_answer [] ''dynamodb.get_item'' (nat (attempts (jt_policy T))) tr r"
  have req: "\<forall>ev \<in> set tr. fst ev = ?q" using l by (blast dest: ladder_request)
  show "case r of Inl e \<Rightarrow> ?Q s (Inl e) s' | Inr response \<Rightarrow> wp (case response of
          None \<Rightarrow> raise (OtherError ''AttributeError'' ''response is None'')
        | Some None \<Rightarrow> return None
        | Some (Some item) \<Rightarrow> if item = [] then return None
            else bind (of_sum (decode_item env item)) (\<lambda>r. return (Some r))) (?Q s) s'"
  proof (cases "\<exists>x. r = Inr (Some x)")
    case True
    then obtain x where r: "r = Inr (Some x)" by blast
    with l have "(?q, Returned (item_answer x)) \<in> set tr" by (auto dest: ladder_returned)
    with w req r show ?thesis
      by (auto simp: wp_simps get_trace_def item_answer_def split: option.splits sum.splits)
  next
    case False
    with w req l show ?thesis
      by (auto simp: get_trace_def ladder_not_swallowed split: sum.splits option.splits)
  qed
qed

lemma talks_jq_send_job:
  assumes "0 < attempts (jq_policy Q)"
  shows "talks (call_trace (SendMessage (jq_url Q) body (filter (\<lambda>(n, v). v \<noteq> []) attrs)) no_answer) (jq_send_job env Q body attrs)"
  unfolding jq_send_job_def Let_def
proof (rule talksI, unfold wp_bind, rule wp_jq_call [OF assms])
  fix s s' :: "'a st" and tr and r :: "exn + string option"
  let ?K = "call_trace (SendMessage (jq_url Q) body (filter (\<lambda>(n, v). v \<noteq> []) attrs)) no_answer"
  assume "wire s' = wire s @ tr" "same_books s s'" "?K tr r"
  then show "case map_sum id Some r of Inl e \<Rightarrow> (\<exists>tr. wire s' = wire s @ tr \<and> ?K tr (Inl e)) \<and> same_books s s'
      | Inr response \<Rightarrow> wp (case response of None \<Rightarrow> raise (OtherError ''AttributeError'' ''response is None'')
          | Some message_id \<Rightarrow> return (opt_get [] message_id))
            (\<lambda>r s'. (\<exists>tr. wire s' = wire s @ tr \<and> ?K tr r) \<and> same_books s s') s'"
    by (cases r) (auto simp: wp_simps call_trace_def)
qed

lemma only_call_trace: "call_trace q sh tr r \<Longrightarrow> only (\<lambda>q'. q' = q) tr r'"
  by (simp add: call_trace_def only_def reqs_def)

lemma receive_answer_opt: "receive_answer (Some (opt_get [] messages)) = receive_answer messages"
  by (cases messages) (simp_all add: receive_answer_def)

lemma talks_jq_receive:
  assumes "0 < attempts (jq_policy Q)"
  shows "talks (call_trace (receive_request (jq_url Q) m w vis) (\<lambda>ms. receive_answer (Some ms))) (jq_receive env Q m w vis)"
  unfolding jq_receive_def
proof (rule talksI, unfold wp_bind, rule wp_jq_call [OF assms])
  fix s s' :: "'a st" and tr and r :: "exn + sqs_message list option"
  let ?K = "call_trace (receive_request (jq_url Q) m w vis) (\<lambda>ms. receive_answer (Some ms))"
  assume "wire s' = wire s @ tr" "same_books s s'" "call_trace (receive_request (jq_url Q) m w vis) receive_answer tr r"
  then show "case map_sum id Some r of Inl e \<Rightarrow> (\<exists>tr. wire s' = wire s @ tr \<and> ?K tr (Inl e)) \<and> same_books s s'
      | Inr response \<Rightarrow> wp (case response of None \<Rightarrow> raise (OtherError ''AttributeError'' ''response is None'')
          | Some messages \<Rightarrow> return (opt_get [] messages))
            (\<lambda>r s'. (\<exists>tr. wire s' = wire s @ tr \<and> ?K tr r) \<and> same_books s s') s'"
    by (cases r) (auto simp: wp_simps call_trace_def receive_answer_opt)
qed

lemma talks_s3_download_to:
  "talks (only (\<lambda>q. q = GetObject (ss_bucket S) key \<or> q = ReadBody (ss_bucket S) key)) (s3_download_to env S key dest)"
  unfolding s3_download_to_def s3_get_bytes_def
proof (rule talksI, unfold wp_bind, rule wp_call_with_retry)
  let ?K = "only (\<lambda>q. q = GetObject (ss_bucket S) key \<or> q = ReadBody (ss_bucket S) key)"
  fix s s' :: "'a st" and tr and r :: "exn + unit option"
  assume w: "wire s' = wire s @ tr" "same_books s s'"
    and l: "ladder (GetObject (ss_bucket S) key) no_answer [] ''s3.get_object'' (nat (attempts (ss_policy S))) tr r"
  have req: "\<forall>ev \<in> set tr. fst ev = GetObject (ss_bucket S) key" using l by (blast dest: ladder_request)
  show "case r of Inl e \<Rightarrow> (case Inl e of Inl e \<Rightarrow> (\<exists>tr. wire s' = wire s @ tr \<and> ?K tr (Inl e)) \<and> same_books s s'
        | Inr payload \<Rightarrow> wp (ask_io (write_file env dest payload)) (\<lambda>r s'. case r of
            Inl e \<Rightarrow> (\<exists>tr. wire s' = wire s @ tr \<and> ?K tr (Inl e)) \<and> same_books s s'
          | Inr _ \<Rightarrow> wp (return (int (length payload))) (\<lambda>r s'. (\<exists>tr. wire s' = wire s @ tr \<and> ?K tr r) \<and> same_books s s') s') s')
      | Inr response \<Rightarrow> wp (case response of None \<Rightarrow> raise (OtherError ''TypeError'' ''response is None'')
          | Some _ \<Rightarrow> on_wire (ReadBody (ss_bucket S) key) no_answer (read_body env (ss_bucket S) key))
          (\<lambda>r s'. case r of Inl e \<Rightarrow> (\<exists>tr. wire s' = wire s @ tr \<and> ?K tr (Inl e)) \<and> same_books s s'
            | Inr payload \<Rightarrow> wp (ask_io (write_file env dest payload)) (\<lambda>r s'. case r of
                Inl e \<Rightarrow> (\<exists>tr. wire s' = wire s @ tr \<and> ?K tr (Inl e)) \<and> same_books s s'
              | Inr _ \<Rightarrow> wp (return (int (length payload))) (\<lambda>r s'. (\<exists>tr. wire s' = wire s @ tr \<and> ?K tr r) \<and> same_books s s') s') s') s'"
    using w req by (auto simp: wp_simps only_def reqs_def split: sum.split option.split intro!: wp_on_wire wp_ask_io)
qed

lemma talks_s3_check: "talks (only (\<lambda>q. q = HeadBucket (ss_bucket S))) (s3_check env S)"
  unfolding s3_check_def by (rule talks_probe)

lemma talks_jq_check: "talks (only (\<lambda>q. q = GetQueueAttributes (jq_url Q))) (jq_check env Q)"
  unfolding jq_check_def by (rule talks_probe)

lemma talks_jt_check: "talks (only (\<lambda>q. q = GetItem (jt_name T) READINESS_SENTINEL_JOB_ID None)) (jt_check env T)"
  unfolding jt_check_def by (rule talks_probe)

lemmas wrapper_contracts =
  talks_s3_put_bytes [where S = "client_store cfg" for cfg, simplified]
  talks_s3_download_to [where S = "client_store cfg" for cfg, simplified]
  talks_s3_check [where S = "client_store cfg" for cfg, simplified]
  talks_jq_send_job [where Q = "client_queue cfg" for cfg, simplified]
  talks_jq_receive [where Q = "client_queue cfg" for cfg, simplified]
  talks_jq_delete [where Q = "client_queue cfg" for cfg, simplified]
  talks_jq_change_visibility [where Q = "client_queue cfg" for cfg, simplified]
  talks_jq_check [where Q = "client_queue cfg" for cfg, simplified]
  talks_jt_put_job [where T = "client_table cfg" for cfg, simplified]
  talks_jt_get_job [where T = "client_table cfg" for cfg, simplified]
  talks_jt_mark_processing [where T = "client_table cfg" for cfg, simplified]
  talks_jt_mark_complete [where T = "client_table cfg" for cfg, simplified]
  talks_jt_mark_failed [where T = "client_table cfg" for cfg, simplified]
  talks_jt_check [where T = "client_table cfg" for cfg, simplified]

interpretation aws: aws_clients "build_clients env cfg" "s3_bucket cfg" "sqs_queue_url cfg" "dynamodb_table cfg" "decode_item env"
  for env :: "'w env" and cfg :: config
  by unfold_locales (simp_all add: build_clients_def Let_def wrapper_contracts)

end
