(* ===== verification/Sample.thy ===== *)
theory Sample
  imports Clients
begin

text \<open>
  One concrete environment, configuration and initial state, on which the theorems that need
  hypotheses about the environment are applied: AWS accepts everything, the table is empty, Pillow
  sees a 4 by 2 JPEG in any bytes. It is used by witnesses only; no theorem assumes it.
\<close>

definition sample_image :: pil_image where
  "sample_image = \<lparr>im_format = Some ''JPEG'', im_size = (4, 2), im_mode = ''RGB'', im_transparency = False, im_raster = []\<rparr>"

definition sample_pillow :: pillow where
  "sample_pillow =
     \<lparr>pil_open = (\<lambda>_. Inr sample_image), pil_verify = (\<lambda>_. None), pil_load = Inr,
      pil_getexif = (\<lambda>_. Inr \<lparr>ex_entries = [(1, PStr ''x'')], ex_sub_ifd = Inr []\<rparr>),
      pil_exif_transpose = (\<lambda>_. Inr None), pil_convert = (\<lambda>_. Inr), pil_over_white = Inr,
      pil_thumbnail = (\<lambda>_. Inr), pil_save_jpeg = (\<lambda>_. Inr ''jpeg''),
      pil_TAGS = (\<lambda>_. None), pil_GPSTAGS = (\<lambda>_. None), round6 = (\<lambda>q. q)\<rparr>"

definition sample_message :: "string \<Rightarrow> job_message" where
  "sample_message job =
     \<lparr>jm_schema_version = 1, jm_job_id = job, jm_bucket = ''b'', jm_input_key = ''uploads/j/original.jpg'',
      jm_content_type = ''image/jpeg'', jm_filename = ''f'', jm_submitted_at = ''t'', jm_extra = []\<rparr>"

definition calm :: "unit env" where
  "calm =
     \<lparr>boto_connect = (\<lambda>_ w. (Inr (), w)), put_object = (\<lambda>_ _ _ _ w. (Inr (), w)), get_object = (\<lambda>_ _ w. (Inr (), w)),
      read_body = (\<lambda>_ _ w. (Inr ''data'', w)), head_bucket = (\<lambda>_ w. (Inr (), w)),
      send_message = (\<lambda>_ _ _ w. (Inr (Some ''id''), w)), receive_message = (\<lambda>_ _ _ _ _ _ w. (Inr None, w)),
      delete_message = (\<lambda>_ _ w. (Inr (), w)), change_message_visibility = (\<lambda>_ _ _ w. (Inr (), w)),
      get_queue_attributes = (\<lambda>_ w. (Inr (), w)), put_item = (\<lambda>_ _ w. (Inr (), w)),
      get_item = (\<lambda>_ _ _ w. (Inr None, w)), update_item = (\<lambda>_ _ _ _ _ _ w. (Inr (), w)),
      now_iso = (\<lambda>w. (''t'', w)), uuid4 = (\<lambda>w. (''u'', w)), random01 = (\<lambda>w. (1/2, w)), clock = (\<lambda>w. (0, w)),
      mkdtemp = (\<lambda>p w. (Inr p, w)), rmtree = (\<lambda>_ w. (True, w)), write_file = (\<lambda>_ _ w. (Inr (), w)),
      read_file = (\<lambda>_ w. (Inr ''data'', w)), beats_due = (\<lambda>w. (0, w)), trace_carrier_now = (\<lambda>w. ([], w)),
      span_ids = (\<lambda>w. ((None, None), w)), validate_record = (\<lambda>_. Inl (ValidationError ''invalid'')),
      parse_message = (\<lambda>body. Inr (sample_message body)), dump_message = jm_job_id,
      lib_str = (\<lambda>_. ''library''), pil = sample_pillow\<rparr>"

definition sample_config :: config where
  "sample_config =
     \<lparr>aws_region = ''r'', s3_bucket = ''b'', sqs_queue_url = ''q'', dynamodb_table = ''t'', log_level = ''INFO'',
      shutdown_grace_seconds = 30, max_upload_bytes = 100, thumbnail_sizes = [150, 400], enable_chaos_endpoint = False,
      otel_exporter_otlp_endpoint = None, aws_endpoint_url = None\<rparr>"

definition blank :: "unit st" where
  "blank =
     \<lparr>world = (), wire = [], slept = [], sqs_errors_total = (\<lambda>_. 0), http_requests_total = (\<lambda>_. 0),
      http_durations = [], uploads_total = (\<lambda>_. 0), upload_sizes = [], jobs_processed_total = (\<lambda>_. 0),
      job_durations = [], jobs_inflight = 0, stage_durations = [], log_context = [], temp_dirs = []\<rparr>"

definition sample_sqs :: "string \<Rightarrow> sqs_message" where
  "sample_sqs body =
     \<lparr>MessageId = Some ''m'', ReceiptHandle = Some ''h'', Body = Some body, Attributes = None, MessageAttributes = None\<rparr>"

lemma calm_simps [simp]:
  "boto_connect calm bc w = (Inr (), w)"
  "put_object calm b k d t w = (Inr (), w)" "get_item calm t k c w = (Inr None, w)"
  "put_item calm t item w = (Inr (), w)" "update_item calm t j up cond ns vs w = (Inr (), w)"
  "send_message calm url body attrs w = (Inr (Some ''id''), w)" "delete_message calm url rh w = (Inr (), w)"
  "now_iso calm w = (''t'', w)" "uuid4 calm w = (''u'', w)" "random01 calm w = (1/2, w)" "clock calm w = (0, w)"
  "trace_carrier_now calm w = ([], w)" "span_ids calm w = ((None, None), w)" "rmtree calm d w = (True, w)"
  "validate_record calm item = Inl (ValidationError ''invalid'')" "parse_message calm body = Inr (sample_message body)"
  "dump_message calm = jm_job_id" "pil calm = sample_pillow" "lib_str calm e = ''library''"
  by (simp_all add: calm_def)

lemma sample_message_simps [simp]:
  "jm_schema_version (sample_message j) = 1" "jm_job_id (sample_message j) = j" "jm_bucket (sample_message j) = ''b''"
  by (simp_all add: sample_message_def)

lemma sample_sqs_simps [simp]: "Body (sample_sqs b) = Some b" "ReceiptHandle (sample_sqs b) = Some ''h''"
  by (simp_all add: sample_sqs_def)

text \<open>How to run a program on the sample.\<close>

lemmas run_simps = bind_def return_def raise_def attempt_def finalize_def modify_def of_sum_def ask_def ask_io_def
  on_wire_def sleep_def

lemma retry_first:
  "0 < attempts p \<Longrightarrow> func s = (Inr x, s') \<Longrightarrow> call_with_retry env func operation p codes s = (Inr (Some x), s')"
  by (simp add: call_with_retry_def retry_from.simps [of env func operation p codes 1 None] run_simps)

lemma sample_config_simps [simp]:
  "s3_bucket sample_config = ''b''" "sqs_queue_url sample_config = ''q''" "dynamodb_table sample_config = ''t''"
  "max_upload_bytes sample_config = 100" "thumbnail_sizes sample_config = [150, 400]"
  by (simp_all add: sample_config_def)

lemma blank_simps [simp]: "wire blank = []" "world blank = ()"
  by (simp_all add: blank_def)

theorem retry_sleeps_bounded_witness:
  "wp (call_with_retry (calm\<lparr>random01 := \<lambda>w. (1, w)\<rparr>)
        (on_wire (HeadBucket ''b'') no_answer (\<lambda>w. (Inl (ClientError (Some ''SlowDown'') None) :: exn + unit, w)))
        ''s3.head_bucket'' DEFAULT_POLICY [])
     (\<lambda>r s'. \<exists>ds. slept s' = slept blank @ ds \<and> int (length ds) \<le> max 0 (attempts DEFAULT_POLICY - 1) \<and>
        list_all (\<lambda>i. 0 \<le> ds ! i \<and> ds ! i \<le> min (max_delay DEFAULT_POLICY) (base_delay DEFAULT_POLICY * 2 ^ i)) [0..<length ds]) blank"
  by (rule retry_sleeps_bounded) (simp_all add: DEFAULT_POLICY_def)

end
