(* ===== verification/Images.thy ===== *)
theory Images
  imports Sample
begin

text \<open>
  \<open>shared/images.py\<close>: the upload gate \<open>probe_image\<close>, EXIF extraction, and thumbnail rendering.
  Pillow itself is the parameter \<open>pillow\<close> of \<open>Effects\<close>; what is modelled is what this module does
  with its answers: the checks, their order, and which exceptions are turned into
  \<open>ImageProcessingError\<close>.
\<close>

definition ALLOWED_CONTENT_TYPES :: "string list" where
  "ALLOWED_CONTENT_TYPES =
    [''image/jpeg'', ''image/jpg'', ''image/png'', ''image/webp'', ''image/gif'', ''image/bmp'', ''image/tiff'']"

definition FORMAT_EXTENSIONS :: "string \<Rightarrow> string option" where
  "FORMAT_EXTENSIONS = map_of
    [(''JPEG'', ''.jpg''), (''PNG'', ''.png''), (''WEBP'', ''.webp''), (''GIF'', ''.gif''),
     (''BMP'', ''.bmp''), (''TIFF'', ''.tiff''), (''MPO'', ''.jpg'')]"

definition GPS_IFD_TAG :: int where "GPS_IFD_TAG = 0x8825"
definition EXIF_IFD_TAG :: int where "EXIF_IFD_TAG = 0x8769"
definition MAX_EXIF_VALUE_CHARS :: nat where "MAX_EXIF_VALUE_CHARS = 256"

definition EXIF_BLOCKLIST :: "string list" where
  "EXIF_BLOCKLIST = [''MakerNote'', ''UserComment'', ''PrintImageMatching'', ''ImageResources'', ''XMLPacket'']"

record image_probe =
  ip_format :: string
  ip_width :: int
  ip_height :: int
  ip_extension :: string

record rendered_thumbnail =
  rt_size :: int
  rt_data :: bytes
  rt_width :: int
  rt_height :: int

definition bytes_len :: "rendered_thumbnail \<Rightarrow> int" where
  "bytes_len t = int (length (rt_data t))"

section \<open>The upload gate\<close>

definition extension_for_format :: "string option \<Rightarrow> string" where
  "extension_for_format image_format =
     (case image_format of
        None \<Rightarrow> ''.bin''
      | Some f \<Rightarrow> if f = [] then ''.bin'' else opt_get ''.bin'' (FORMAT_EXTENSIONS (py_upper f)))"

text \<open>The \<open>except\<close> clauses of \<open>probe_image\<close>; an exception of another class passes through.\<close>

fun probe_error :: "(exn \<Rightarrow> string) \<Rightarrow> exn \<Rightarrow> exn" where
  "probe_error lib (UnidentifiedImageError m) = ImageProcessingError ''file is not a recognised image format''"
| "probe_error lib (DecompressionBombError m) = ImageProcessingError ''image exceeds the maximum allowed pixel count''"
| "probe_error lib (OSError m) = ImageProcessingError (''image could not be decoded: '' @ exn_str lib (OSError m))"
| "probe_error lib (ValueError m) = ImageProcessingError (''image could not be decoded: '' @ exn_str lib (ValueError m))"
| "probe_error lib (SyntaxError m) = ImageProcessingError (''image could not be decoded: '' @ exn_str lib (SyntaxError m))"
| "probe_error lib (ValidationError m) = ImageProcessingError (''image could not be decoded: '' @ exn_str lib (ValidationError m))"
| "probe_error lib e = e"

definition map_error :: "(exn \<Rightarrow> exn) \<Rightarrow> exn + 'a \<Rightarrow> exn + 'a" where
  "map_error f r = (case r of Inl e \<Rightarrow> Inl (f e) | Inr x \<Rightarrow> Inr x)"

text \<open>The \<open>try\<close> block of \<open>probe_image\<close>, and the checks after it.\<close>

definition inspect_image :: "pillow \<Rightarrow> bytes \<Rightarrow> exn + string \<times> int \<times> int" where
  "inspect_image P data = sum_bind (pil_open P data) (\<lambda>img.
     case pil_verify P img of
       Some e \<Rightarrow> Inl e
     | None \<Rightarrow> Inr (opt_get [] (im_format img), im_size img))"

definition accept_image :: "string \<Rightarrow> int \<Rightarrow> int \<Rightarrow> exn + image_probe" where
  "accept_image image_format width height =
     (if extension_for_format (Some image_format) = ''.bin''
      then Inl (ImageProcessingError (''unsupported image format: '' @
             (if image_format = [] then ''unknown'' else image_format)))
      else if width \<le> 0 \<or> height \<le> 0 then Inl (ImageProcessingError ''image has zero width or height'')
      else Inr \<lparr>ip_format = py_upper image_format, ip_width = width, ip_height = height,
                 ip_extension = extension_for_format (Some image_format)\<rparr>)"

definition probe_image :: "pillow \<Rightarrow> (exn \<Rightarrow> string) \<Rightarrow> bytes \<Rightarrow> exn + image_probe" where
  "probe_image P lib data =
     (if data = [] then Inl (ImageProcessingError ''uploaded file is empty'')
      else sum_bind (map_error (probe_error lib) (inspect_image P data))
        (\<lambda>(image_format, width, height). accept_image image_format width height))"

section \<open>EXIF\<close>

text \<open>
  \<open>_normalise_exif_value\<close>; \<open>None\<close> means the value is dropped. Rationals divide exactly; \<open>round\<close> returns a float that
  is not finite unchanged.
\<close>

lemma size_take_elem [termination_simp]: "x \<in> set (take n xs) \<Longrightarrow> size x < Suc (size_list size xs)"
  by (induction xs arbitrary: n) (auto simp: take_Cons split: nat.splits, fastforce)

fun normalise_exif_value :: "(rat \<Rightarrow> rat) \<Rightarrow> pyval \<Rightarrow> pyval option" where
  "normalise_exif_value rnd (PBytes b) = None"
| "normalise_exif_value rnd (PStr s) =
     (let cleaned = take MAX_EXIF_VALUE_CHARS (py_strip (filter (\<lambda>c. c \<noteq> CHR 0x00) s))
      in if cleaned = [] then None else Some (PStr cleaned))"
| "normalise_exif_value rnd (PBool b) = Some (PBool b)"
| "normalise_exif_value rnd (PInt i) = Some (PInt i)"
| "normalise_exif_value rnd (PFloat q) = Some (PFloat (rnd q))"
| "normalise_exif_value rnd (PNonFinite x) = Some (PNonFinite x)"
| "normalise_exif_value rnd (PRational n d) =
     (if d = 0 then None else Some (PFloat (rnd (of_int n / of_int d))))"
| "normalise_exif_value rnd (PTuple xs) =
     (let kept = map the (filter (\<lambda>v. v \<noteq> None) (map (normalise_exif_value rnd) (take 16 xs)))
      in if kept = [] then None else Some (PList kept))"
| "normalise_exif_value rnd (PList xs) =
     (let kept = map the (filter (\<lambda>v. v \<noteq> None) (map (normalise_exif_value rnd) (take 16 xs)))
      in if kept = [] then None else Some (PList kept))"
| "normalise_exif_value rnd v = None"

text \<open>\<open>TAGS.get(t) or GPSTAGS.get(t) or f"Tag{t}"\<close>: an empty name counts as none.\<close>

definition exif_tag_name :: "pillow \<Rightarrow> int \<Rightarrow> string" where
  "exif_tag_name P tag_id =
     (let a = opt_get [] (pil_TAGS P tag_id); b = opt_get [] (pil_GPSTAGS P tag_id)
      in if a \<noteq> [] then a else if b \<noteq> [] then b else ''Tag'' @ show_int tag_id)"

fun absorb :: "pillow \<Rightarrow> (int \<times> pyval) list \<Rightarrow> pyval dict \<Rightarrow> pyval dict" where
  "absorb P [] result = result"
| "absorb P ((tag_id, value) # items) result =
     (let name = exif_tag_name P tag_id in
      if tag_id = GPS_IFD_TAG \<or> tag_id = EXIF_IFD_TAG then absorb P items result
      else if name \<in> set EXIF_BLOCKLIST \<or> py_startswith (py_lower name) ''gps'' then absorb P items result
      else (case normalise_exif_value (round6 P) value of
              None \<Rightarrow> absorb P items result
            | Some v \<Rightarrow> absorb P items (dict_set name v result)))"

definition extract_exif :: "pillow \<Rightarrow> pil_image \<Rightarrow> pyval dict" where
  "extract_exif P img =
     (case pil_getexif P img of
        Inl e \<Rightarrow> []
      | Inr raw \<Rightarrow>
          if ex_entries raw = [] then []
          else let result = absorb P (ex_entries raw) [] in
               case ex_sub_ifd raw of
                 Inl e \<Rightarrow> result
               | Inr exif_ifd \<Rightarrow> if exif_ifd = [] then result else absorb P exif_ifd result)"

section \<open>Rendering\<close>

definition to_rgb :: "pillow \<Rightarrow> pil_image \<Rightarrow> exn + pil_image" where
  "to_rgb P img =
     (if im_mode img = ''RGB'' then Inr img
      else if im_mode img \<in> {''RGBA'', ''LA'', ''PA''} \<or> (im_mode img = ''P'' \<and> im_transparency img)
      then sum_bind (pil_convert P ''RGBA'' img) (\<lambda>converted.
             sum_bind (pil_over_white P converted) (pil_convert P ''RGB''))
      else pil_convert P ''RGB'' img)"

definition render_one :: "pillow \<Rightarrow> pil_image \<Rightarrow> int \<Rightarrow> exn + rendered_thumbnail" where
  "render_one P img edge =
     sum_bind (pil_thumbnail P (edge, edge) img) (\<lambda>copy.
       sum_bind (pil_save_jpeg P copy) (\<lambda>data.
         Inr \<lparr>rt_size = edge, rt_data = data, rt_width = fst (im_size copy), rt_height = snd (im_size copy)\<rparr>))"

fun render_error :: "(exn \<Rightarrow> string) \<Rightarrow> exn \<Rightarrow> exn" where
  "render_error lib (UnidentifiedImageError m) = ImageProcessingError ''file is not a recognised image format''"
| "render_error lib (DecompressionBombError m) = ImageProcessingError ''image exceeds the maximum allowed pixel count''"
| "render_error lib (OSError m) = ImageProcessingError (''image could not be processed: '' @ exn_str lib (OSError m))"
| "render_error lib (ValueError m) = ImageProcessingError (''image could not be processed: '' @ exn_str lib (ValueError m))"
| "render_error lib (SyntaxError m) = ImageProcessingError (''image could not be processed: '' @ exn_str lib (SyntaxError m))"
| "render_error lib (ValidationError m) = ImageProcessingError (''image could not be processed: '' @ exn_str lib (ValidationError m))"
| "render_error lib (MemoryError m) = ImageProcessingError (''image could not be processed: '' @ exn_str lib (MemoryError m))"
| "render_error lib e = e"

type_synonym rendering = "rendered_thumbnail list \<times> pyval dict \<times> int \<times> int \<times> string"

definition render_payload :: "pillow \<Rightarrow> (exn \<Rightarrow> string) \<Rightarrow> bytes \<Rightarrow> int list \<Rightarrow> exn + rendering" where
  "render_payload P lib payload sizes = map_error (render_error lib)
     (sum_bind (pil_open P payload) (\<lambda>opened.
        let source_format = py_upper (case im_format opened of
              None \<Rightarrow> ''UNKNOWN'' | Some f \<Rightarrow> if f = [] then ''UNKNOWN'' else f) in
        sum_bind (pil_load P opened) (\<lambda>opened.
        let exif = extract_exif P opened in
        sum_bind (pil_exif_transpose P opened) (\<lambda>transposed.
        let oriented = opt_get opened transposed in
        sum_bind (to_rgb P oriented) (\<lambda>renderable.
        sum_bind (sum_map (render_one P renderable) (sort (remdups sizes))) (\<lambda>thumbnails.
          Inr (thumbnails, exif, fst (im_size oriented), snd (im_size oriented), source_format)))))))"

datatype image_source = FromPath string | FromBytes bytes

text \<open>Reading the file is outside the \<open>try\<close>: its \<open>OSError\<close> is not an \<open>ImageProcessingError\<close>.\<close>

definition render_thumbnails :: "'w env \<Rightarrow> image_source \<Rightarrow> int list \<Rightarrow> ('w, rendering) prog" where
  "render_thumbnails env source sizes =
     bind (case source of FromPath p \<Rightarrow> ask_io (read_file env p) | FromBytes b \<Rightarrow> return b)
       (\<lambda>payload. of_sum (render_payload (pil env) (lib_str env) payload sizes))"

section \<open>What leaves the EXIF extraction\<close>

text \<open>
  The values the extraction can produce: no bytes, no object, strings of 1 to 256 characters without
  NUL, lists of 1 to 16 such values. \<open>json_safe\<close> is what JSON and DynamoDB accept: besides, no number that is not finite.
\<close>

fun plain_value :: "pyval \<Rightarrow> bool" where
  "plain_value (PStr s) = (s \<noteq> [] \<and> length s \<le> 256 \<and> CHR 0x00 \<notin> set s)"
| "plain_value (PBool b) = True"
| "plain_value (PInt i) = True"
| "plain_value (PFloat q) = True"
| "plain_value (PNonFinite x) = True"
| "plain_value (PList xs) = (xs \<noteq> [] \<and> length xs \<le> 16 \<and> (\<forall>x \<in> set xs. plain_value x))"
| "plain_value v = False"

fun json_safe :: "pyval \<Rightarrow> bool" where
  "json_safe (PStr s) = (s \<noteq> [] \<and> length s \<le> 256 \<and> CHR 0x00 \<notin> set s)"
| "json_safe (PBool b) = True"
| "json_safe (PInt i) = True"
| "json_safe (PFloat q) = True"
| "json_safe (PList xs) = (xs \<noteq> [] \<and> length xs \<le> 16 \<and> (\<forall>x \<in> set xs. json_safe x))"
| "json_safe v = False"

definition location_free :: "string \<Rightarrow> bool" where
  "location_free name \<longleftrightarrow> \<not> py_startswith (py_lower name) ''gps'' \<and> name \<notin> set EXIF_BLOCKLIST"

lemma json_safe_iff: "json_safe v \<longleftrightarrow> plain_value v \<and> finite_numbers v"
  by (induction v rule: json_safe.induct) auto

definition exif_ok :: "pyval dict \<Rightarrow> bool" where
  "exif_ok d \<longleftrightarrow> distinct (dict_keys d) \<and> (\<forall>(name, v) \<in> set d. location_free name \<and> plain_value v)"

lemma exif_ok_Nil [simp]: "exif_ok []"
  by (simp add: exif_ok_def dict_keys_def)

lemma exif_ok_set: "exif_ok d \<Longrightarrow> location_free name \<Longrightarrow> plain_value v \<Longrightarrow> exif_ok (dict_set name v d)"
  using dict_set_all [of d "\<lambda>name v. location_free name \<and> plain_value v" name v]
  by (simp add: exif_ok_def distinct_dict_set)

lemma length_kept: "length (map the (filter (\<lambda>v. v \<noteq> None) (map f (take 16 xs)))) \<le> 16"
  by (rule le_trans [OF order.trans [OF _ length_filter_le [of "\<lambda>v. v \<noteq> None" "map f (take 16 xs)"]]]) simp_all

lemma kept_safe:
  assumes "\<And>x v. x \<in> set (take 16 xs) \<Longrightarrow> f x = Some v \<Longrightarrow> plain_value v"
    and "kept = map the (filter (\<lambda>v. v \<noteq> None) (map f (take 16 xs)))" "kept \<noteq> []"
  shows "plain_value (PList kept)"
  using assms length_kept [of f xs] by auto

lemma normalised_safe: "normalise_exif_value rnd x = Some v \<Longrightarrow> plain_value v"
proof (induction rnd x arbitrary: v rule: normalise_exif_value.induct)
  case (2 rnd s)
  let ?c = "take MAX_EXIF_VALUE_CHARS (py_strip (filter (\<lambda>c. c \<noteq> CHR 0x00) s))"
  have "set ?c \<subseteq> set (filter (\<lambda>c. c \<noteq> CHR 0x00) s)"
    by (meson order_trans set_py_strip set_take_subset)
  with 2 show ?case by (auto simp: Let_def MAX_EXIF_VALUE_CHARS_def split: if_splits)
next
  case (8 rnd xs)
  from 8(2) show ?case
    by (auto simp: Let_def simp del: plain_value.simps split: if_splits 
        intro!: kept_safe [where f = "normalise_exif_value rnd"] intro: 8(1))
next
  case (9 rnd xs)
  from 9(2) show ?case
    by (auto simp: Let_def simp del: plain_value.simps split: if_splits 
        intro!: kept_safe [where f = "normalise_exif_value rnd"] intro: 9(1))
qed (auto split: if_splits)

lemma absorb_ok: "exif_ok result \<Longrightarrow> exif_ok (absorb P items result)"
proof (induction items arbitrary: result)
  case Nil
  then show ?case by simp
next
  case (Cons item items)
  obtain tag_id v where item: "item = (tag_id, v)" by (cases item)
  have "exif_ok (dict_set (exif_tag_name P tag_id) w result)"
    if "normalise_exif_value (round6 P) v = Some w" "location_free (exif_tag_name P tag_id)" for w
    using Cons.prems that by (simp add: exif_ok_set normalised_safe)
  with Cons show ?case
    unfolding item absorb.simps Let_def by (auto simp: location_free_def split: option.split)
qed

lemma extract_exif_ok: "exif_ok (extract_exif P img)"
  by (simp add: extract_exif_def Let_def absorb_ok split: sum.split)

text \<open>
  A number that is not finite comes out only if one went in: \<open>finite_exif\<close>, every number of the raw EXIF data is finite.
\<close>

definition finite_values :: "('k \<times> pyval) list \<Rightarrow> bool" where
  "finite_values d \<longleftrightarrow> list_all (\<lambda>(k, v). finite_numbers v) d"

definition finite_exif :: "pillow \<Rightarrow> pil_image \<Rightarrow> bool" where
  "finite_exif P img \<longleftrightarrow>
     (case pil_getexif P img of
        Inl e \<Rightarrow> True
      | Inr raw \<Rightarrow> finite_values (ex_entries raw) \<and>
          (case ex_sub_ifd raw of Inl e \<Rightarrow> True | Inr exif_ifd \<Rightarrow> finite_values exif_ifd))"

lemma normalised_finite: "normalise_exif_value rnd x = Some v \<Longrightarrow> finite_numbers x \<Longrightarrow> finite_numbers v"
proof (induction rnd x arbitrary: v rule: normalise_exif_value.induct)
  case (8 rnd xs)
  then show ?case by (fastforce simp: Let_def split: if_splits dest: in_set_takeD)
next
  case (9 rnd xs)
  then show ?case by (fastforce simp: Let_def split: if_splits dest: in_set_takeD)
qed (auto simp: Let_def split: if_splits)

lemma finite_dict_set: "finite_values d \<Longrightarrow> finite_numbers v \<Longrightarrow> finite_values (dict_set k v d)"
  using dict_set_all [of d "\<lambda>name v. finite_numbers v" k v] by (auto simp: finite_values_def list_all_iff)

lemma absorb_finite: "finite_values items \<Longrightarrow> finite_values result \<Longrightarrow> finite_values (absorb P items result)"
proof (induction items arbitrary: result)
  case Nil
  then show ?case by simp
next
  case (Cons item items)
  obtain tag_id v where item: "item = (tag_id, v)" by (cases item)
  with Cons.prems have v: "finite_numbers v" "finite_values items" by (simp_all add: finite_values_def)
  have "finite_values (dict_set name w result)" if "normalise_exif_value (round6 P) v = Some w" for name w
    using Cons.prems(2) normalised_finite [OF that v(1)] by (rule finite_dict_set)
  with Cons.IH [OF v(2)] Cons.prems(2) show ?case
    unfolding item absorb.simps Let_def by (auto split: option.split)
qed

lemma extract_exif_finite: "finite_exif P img \<Longrightarrow> finite_values (extract_exif P img)"
proof -
  have nil: "finite_values ([] :: pyval dict)" by (simp add: finite_values_def)
  assume "finite_exif P img"
  then show ?thesis
    by (auto simp: extract_exif_def Let_def finite_exif_def nil split: sum.splits intro!: absorb_finite)
qed

section \<open>What the upload gate guarantees\<close>

lemma FORMAT_EXTENSIONS_cases:
  "FORMAT_EXTENSIONS f = Some ext \<Longrightarrow>
   f \<in> {''JPEG'', ''PNG'', ''WEBP'', ''GIF'', ''BMP'', ''TIFF'', ''MPO''} \<and>
   ext \<in> {''.jpg'', ''.png'', ''.webp'', ''.gif'', ''.bmp'', ''.tiff''}"
  by (simp add: FORMAT_EXTENSIONS_def split: if_splits)

definition probe_ok :: "image_probe \<Rightarrow> bool" where
  "probe_ok p \<longleftrightarrow>
     ip_format p \<in> {''JPEG'', ''PNG'', ''WEBP'', ''GIF'', ''BMP'', ''TIFF'', ''MPO''} \<and>
     FORMAT_EXTENSIONS (ip_format p) = Some (ip_extension p) \<and> 0 < ip_width p \<and> 0 < ip_height p"

lemma map_error_Inl: "map_error f r = Inl e \<longleftrightarrow> (\<exists>e'. r = Inl e' \<and> e = f e')"
  by (cases r) (auto simp: map_error_def)

lemma map_error_Inr: "map_error f r = Inr x \<longleftrightarrow> r = Inr x"
  by (cases r) (auto simp: map_error_def)

lemma accept_image_ok:
  "accept_image f w h = Inr p \<Longrightarrow> probe_ok p \<and> ip_width p = w \<and> ip_height p = h"
  by (auto simp: accept_image_def probe_ok_def extension_for_format_def opt_get_def
      split: if_splits option.splits dest: FORMAT_EXTENSIONS_cases)

lemma accept_image_error: "accept_image f w h = Inl e \<Longrightarrow> is_image_error e"
  by (auto simp: accept_image_def split: if_splits)

lemma inspect_imageE:
  assumes "inspect_image P data = Inr (f, w, h)"
  obtains img where "pil_open P data = Inr img" "pil_verify P img = None" "im_size img = (w, h)"
  using assms by (auto simp: inspect_image_def sum_bind_Inr split: option.splits)

lemma probe_imageE:
  assumes "probe_image P lib data = Inr p"
  obtains f w h where "data \<noteq> []" "inspect_image P data = Inr (f, w, h)" "accept_image f w h = Inr p"
  using assms by (auto simp: probe_image_def sum_bind_Inr map_error_Inr split: if_split_asm)

lemma probe_image_ok: "probe_image P lib data = Inr p \<Longrightarrow> data \<noteq> [] \<and> probe_ok p"
  by (auto elim!: probe_imageE dest: accept_image_ok)

text \<open>Which exceptions \<open>probe_image\<close> and \<open>render_payload\<close> let through: those Pillow raised outside the listed classes.\<close>

fun decode_failure :: "exn \<Rightarrow> bool" where
  "decode_failure (UnidentifiedImageError m) = True"
| "decode_failure (DecompressionBombError m) = True"
| "decode_failure (OSError m) = True"
| "decode_failure (ValueError m) = True"
| "decode_failure (SyntaxError m) = True"
| "decode_failure (ValidationError m) = True"
| "decode_failure (ImageProcessingError m) = True"
| "decode_failure e = False"

lemma probe_error_image: "is_image_error (probe_error lib e) = decode_failure e"
  by (cases e) auto

lemma render_error_image: "is_image_error (render_error lib e) \<longleftrightarrow> decode_failure e \<or> (\<exists>m. e = MemoryError m)"
  by (cases e) auto

text \<open>Every failure of the gate is an \<open>ImageProcessingError\<close> once Pillow raises only decode failures.\<close>

definition pillow_decode_failures :: "pillow \<Rightarrow> bool" where
  "pillow_decode_failures P \<longleftrightarrow>
     (\<forall>d e. pil_open P d = Inl e \<longrightarrow> decode_failure e) \<and> (\<forall>i e. pil_verify P i = Some e \<longrightarrow> decode_failure e)"

lemma probe_image_error:
  assumes "pillow_decode_failures P" "probe_image P lib data = Inl e"
  shows "is_image_error e"
proof -
  have "is_image_error (probe_error lib e')" if "inspect_image P data = Inl e'" for e'
    using that assms(1)
    by (auto simp: inspect_image_def pillow_decode_failures_def sum_bind_Inl probe_error_image split: option.splits)
  with assms(2) show ?thesis
    by (auto simp: probe_image_def sum_bind_Inl map_error_Inl dest: accept_image_error split: if_splits)
qed

section \<open>What rendering returns\<close>

lemma render_one_edge: "render_one P img edge = Inr t \<Longrightarrow> rt_size t = edge"
  by (auto simp: render_one_def sum_bind_Inr)

lemma sum_map_render_one: "sum_map (render_one P img) edges = Inr ts \<Longrightarrow> map rt_size ts = edges"
  by (induction edges arbitrary: ts) (auto split: sum.splits dest: render_one_edge)

lemma render_payload_result:
  assumes "render_payload P lib payload sizes = Inr (ts, exif, w, h, fmt)"
  shows "map rt_size ts = sort (remdups sizes)" "exif_ok exif" "fmt \<noteq> []"
proof -
  have up: "py_upper s = [] \<longleftrightarrow> s = []" "[] = py_upper s \<longleftrightarrow> s = []" for s
    by (cases s; auto simp: py_upper_def upper_char_def Let_def)+
  show "map rt_size ts = sort (remdups sizes)" "exif_ok exif"
    using assms
    by (auto simp: render_payload_def map_error_Inr sum_bind_Inr Let_def extract_exif_ok dest: sum_map_render_one)
  have "\<exists>x. fmt = py_upper (case x of None \<Rightarrow> ''UNKNOWN'' | Some f \<Rightarrow> if f = [] then ''UNKNOWN'' else f)"
    using assms by (auto simp: render_payload_def map_error_Inr sum_bind_Inr Let_def)
  then show "fmt \<noteq> []"
    by (auto simp: up split: option.splits if_splits)
qed

section \<open>Properties\<close>

text \<open>
  C18: Location never enters the system. Whatever EXIF data Pillow reports, the extracted dictionary
  has no key that starts with \<open>gps\<close> in any case and none of the blocked binary tags, its keys are
  distinct, and every value is a primitive or a list of 1 to 16 values, with strings of 1
  to 256 characters without NUL and never bytes. The values are JSON-safe, but for floats that are not finite, which
  pass through; if the numbers of the raw EXIF data are finite, all values are JSON-safe.
\<close>

theorem extracted_exif_has_no_location:
  "distinct (dict_keys (extract_exif P img)) \<and>
   list_all (\<lambda>(name, v). \<not> py_startswith (py_lower name) ''gps'' \<and> name \<notin> set EXIF_BLOCKLIST \<and> plain_value v \<and>
      (if finite_numbers v then json_safe v else True)) (extract_exif P img) \<and>
   (if finite_exif P img then list_all (\<lambda>(name, v). json_safe v) (extract_exif P img) else True)"
proof -
  have "list_all (\<lambda>(name, v). json_safe v) (extract_exif P img)" if "finite_exif P img"
    using extract_exif_ok [of P img] extract_exif_finite [OF that]
    by (auto simp: exif_ok_def finite_values_def list_all_iff json_safe_iff)
  then show ?thesis
    using extract_exif_ok [of P img] by (auto simp: exif_ok_def list_all_iff location_free_def json_safe_iff)
qed

text \<open>A NaN in the EXIF data leaves the extraction, and marshalling makes a decimal of it that boto3 refuses.\<close>

theorem non_finite_exif_passes:
  "extract_exif (sample_pillow\<lparr>pil_getexif := \<lambda>_. Inr \<lparr>ex_entries = [(33434, PNonFinite NotANumber)], ex_sub_ifd = Inr []\<rparr>,
       pil_TAGS := \<lambda>_. Some ''ExposureTime''\<rparr>) sample_image = [(''ExposureTime'', PNonFinite NotANumber)] \<and>
   \<not> json_safe (PNonFinite NotANumber) \<and> \<not> finite_numbers (to_dynamo (PNonFinite NotANumber))"
  by (simp add: extract_exif_def exif_tag_name_def GPS_IFD_TAG_def EXIF_IFD_TAG_def EXIF_BLOCKLIST_def py_lower_def lower_char_def
      py_ord_def Let_def py_startswith_def)

text \<open>
  The upload gate accepts only non-empty bytes that Pillow opened and verified as one of the
  supported formats, with positive dimensions; the extension of the stored object is the one of that
  format and owes nothing to the client.
\<close>

theorem probe_accepts_only_supported_images:
  "case probe_image P lib payload of
     Inl e \<Rightarrow> True
   | Inr p \<Rightarrow> payload \<noteq> [] \<and> (\<exists>img. pil_open P payload = Inr img \<and> pil_verify P img = None \<and>
       im_size img = (ip_width p, ip_height p)) \<and> 0 < ip_width p \<and> 0 < ip_height p \<and>
       FORMAT_EXTENSIONS (ip_format p) = Some (ip_extension p)"
proof (cases "probe_image P lib payload")
  case (Inr p)
  then obtain f w h where p: "payload \<noteq> []" "inspect_image P payload = Inr (f, w, h)" "accept_image f w h = Inr p"
    by (rule probe_imageE)
  from p(2) obtain img where "pil_open P payload = Inr img" "pil_verify P img = None" "im_size img = (w, h)"
    by (rule inspect_imageE)
  with p accept_image_ok [OF p(3)] Inr show ?thesis by (simp add: probe_ok_def)
qed simp

text \<open>
  Bad input is reported uniformly by the gate: if Pillow signals bad bytes with the exceptions it
  documents (unidentified image, decompression bomb, \<open>OSError\<close>, \<open>ValueError\<close>, \<open>SyntaxError\<close>), every
  failure of the gate is an \<open>ImageProcessingError\<close>.
\<close>

theorem probe_failures_are_normalised:
  assumes "pillow_decode_failures P" "probe_image P lib payload = Inl e"
  shows "\<exists>m. e = ImageProcessingError m"
  using probe_image_error [OF assms] by (simp add: is_image_error_iff)

theorem probe_failures_are_normalised_witness:
  "\<exists>m. probe_image (sample_pillow\<lparr>pil_open := \<lambda>_. Inl (OSError ''truncated'')\<rparr>) (\<lambda>_. ''library'') ''x'' = Inl (ImageProcessingError m)"
proof -
  let ?P = "sample_pillow\<lparr>pil_open := \<lambda>_. Inl (OSError ''truncated'')\<rparr>"
  let ?e = "ImageProcessingError ''image could not be decoded: truncated''"
  have "pillow_decode_failures ?P" by (auto simp: pillow_decode_failures_def sample_pillow_def)
  moreover have e: "probe_image ?P (\<lambda>_. ''library'') ''x'' = Inl ?e"
    by (simp add: probe_image_def inspect_image_def map_error_def)
  ultimately have "\<exists>m. ?e = ImageProcessingError m"
    by (rule probe_failures_are_normalised)
  with e show ?thesis by simp
qed

text \<open>
  An exception of any other class that Pillow raises while opening passes through the gate
  unchanged, so callers do see it raw.
\<close>

theorem probe_passes_other_exceptions:
  assumes "payload \<noteq> []" "pil_open P payload = Inl e" "\<not> decode_failure e"
  shows "probe_image P lib payload = Inl e"
  using assms by (cases e) (simp_all add: probe_image_def inspect_image_def map_error_def)

theorem probe_passes_other_exceptions_witness:
  "probe_image (sample_pillow\<lparr>pil_open := \<lambda>_. Inl (OtherError ''KeyError'' ''offset'')\<rparr>) (\<lambda>_. ''library'') ''x'' = Inl (OtherError ''KeyError'' ''offset'')"
  by (rule probe_passes_other_exceptions) simp_all

text \<open>
  C39: A rendering that succeeds has exactly one thumbnail per configured size, in ascending order and
  without duplicates, and location-free EXIF data, JSON-safe wherever its numbers are finite.
\<close>

theorem rendering_has_one_thumbnail_per_size:
  "case render_payload P lib payload sizes of
     Inl e \<Rightarrow> True
   | Inr (ts, exif, w, h, fmt) \<Rightarrow> sorted_wrt (<) (map rt_size ts) \<and> set (map rt_size ts) = set sizes \<and>
       list_all (\<lambda>(name, v). \<not> py_startswith (py_lower name) ''gps'' \<and> plain_value v \<and> (if finite_numbers v then json_safe v else True)) exif"
proof (cases "render_payload P lib payload sizes")
  case (Inr x)
  obtain ts exif w h fmt where x: "x = (ts, exif, w, h, fmt)" by (cases x) auto
  note r = render_payload_result [OF Inr [unfolded x]]
  have "sorted_wrt (<) (sort (remdups sizes))"
    by (simp add: strict_sorted_iff)
  moreover have "set (map rt_size ts) = set sizes"
    by (simp only: r(1) set_sort set_remdups)
  moreover have "list_all (\<lambda>(name, v). \<not> py_startswith (py_lower name) ''gps'' \<and> plain_value v \<and> (if finite_numbers v then json_safe v else True)) exif"
    using r(2) by (auto simp: exif_ok_def location_free_def list_all_iff json_safe_iff)
  ultimately show ?thesis
    by (simp only: Inr x sum.case prod.case r(1) simp_thms)
qed simp

end
