(* ===== verification/Pipeline.thy ===== *)
theory Pipeline
  imports Images
begin

text \<open>
  The scaffolding around a job in the worker: \<open>shared/tempfiles.py\<close>, \<open>worker/heartbeat.py\<close>, the
  stage timer and the render step of \<open>worker/consumer.py\<close>.

  The heartbeat thread is modelled by the calls it makes: at each boundary between two steps of the
  render, \<open>beats_due\<close> (any number the environment chooses) says how many times its timer has fired
  since the last one, and each firing is one run of the body of \<open>_loop\<close>.
\<close>

section \<open>temp\_workspace\<close>

definition TEMP_PREFIX :: string where "TEMP_PREFIX = ''pixelforge-''"

definition drop_dir :: "string \<Rightarrow> ('w, unit) prog" where
  "drop_dir path = modify (\<lambda>s. s\<lparr>temp_dirs := remove1 path (temp_dirs s)\<rparr>)"

text \<open>\<open>rmtree\<close> answers whether the directory is gone; the second call ignores errors.\<close>

definition cleanup_workspace :: "'w env \<Rightarrow> string \<Rightarrow> ('w, unit) prog" where
  "cleanup_workspace env path =
     bind (ask (rmtree env path)) (\<lambda>gone.
       if gone then drop_dir path
       else bind (ask (rmtree env path)) (\<lambda>gone. if gone then drop_dir path else return ()))"

definition temp_workspace :: "'w env \<Rightarrow> string \<Rightarrow> (string \<Rightarrow> ('w, 'a) prog) \<Rightarrow> ('w, 'a) prog" where
  "temp_workspace env pre body =
     bind (ask_io (mkdtemp env pre)) (\<lambda>path.
     bind (modify (\<lambda>s. s\<lparr>temp_dirs := path # temp_dirs s\<rparr>)) (\<lambda>_.
       finalize (body path) (cleanup_workspace env path)))"

section \<open>VisibilityHeartbeat\<close>

definition HEARTBEAT_INTERVAL_SECONDS :: int where "HEARTBEAT_INTERVAL_SECONDS = 15"
definition VISIBILITY_EXTENSION_SECONDS :: int where "VISIBILITY_EXTENSION_SECONDS = 60"

definition hb_interval :: "int \<Rightarrow> int" where
  "hb_interval interval_seconds = max 1 interval_seconds"

definition hb_extension :: "int \<Rightarrow> int \<Rightarrow> int" where
  "hb_extension interval_seconds extension_seconds = max (hb_interval interval_seconds * 2) extension_seconds"

text \<open>One firing: a failed extension is logged and forgotten.\<close>

definition beat :: "'w clients \<Rightarrow> string \<Rightarrow> int \<Rightarrow> ('w, unit) prog" where
  "beat C receipt_handle extension =
     bind (attempt (queue_change_visibility C receipt_handle extension)) (\<lambda>_. return ())"

fun beats :: "'w clients \<Rightarrow> string \<Rightarrow> int \<Rightarrow> nat \<Rightarrow> ('w, unit) prog" where
  "beats C receipt_handle extension 0 = return ()"
| "beats C receipt_handle extension (Suc n) =
     bind (beat C receipt_handle extension) (\<lambda>_. beats C receipt_handle extension n)"

definition heartbeat :: "'w env \<Rightarrow> 'w clients \<Rightarrow> string \<Rightarrow> int \<Rightarrow> ('w, unit) prog" where
  "heartbeat env C receipt_handle extension =
     bind (ask (beats_due env)) (beats C receipt_handle extension)"

section \<open>The render step\<close>

definition STAGE_DOWNLOAD :: string where "STAGE_DOWNLOAD = ''download''"
definition STAGE_PROCESS :: string where "STAGE_PROCESS = ''process''"
definition STAGE_UPLOAD :: string where "STAGE_UPLOAD = ''upload''"
definition THUMBNAIL_CONTENT_TYPE :: string where "THUMBNAIL_CONTENT_TYPE = ''image/jpeg''"

definition stage :: "'w env \<Rightarrow> string \<Rightarrow> ('w, 'a) prog \<Rightarrow> ('w, 'a) prog" where
  "stage env name body =
     bind (ask (clock env)) (\<lambda>started.
       finalize body (bind (ask (clock env)) (\<lambda>ended.
         modify (\<lambda>s. s\<lparr>stage_durations := stage_durations s @ [(name, ended - started)]\<rparr>))))"

record processed_outputs =
  po_outputs :: "(string \<times> thumbnail_output) list"
  po_exif :: "pyval dict"
  po_width :: int
  po_height :: int
  po_format :: string

definition thumb_key :: "string \<Rightarrow> int \<Rightarrow> string" where
  "thumb_key job_id edge = ''outputs/'' @ job_id @ ''/thumb_'' @ show_int edge @ ''.jpg''"

definition thumb_output :: "string \<Rightarrow> rendered_thumbnail \<Rightarrow> thumbnail_output" where
  "thumb_output job_id t =
     \<lparr>to_size = rt_size t, to_key = thumb_key job_id (rt_size t), to_width = rt_width t,
      to_height = rt_height t, to_bytes = bytes_len t, to_extra = []\<rparr>"

text \<open>The upload loop; \<open>tick\<close> is where the heartbeat may fire.\<close>

fun upload_thumbs ::
  "'w clients \<Rightarrow> ('w, unit) prog \<Rightarrow> string \<Rightarrow> rendered_thumbnail list \<Rightarrow>
   (string \<times> thumbnail_output) list \<Rightarrow> ('w, (string \<times> thumbnail_output) list) prog" where
  "upload_thumbs C tick job_id [] outputs = return outputs"
| "upload_thumbs C tick job_id (t # ts) outputs =
     bind (store_put_bytes C (thumb_key job_id (rt_size t)) (rt_data t) THUMBNAIL_CONTENT_TYPE) (\<lambda>_.
     bind tick (\<lambda>_.
       upload_thumbs C tick job_id ts (dict_set (show_int (rt_size t)) (thumb_output job_id t) outputs)))"

definition render_job ::
  "'w env \<Rightarrow> 'w clients \<Rightarrow> ('w, unit) prog \<Rightarrow> int list \<Rightarrow> job_message \<Rightarrow> ('w, processed_outputs) prog" where
  "render_job env C tick sizes job =
     temp_workspace env TEMP_PREFIX (\<lambda>workspace.
       let original = workspace @ ''/original'' in
       bind (stage env STAGE_DOWNLOAD (store_download_to C (jm_input_key job) original)) (\<lambda>downloaded.
       bind tick (\<lambda>_.
       bind (stage env STAGE_PROCESS (render_thumbnails env (FromPath original) sizes)) (\<lambda>(thumbnails, exif, width, height, image_format).
       bind tick (\<lambda>_.
       bind (stage env STAGE_UPLOAD (upload_thumbs C tick (jm_job_id job) thumbnails [])) (\<lambda>outputs.
         return \<lparr>po_outputs = outputs, po_exif = exif, po_width = width, po_height = height,
                 po_format = image_format\<rparr>))))))"

section \<open>Which thumbnails were stored\<close>

text \<open>The dictionary of outputs a rendering leads to.\<close>

definition outputs_of :: "string \<Rightarrow> rendered_thumbnail list \<Rightarrow> (string \<times> thumbnail_output) list" where
  "outputs_of job_id ts = fold (\<lambda>t. dict_set (show_int (rt_size t)) (thumb_output job_id t)) ts []"

lemma thumb_key_inj: "thumb_key j m = thumb_key j n \<longleftrightarrow> m = n"
  by (simp add: thumb_key_def show_int_inj)

lemma dict_set_new: "k \<notin> set (dict_keys d) \<Longrightarrow> dict_set k v d = d @ [(k, v)]"
  by (induction k v d rule: dict_set.induct) (auto simp: dict_keys_def)

lemma fold_outputs:
  "distinct (map rt_size ts) \<Longrightarrow> \<forall>t \<in> set ts. show_int (rt_size t) \<notin> set (dict_keys d) \<Longrightarrow>
   fold (\<lambda>t. dict_set (show_int (rt_size t)) (thumb_output job t)) ts d =
   d @ map (\<lambda>t. (show_int (rt_size t), thumb_output job t)) ts"
proof (induction ts arbitrary: d)
  case Nil
  then show ?case by simp
next
  case (Cons t ts)
  let ?d = "dict_set (show_int (rt_size t)) (thumb_output job t) d"
  have "\<forall>t' \<in> set ts. show_int (rt_size t') \<notin> set (dict_keys ?d)"
    using Cons.prems by (auto simp: show_int_inj) (metis image_eqI)
  with Cons.IH [of ?d] Cons.prems show ?case
    by (simp add: dict_set_new)
qed

text \<open>Distinct sizes give one entry each, in order.\<close>

lemma outputs_of_distinct:
  "distinct (map rt_size ts) \<Longrightarrow> outputs_of job ts = map (\<lambda>t. (show_int (rt_size t), thumb_output job t)) ts"
  using fold_outputs [of ts "[]" job] by (simp add: outputs_of_def dict_keys_def)

section \<open>Contracts\<close>

lemma quiet_cleanup: "logs (silent (\<lambda>r. r = Inr ())) (cleanup_workspace env path)"
proof -
  have drop: "logs (silent (\<lambda>r. r = Inr ())) (drop_dir path)"
    unfolding drop_dir_def by (rule logs_modify) simp
  have last: "logs (silent (\<lambda>r. r = Inr ())) (if gone then drop_dir path else return ())" for gone
    using drop logs_return by (cases gone) auto
  have two: "logs (silent (\<lambda>r. r = Inr ())) (if gone then drop_dir path
      else bind (ask (rmtree env path)) (\<lambda>gone. if gone then drop_dir path else return ()))" for gone
    using drop quiet_bind [OF logs_ask last] by (cases gone) auto
  show ?thesis
    unfolding cleanup_workspace_def by (rule quiet_bind [OF logs_ask two])
qed

lemma quiet_timer: "logs (silent (\<lambda>r. r = Inr ())) (bind (ask f) (\<lambda>x. modify (\<lambda>s. s\<lparr>stage_durations := g x s\<rparr>)))"
  by (rule quiet_bind [OF logs_ask logs_modify]) simp

lemma logs_stage: "logs K body \<Longrightarrow> logs K (stage env name body)"
  unfolding stage_def
  by (rule logs_mono [OF logs_bind [OF logs_ask logs_finalize [OF _ quiet_timer]]]) (auto simp: seq_silent)

lemma logs_temp_workspace:
  assumes "\<And>path. logs K (body path)" "\<And>e. K [] (Inl e)"
  shows "logs K (temp_workspace env pre body)"
  unfolding temp_workspace_def
proof (rule logs_mono [OF logs_bind [OF logs_ask_io logs_bind [OF logs_modify logs_finalize [OF assms(1) quiet_cleanup]]]])
  fix tr r
  assume "seq_trace (silent (\<lambda>r. True)) (\<lambda>path. seq_trace (silent (\<lambda>r. r = Inr ())) (\<lambda>_. K)) tr r"
  then show "K tr r" by (auto simp: seq_silent assms(2))
qed simp

text \<open>The requests a render may put on the wire.\<close>

fun render_request :: "string \<Rightarrow> string \<Rightarrow> string \<Rightarrow> job_message \<Rightarrow> request \<Rightarrow> bool" where
  "render_request bucket url rh job (GetObject b k) \<longleftrightarrow> b = bucket \<and> k = jm_input_key job"
| "render_request bucket url rh job (ReadBody b k) \<longleftrightarrow> b = bucket \<and> k = jm_input_key job"
| "render_request bucket url rh job (PutObject b k d t) \<longleftrightarrow>
     b = bucket \<and> (\<exists>n. k = thumb_key (jm_job_id job) n) \<and> t = THUMBNAIL_CONTENT_TYPE"
| "render_request bucket url rh job (ChangeMessageVisibility u h t) \<longleftrightarrow> u = url \<and> h = rh"
| "render_request bucket url rh job q \<longleftrightarrow> False"

definition stored_thumb :: "string \<Rightarrow> string \<Rightarrow> rendered_thumbnail \<Rightarrow> event" where
  "stored_thumb bucket job_id t =
     (PutObject bucket (thumb_key job_id (rt_size t)) (rt_data t) THUMBNAIL_CONTENT_TYPE, Returned PNone)"

text \<open>A render that returns: one output per configured size, in order, each already stored.\<close>

definition rendered :: "string \<Rightarrow> int list \<Rightarrow> string \<Rightarrow> event list \<Rightarrow> processed_outputs \<Rightarrow> bool" where
  "rendered bucket sizes job_id tr po \<longleftrightarrow>
     (\<exists>ts. map rt_size ts = sort (remdups sizes) \<and>
        po_outputs po = map (\<lambda>t. (show_int (rt_size t), thumb_output job_id t)) ts \<and>
        (\<forall>t \<in> set ts. stored_thumb bucket job_id t \<in> set tr) \<and> exif_ok (po_exif po))"

lemma rendered_prefix: "rendered bucket sizes job_id t2 po \<Longrightarrow> rendered bucket sizes job_id (t1 @ t2) po"
  unfolding rendered_def by (elim exE, rule exI) auto

context aws_clients
begin

lemma logs_beats: "logs (only (\<lambda>q. q = ChangeMessageVisibility url rh ext)) (beats C rh ext n)"
proof (induction n)
  case 0
  then show ?case by (simp add: only_intros)
next
  case (Suc n)
  have "logs (only (\<lambda>q. q = ChangeMessageVisibility url rh ext)) (queue_change_visibility C rh ext)"
    by (rule logs_mono [OF talks_logs [OF change_visibility]]) (auto simp: only_def intro: call_trace_reqs)
  with Suc show ?case by (simp add: beat_def only_intros)
qed

lemma logs_heartbeat: "logs (only (\<lambda>q. q = ChangeMessageVisibility url rh ext)) (heartbeat env C rh ext)"
  unfolding heartbeat_def by (intro only_intros logs_beats)

lemma logs_upload_thumbs:
  assumes tick: "logs (only (render_request bucket url rh job)) tick"
  shows "logs (\<lambda>tr r. only (render_request bucket url rh job) tr r \<and>
      (\<forall>os'. r = Inr os' \<longrightarrow> os' = fold (\<lambda>t. dict_set (show_int (rt_size t)) (thumb_output (jm_job_id job) t)) ts os \<and>
         (\<forall>t \<in> set ts. stored_thumb bucket (jm_job_id job) t \<in> set tr)))
     (upload_thumbs C tick (jm_job_id job) ts os)"
proof (induction ts arbitrary: os)
  case Nil
  show ?case
    by (simp, rule logs_mono [OF logs_return]) (auto simp: silent_def only_def)
next
  case (Cons t ts)
  show ?case
    unfolding upload_thumbs.simps
  proof (rule logs_mono [OF logs_bind [OF talks_logs [OF put_bytes] logs_bind [OF tick Cons.IH]]], elim seq_traceE conjE)
  qed (auto simp: only_def stored_thumb_def dest: call_trace_ok intro!: call_trace_reqs)
qed

lemma logs_render_job:
  assumes tick: "logs (only (render_request bucket url rh job)) tick"
  shows "logs (\<lambda>tr r. only (render_request bucket url rh job) tr r \<and>
      (\<forall>po. r = Inr po \<longrightarrow> rendered bucket sizes (jm_job_id job) tr po))
     (render_job env C tick sizes job)"
  unfolding render_job_def Let_def
proof (rule logs_temp_workspace)
  fix path
  have get: "logs (only (render_request bucket url rh job)) (stage env STAGE_DOWNLOAD (store_download_to C (jm_input_key job) dest))" for dest
    by (rule logs_stage, rule logs_mono [OF talks_logs [OF download]]) (auto simp: only_def elim: reqs_mono)
  have render: "logs (\<lambda>tr r. tr = [] \<and> (\<forall>ts exif w h fmt. r = Inr (ts, exif, w, h, fmt) \<longrightarrow>
        map rt_size ts = sort (remdups sizes) \<and> exif_ok exif))
      (stage env STAGE_PROCESS (render_thumbnails env (FromPath p) sizes))" for p
    unfolding render_thumbnails_def
    by (rule logs_stage, simp, rule logs_mono [OF logs_bind [OF logs_ask_io logs_of_sum]])
      (auto simp: seq_silent silent_def dest: render_payload_result)
  have upload: "logs (\<lambda>tr r. only (render_request bucket url rh job) tr r \<and>
      (\<forall>os'. r = Inr os' \<longrightarrow> os' = fold (\<lambda>t. dict_set (show_int (rt_size t)) (thumb_output (jm_job_id job) t)) ts [] \<and>
         (\<forall>t \<in> set ts. stored_thumb bucket (jm_job_id job) t \<in> set tr)))
     (stage env STAGE_UPLOAD (upload_thumbs C tick (jm_job_id job) ts []))" for ts
    by (rule logs_stage [OF logs_upload_thumbs [OF tick]])
  let ?G = "\<lambda>tr r. only (render_request bucket url rh job) tr r \<and> (\<forall>po. r = Inr po \<longrightarrow> rendered bucket sizes (jm_job_id job) tr po)"
  have tail: "logs (\<lambda>tr r. map rt_size ts = sort (remdups sizes) \<and> exif_ok exif \<longrightarrow> ?G tr r)
     (bind tick (\<lambda>_. bind (stage env STAGE_UPLOAD (upload_thumbs C tick (jm_job_id job) ts [])) (\<lambda>outputs.
         return \<lparr>po_outputs = outputs, po_exif = exif, po_width = w, po_height = h, po_format = fmt\<rparr>)))" for ts exif w h fmt
  proof (rule logs_mono [OF logs_bind [OF tick logs_bind [OF upload logs_return]]], intro impI)
    fix tr r
    assume a: "map rt_size ts = sort (remdups sizes) \<and> exif_ok exif"
    then have d: "distinct (map rt_size ts)" by simp
    note out = outputs_of_distinct [OF d, of "jm_job_id job", unfolded outputs_of_def]
    assume "seq_trace (only (render_request bucket url rh job)) (\<lambda>_. seq_trace (\<lambda>tr r. only (render_request bucket url rh job) tr r \<and>
      (\<forall>os'. r = Inr os' \<longrightarrow> os' = fold (\<lambda>t. dict_set (show_int (rt_size t)) (thumb_output (jm_job_id job) t)) ts [] \<and>
         (\<forall>t \<in> set ts. stored_thumb bucket (jm_job_id job) t \<in> set tr)))
      (\<lambda>x. silent (\<lambda>r. r = Inr \<lparr>po_outputs = x, po_exif = exif, po_width = w, po_height = h, po_format = fmt\<rparr>))) tr r"
    then show "?G tr r"
      by (elim seq_traceE conjE) (use a out in \<open>auto simp: only_def silent_def rendered_def intro!: exI [of _ ts]\<close>)
  qed
  have tail': "logs (\<lambda>tr r. (\<forall>ts exif w h fmt. x = (ts, exif, w, h, fmt) \<longrightarrow> map rt_size ts = sort (remdups sizes) \<and> exif_ok exif) \<longrightarrow> ?G tr r)
     (case x of (ts, exif, w, h, fmt) \<Rightarrow> bind tick (\<lambda>_. bind (stage env STAGE_UPLOAD (upload_thumbs C tick (jm_job_id job) ts [])) (\<lambda>outputs.
         return \<lparr>po_outputs = outputs, po_exif = exif, po_width = w, po_height = h, po_format = fmt\<rparr>)))" for x
    by (cases x) (auto intro!: logs_mono [OF tail])
  show "logs ?G
     (bind (stage env STAGE_DOWNLOAD (store_download_to C (jm_input_key job) (path @ ''/original''))) (\<lambda>downloaded.
       bind tick (\<lambda>_.
       bind (stage env STAGE_PROCESS (render_thumbnails env (FromPath (path @ ''/original'')) sizes)) (\<lambda>(ts, exif, w, h, fmt).
       bind tick (\<lambda>_. bind (stage env STAGE_UPLOAD (upload_thumbs C tick (jm_job_id job) ts [])) (\<lambda>outputs.
         return \<lparr>po_outputs = outputs, po_exif = exif, po_width = w, po_height = h, po_format = fmt\<rparr>))))))"
  proof (rule logs_mono [OF logs_bind [OF get logs_bind [OF tick logs_bind [OF render tail']]]])
    fix tr and r :: "exn + processed_outputs"
    assume "seq_trace (only (render_request bucket url rh job)) (\<lambda>_. seq_trace (only (render_request bucket url rh job))
        (\<lambda>_. seq_trace (\<lambda>tr r. tr = [] \<and> (\<forall>ts exif w h fmt. r = Inr (ts, exif, w, h, fmt) \<longrightarrow>
            map rt_size ts = sort (remdups sizes) \<and> exif_ok exif))
          (\<lambda>x tr r. (\<forall>ts exif w h fmt. x = (ts, exif, w, h, fmt) \<longrightarrow> map rt_size ts = sort (remdups sizes) \<and> exif_ok exif) \<longrightarrow> ?G tr r))) tr r"
    then show "?G tr r"
      by (elim seq_traceE) (auto simp: only_def rendered_prefix)
  qed
qed (simp add: only_def)

end

end
