(* ===== verification/Consumer.thy ===== *)
theory Consumer
  imports Pipeline
begin

text \<open>
  \<open>worker/consumer.py\<close>: one SQS message from receipt to outcome, and the poll loop. Spans and log
  lines do not influence the outcome and are left out; the log context (\<open>bind_job_context\<close>) is kept.
\<close>

datatype outcome_kind = COMPLETED | JOB_FAILED | SKIPPED_DUPLICATE | RETRY | MALFORMED

definition POLL_WAIT_SECONDS :: int where "POLL_WAIT_SECONDS = 20"
definition RECEIVE_BACKOFF_SECONDS :: rat where "RECEIVE_BACKOFF_SECONDS = 2"

record worker =
  wk_poll_wait :: int
  wk_heartbeat_interval :: int
  wk_visibility_extension :: int

definition Worker :: worker where
  "Worker = \<lparr>wk_poll_wait = POLL_WAIT_SECONDS, wk_heartbeat_interval = HEARTBEAT_INTERVAL_SECONDS,
     wk_visibility_extension = VISIBILITY_EXTENSION_SECONDS\<rparr>"

section \<open>Reading the message\<close>

text \<open>\<open>_trace_carrier\<close>: the attributes that are mappings with a non-empty \<open>StringValue\<close>.\<close>

definition trace_carrier :: "sqs_message \<Rightarrow> (string \<times> string) list" where
  "trace_carrier message = concat (map (\<lambda>(name, a). case a of
       AttrMap (Some v) \<Rightarrow> if v = [] then [] else [(name, v)] | _ \<Rightarrow> [])
     (opt_get [] (MessageAttributes message)))"

definition receive_count :: "sqs_message \<Rightarrow> int" where
  "receive_count message =
     opt_get 1 (py_int (opt_get ''1'' (map_of (opt_get [] (Attributes message)) ''ApproximateReceiveCount'')))"

section \<open>Outcomes\<close>

definition count_job :: "string \<Rightarrow> ('w, unit) prog" where
  "count_job status = modify (\<lambda>s. s\<lparr>jobs_processed_total := inc status (jobs_processed_total s)\<rparr>)"

definition observe_job :: "rat \<Rightarrow> ('w, unit) prog" where
  "observe_job elapsed = modify (\<lambda>s. s\<lparr>job_durations := job_durations s @ [elapsed]\<rparr>)"

definition delete_quietly :: "'w clients \<Rightarrow> string \<Rightarrow> ('w, unit) prog" where
  "delete_quietly C receipt_handle =
     (if receipt_handle = [] then return ()
      else bind (attempt (queue_delete C receipt_handle)) (\<lambda>_. return ()))"

definition fail_job :: "'w clients \<Rightarrow> string \<Rightarrow> string \<Rightarrow> string \<Rightarrow> ('w, outcome_kind) prog" where
  "fail_job C job_id receipt_handle reason =
     bind (attempt (table_mark_failed C job_id reason)) (\<lambda>r. case r of
         Inl e \<Rightarrow> if is_infra e then return RETRY else raise e
       | Inr _ \<Rightarrow>
           bind (count_job ''failed'') (\<lambda>_.
           bind (delete_quietly C receipt_handle) (\<lambda>_. return JOB_FAILED)))"

section \<open>The pipeline of one job\<close>

definition worker_tick :: "'w env \<Rightarrow> 'w clients \<Rightarrow> worker \<Rightarrow> string \<Rightarrow> ('w, unit) prog" where
  "worker_tick env C wk receipt_handle =
     heartbeat env C receipt_handle (hb_extension (wk_heartbeat_interval wk) (wk_visibility_extension wk))"

text \<open>The body of the \<open>try\<close>: render under the heartbeat, record the result, delete the message last.\<close>

definition render_and_complete ::
  "'w env \<Rightarrow> config \<Rightarrow> 'w clients \<Rightarrow> worker \<Rightarrow> job_message \<Rightarrow> string \<Rightarrow> rat \<Rightarrow> ('w, outcome_kind) prog" where
  "render_and_complete env cfg C wk job receipt_handle started =
     bind (render_job env C (worker_tick env C wk receipt_handle) (thumbnail_sizes cfg) job) (\<lambda>processed.
     bind (ask (clock env)) (\<lambda>ended.
       let elapsed = ended - started in
     bind (table_mark_complete C (jm_job_id job) (po_outputs processed) (po_exif processed)
             (po_width processed) (po_height processed) (po_format processed) (py_trunc (elapsed * 1000))) (\<lambda>_.
     bind (queue_delete C receipt_handle) (\<lambda>_.
     bind (count_job ''complete'') (\<lambda>_.
     bind (observe_job elapsed) (\<lambda>_.
       return COMPLETED))))))"

text \<open>The \<open>except\<close> clauses.\<close>

definition settle_failure ::
  "'w env \<Rightarrow> 'w clients \<Rightarrow> job_message \<Rightarrow> string \<Rightarrow> rat \<Rightarrow> exn \<Rightarrow> ('w, outcome_kind) prog" where
  "settle_failure env C job receipt_handle started e =
     (if is_image_error e
      then bind (ask (clock env)) (\<lambda>ended.
           bind (observe_job (ended - started)) (\<lambda>_.
             fail_job C (jm_job_id job) receipt_handle (exn_str (lib_str env) e)))
      else return RETRY)"

definition work ::
  "'w env \<Rightarrow> config \<Rightarrow> 'w clients \<Rightarrow> worker \<Rightarrow> job_message \<Rightarrow> string \<Rightarrow> ('w, outcome_kind) prog" where
  "work env cfg C wk job receipt_handle =
     bind (modify (\<lambda>s. s\<lparr>jobs_inflight := jobs_inflight s + 1\<rparr>)) (\<lambda>_.
     bind (ask (clock env)) (\<lambda>started.
       finalize
         (bind (attempt (render_and_complete env cfg C wk job receipt_handle started)) (\<lambda>r. case r of
             Inr outcome \<Rightarrow> return outcome
           | Inl e \<Rightarrow> settle_failure env C job receipt_handle started e))
         (modify (\<lambda>s. s\<lparr>jobs_inflight := jobs_inflight s - 1\<rparr>))))"

text \<open>From the claim of the job on.\<close>

definition claim_and_work ::
  "'w env \<Rightarrow> config \<Rightarrow> 'w clients \<Rightarrow> worker \<Rightarrow> job_message \<Rightarrow> string \<Rightarrow> ('w, outcome_kind) prog" where
  "claim_and_work env cfg C wk job receipt_handle =
     bind (attempt (table_mark_processing C (jm_job_id job))) (\<lambda>r. case r of
         Inl e \<Rightarrow> if is_infra e then return RETRY else raise e
       | Inr won \<Rightarrow>
           if \<not> won
           then bind (delete_quietly C receipt_handle) (\<lambda>_. return SKIPPED_DUPLICATE)
           else work env cfg C wk job receipt_handle)"

definition process_job ::
  "'w env \<Rightarrow> config \<Rightarrow> 'w clients \<Rightarrow> worker \<Rightarrow> job_message \<Rightarrow> string \<Rightarrow> ('w, outcome_kind) prog" where
  "process_job env cfg C wk job receipt_handle =
     bind (attempt (table_get_job C (jm_job_id job))) (\<lambda>r. case r of
         Inl e \<Rightarrow> if is_infra e then return RETRY else raise e
       | Inr None \<Rightarrow>
           bind (count_job ''failed'') (\<lambda>_.
           bind (delete_quietly C receipt_handle) (\<lambda>_. return JOB_FAILED))
       | Inr (Some rc) \<Rightarrow>
           if jr_status rc = COMPLETE
           then bind (delete_quietly C receipt_handle) (\<lambda>_. return SKIPPED_DUPLICATE)
           else if jm_bucket job \<noteq> s3_bucket cfg
           then fail_job C (jm_job_id job) receipt_handle
                  (''message references unexpected bucket '' @ py_repr (jm_bucket job))
           else claim_and_work env cfg C wk job receipt_handle)"

definition bind_job_context :: "string \<Rightarrow> ('w, unit) prog" where
  "bind_job_context job_id = modify (\<lambda>s. s\<lparr>log_context := dict_set ''job_id'' job_id (log_context s)\<rparr>)"

definition clear_job_context :: "('w, unit) prog" where
  "clear_job_context = modify (\<lambda>s. s\<lparr>log_context := []\<rparr>)"

text \<open>\<open>except (ValidationError, ValueError)\<close>.\<close>

fun is_parse_error :: "exn \<Rightarrow> bool" where
  "is_parse_error (ValidationError m) = True"
| "is_parse_error (ValueError m) = True"
| "is_parse_error e = False"

definition handle_message ::
  "'w env \<Rightarrow> config \<Rightarrow> 'w clients \<Rightarrow> worker \<Rightarrow> sqs_message \<Rightarrow> ('w, outcome_kind) prog" where
  "handle_message env cfg C wk message =
     (let receipt_handle = opt_get [] (ReceiptHandle message) in
      case parse_message env (opt_get [] (Body message)) of
        Inl e \<Rightarrow>
          if is_parse_error e
          then bind (count_job ''failed'') (\<lambda>_.
               bind (delete_quietly C receipt_handle) (\<lambda>_. return MALFORMED))
          else raise e
      | Inr job \<Rightarrow>
          if jm_schema_version job > MESSAGE_SCHEMA_VERSION then return RETRY
          else bind (bind_job_context (jm_job_id job)) (\<lambda>_.
               finalize (process_job env cfg C wk job receipt_handle) clear_job_context))"

section \<open>The poll loop\<close>

fun handle_all ::
  "'w env \<Rightarrow> config \<Rightarrow> 'w clients \<Rightarrow> worker \<Rightarrow> sqs_message list \<Rightarrow> ('w, unit) prog" where
  "handle_all env cfg C wk [] = return ()"
| "handle_all env cfg C wk (m # ms) =
     bind (handle_message env cfg C wk m) (\<lambda>_. handle_all env cfg C wk ms)"

definition run_once :: "'w env \<Rightarrow> config \<Rightarrow> 'w clients \<Rightarrow> worker \<Rightarrow> ('w, int) prog" where
  "run_once env cfg C wk =
     bind (attempt (queue_receive C 1 (wk_poll_wait wk) None)) (\<lambda>r. case r of
         Inl e \<Rightarrow> if is_infra e then bind (sleep RECEIVE_BACKOFF_SECONDS) (\<lambda>_. return 0) else raise e
       | Inr messages \<Rightarrow> bind (handle_all env cfg C wk messages) (\<lambda>_. return (int (length messages))))"

text \<open>One turn of the \<open>while\<close>, and the loop; \<open>stopping\<close> reads the flag that a signal handler sets.\<close>

definition run_turn :: "'w env \<Rightarrow> config \<Rightarrow> 'w clients \<Rightarrow> worker \<Rightarrow> ('w, unit) prog" where
  "run_turn env cfg C wk =
     bind (attempt (run_once env cfg C wk)) (\<lambda>r. case r of
         Inl e \<Rightarrow> sleep RECEIVE_BACKOFF_SECONDS
       | Inr _ \<Rightarrow> return ())"

fun run_worker ::
  "nat \<Rightarrow> ('w st \<Rightarrow> bool) \<Rightarrow> 'w env \<Rightarrow> config \<Rightarrow> 'w clients \<Rightarrow> worker \<Rightarrow> 'w st \<Rightarrow> ((exn + unit) \<times> 'w st) option" where
  "run_worker fuel stopping env cfg C wk s =
     (if stopping s then Some (Inr (), s)
      else case fuel of
        0 \<Rightarrow> None
      | Suc fuel' \<Rightarrow>
          (case run_turn env cfg C wk s of
             (Inl e, s') \<Rightarrow> Some (Inl e, s')
           | (Inr _, s') \<Rightarrow> run_worker fuel' stopping env cfg C wk s'))"

declare run_worker.simps [simp del]

text \<open>\<open>request_stop\<close>: the first reason is kept.\<close>

record stop_flag =
  sf_stopping :: bool
  sf_reason :: "string option"

definition request_stop :: "string \<Rightarrow> stop_flag \<Rightarrow> stop_flag" where
  "request_stop reason f = (if \<not> sf_stopping f then f\<lparr>sf_stopping := True, sf_reason := Some reason\<rparr> else f)"

section \<open>When a message may be deleted\<close>

text \<open>
  An event that settles a job for good: the table answered that the record is missing or already
  \<open>COMPLETE\<close>, it refused the claim because another worker completed the job (or the record is gone),
  or it accepted the update to \<open>COMPLETE\<close> or to \<open>FAILED\<close>.
\<close>

fun settles :: "string \<Rightarrow> (pyval dict \<Rightarrow> exn + job_record) \<Rightarrow> string \<Rightarrow> event \<Rightarrow> bool" where
  "settles tbl decode job (GetItem t j c, Returned v) \<longleftrightarrow> t = tbl \<and> j = job \<and> c = Some True \<and>
     (v = PNone \<or> v = PDict [] \<or> (\<exists>i rc. v = PDict i \<and> decode i = Inr rc \<and> jr_status rc = COMPLETE))"
| "settles tbl decode job (UpdateItem t j u c ns vs, Returned v) \<longleftrightarrow> t = tbl \<and> j = job \<and>
     (u = COMPLETE_UPDATE \<or> u = FAILED_UPDATE)"
| "settles tbl decode job (UpdateItem t j u c ns vs, Raised e) \<longleftrightarrow> t = tbl \<and> j = job \<and>
     u = PROCESSING_UPDATE \<and> c = Some PROCESSING_CONDITION \<and> conditional_check_failed e"
| "settles tbl decode job ev \<longleftrightarrow> False"

fun is_delete :: "request \<Rightarrow> bool" where
  "is_delete (DeleteMessage u h) = True"
| "is_delete q = False"

definition undeleted :: "event list \<Rightarrow> bool" where
  "undeleted tr \<longleftrightarrow> (\<forall>ev \<in> set tr. is_delete (fst ev) \<longrightarrow> \<not> ok ev)"

text \<open>
  The contract of every step of the pipeline: deletions are guarded, and an exception or \<open>RETRY\<close>
  means that no deletion succeeded, so SQS will deliver the message again.
\<close>

definition closed :: "(event \<Rightarrow> bool) \<Rightarrow> event list \<Rightarrow> exn + outcome_kind \<Rightarrow> bool" where
  "closed P tr r \<longleftrightarrow> guarded is_delete P tr \<and> (r = Inr RETRY \<or> (\<exists>e. r = Inl e) \<longrightarrow> undeleted tr)"

lemma undeleted_append [simp]: "undeleted (t1 @ t2) \<longleftrightarrow> undeleted t1 \<and> undeleted t2"
  by (auto simp: undeleted_def)

lemma undeleted_reqs: "reqs (\<lambda>q. \<not> is_delete q) tr \<Longrightarrow> undeleted tr"
  by (auto simp: undeleted_def dest: reqsD)

lemma closed_Nil [simp]: "closed P [] r"
  by (simp add: closed_def undeleted_def)

lemma closed_none: "reqs (\<lambda>q. \<not> is_delete q) tr \<Longrightarrow> closed P tr r"
  by (simp add: closed_def guarded_reqs undeleted_reqs)

lemma closed_append: "closed P t1 (Inl e) \<Longrightarrow> closed P t2 r \<Longrightarrow> closed P (t1 @ t2) r"
  by (auto simp: closed_def guarded_append)

lemma closed_prefix: "reqs (\<lambda>q. \<not> is_delete q) t1 \<Longrightarrow> closed P t2 r \<Longrightarrow> closed P (t1 @ t2) r"
  by (rule closed_append [OF closed_none])

lemma closed_settled:
  "reqs (\<lambda>q. \<not> is_delete q) t1 \<Longrightarrow> ev \<in> set t1 \<Longrightarrow> P ev \<Longrightarrow> k \<noteq> RETRY \<Longrightarrow> closed P (t1 @ t2) (Inr k)"
  by (auto simp: closed_def guarded_append guarded_reqs)

lemma closed_undeleted:
  "reqs (\<lambda>q. \<not> is_delete q) t1 \<Longrightarrow> ev \<in> set t1 \<Longrightarrow> P ev \<Longrightarrow> undeleted t2 \<Longrightarrow> closed P (t1 @ t2) r"
  by (auto simp: closed_def guarded_append guarded_reqs undeleted_reqs)

lemma render_no_delete: "render_request bucket url rh job q \<Longrightarrow> \<not> is_delete q"
  by (cases q) auto

lemma get_trace_settles:
  assumes "get_trace decode (GetItem tbl job (Some True)) tr r"
    and "r = Inr None \<or> (\<exists>rc. r = Inr (Some rc) \<and> jr_status rc = COMPLETE)"
  shows "\<exists>ev \<in> set tr. settles tbl decode job ev"
  using assms(2)
proof (elim disjE exE conjE)
  assume "r = Inr None"
  with assms(1) obtain v where "(GetItem tbl job (Some True), Returned v) \<in> set tr" "v = PNone \<or> v = PDict []"
    unfolding get_trace_def by blast
  then show ?thesis by (intro bexI [of _ "(GetItem tbl job (Some True), Returned v)"]) auto
next
  fix rc
  assume "r = Inr (Some rc)" "jr_status rc = COMPLETE"
  with assms(1) obtain i where "(GetItem tbl job (Some True), Returned (PDict i)) \<in> set tr" "decode i = Inr rc"
    unfolding get_trace_def by blast
  with \<open>jr_status rc = COMPLETE\<close> show ?thesis
    by (intro bexI [of _ "(GetItem tbl job (Some True), Returned (PDict i))"]) auto
qed

lemma processing_traceD:
  assumes "processing_trace tbl job tr r"
  shows "\<exists>now. (\<forall>ev \<in> set tr. fst ev = processing_request tbl job now) \<and>
    (r = Inr False \<longrightarrow> (\<exists>e. (processing_request tbl job now, Raised e) \<in> set tr \<and> conditional_check_failed e))"
  using assms unfolding processing_trace_def by (elim exE, intro exI) auto

text \<open>
  What \<open>COMPLETED\<close> stands for: all thumbnails stored, then the record accepted as \<open>COMPLETE\<close> with
  exactly these outputs, then the message deleted.
\<close>

definition completion ::
  "string \<Rightarrow> string \<Rightarrow> string \<Rightarrow> int list \<Rightarrow> job_message \<Rightarrow> string \<Rightarrow> event list \<Rightarrow> bool" where
  "completion bucket url tbl sizes job rh tr \<longleftrightarrow>
     (\<exists>t1 t2 t3 po ms now. tr = t1 @ t2 @ t3 \<and> rendered bucket sizes (jm_job_id job) t1 po \<and>
        (complete_request tbl (jm_job_id job) (po_outputs po) (po_exif po) (po_width po) (po_height po) (po_format po) ms now,
         Returned PNone) \<in> set t2 \<and>
        (\<forall>ev \<in> set t2. fst ev = complete_request tbl (jm_job_id job) (po_outputs po) (po_exif po) (po_width po) (po_height po) (po_format po) ms now) \<and>
        (DeleteMessage url rh, Returned PNone) \<in> set t3 \<and> (\<forall>ev \<in> set t3. fst ev = DeleteMessage url rh) \<and>
        reqs (\<lambda>q. \<not> is_delete q) (t1 @ t2))"

lemma completion_prefix:
  "completion bucket url tbl sizes job rh tr \<Longrightarrow> reqs (\<lambda>q. \<not> is_delete q) t0 \<Longrightarrow>
   completion bucket url tbl sizes job rh (t0 @ tr)"
  unfolding completion_def
proof (elim exE conjE)
  fix t1 t2 t3 ms now and po :: processed_outputs
  let ?d = "complete_request tbl (jm_job_id job) (po_outputs po) (po_exif po) (po_width po) (po_height po) (po_format po) ms now"
  assume a: "reqs (\<lambda>q. \<not> is_delete q) t0" "tr = t1 @ t2 @ t3" "rendered bucket sizes (jm_job_id job) t1 po"
    "(?d, Returned PNone) \<in> set t2" "\<forall>ev \<in> set t2. fst ev = ?d"
    "(DeleteMessage url rh, Returned PNone) \<in> set t3" "\<forall>ev \<in> set t3. fst ev = DeleteMessage url rh"
    "reqs (\<lambda>q. \<not> is_delete q) (t1 @ t2)"
  show "\<exists>t1 t2 t3 po ms now. t0 @ tr = t1 @ t2 @ t3 \<and> rendered bucket sizes (jm_job_id job) t1 po \<and>
        (complete_request tbl (jm_job_id job) (po_outputs po) (po_exif po) (po_width po) (po_height po) (po_format po) ms now,
         Returned PNone) \<in> set t2 \<and>
        (\<forall>ev \<in> set t2. fst ev = complete_request tbl (jm_job_id job) (po_outputs po) (po_exif po) (po_width po) (po_height po) (po_format po) ms now) \<and>
        (DeleteMessage url rh, Returned PNone) \<in> set t3 \<and> (\<forall>ev \<in> set t3. fst ev = DeleteMessage url rh) \<and>
        reqs (\<lambda>q. \<not> is_delete q) (t1 @ t2)"
    by (intro exI [of _ "t0 @ t1"] exI [of _ t2] exI [of _ t3] exI [of _ po] exI [of _ ms] exI [of _ now])
      (use a in \<open>simp add: rendered_prefix\<close>)
qed

text \<open>The contract of a step that may end in \<open>COMPLETED\<close>.\<close>

definition job_trace ::
  "string \<Rightarrow> string \<Rightarrow> string \<Rightarrow> (pyval dict \<Rightarrow> exn + job_record) \<Rightarrow> int list \<Rightarrow> job_message \<Rightarrow> string \<Rightarrow>
   event list \<Rightarrow> exn + outcome_kind \<Rightarrow> bool" where
  "job_trace bucket url tbl decode sizes job rh tr r \<longleftrightarrow>
     closed (settles tbl decode (jm_job_id job)) tr r \<and>
     (r = Inr COMPLETED \<longrightarrow> completion bucket url tbl sizes job rh tr)"

lemma job_trace_prefix:
  "reqs (\<lambda>q. \<not> is_delete q) t1 \<Longrightarrow> job_trace bucket url tbl decode sizes job rh t2 r \<Longrightarrow>
   job_trace bucket url tbl decode sizes job rh (t1 @ t2) r"
  by (auto simp: job_trace_def intro: closed_prefix completion_prefix)

lemma job_trace_closed:
  "closed (settles tbl decode (jm_job_id job)) tr r \<Longrightarrow> r \<noteq> Inr COMPLETED \<Longrightarrow> job_trace bucket url tbl decode sizes job rh tr r"
  by (simp add: job_trace_def)

context aws_clients
begin

lemma logs_delete_quietly:
  "logs (\<lambda>tr r. r = Inr () \<and> reqs (\<lambda>q. q = DeleteMessage url rh) tr) (delete_quietly C rh)"
proof (cases "rh = []")
  case True
  then show ?thesis
    by (simp add: delete_quietly_def, intro logs_mono [OF logs_return]) (auto simp: silent_def)
next
  case False
  then show ?thesis
    by (simp add: delete_quietly_def, intro logs_mono [OF logs_bind [OF logs_attempt [OF talks_logs [OF delete]] logs_return]])
      (auto simp: silent_def elim!: seq_traceE intro: call_trace_reqs)
qed

text \<open>Counting, deleting quietly and reporting a final outcome.\<close>

lemma logs_count_job: "logs (silent (\<lambda>r. r = Inr ())) (count_job l)"
  unfolding count_job_def by (rule logs_modify) simp

lemma logs_observe_job: "logs (silent (\<lambda>r. r = Inr ())) (observe_job d)"
  unfolding observe_job_def by (rule logs_modify) simp

lemma logs_drop: "logs (\<lambda>tr r. r = Inr k) (bind (delete_quietly C rh) (\<lambda>_. return k))"
  by (rule logs_mono [OF logs_bind [OF logs_delete_quietly logs_return]]) (auto simp: silent_def elim!: seq_traceE)

lemma logs_count_drop: "logs (\<lambda>tr r. r = Inr k) (bind (count_job l) (\<lambda>_. bind (delete_quietly C rh) (\<lambda>_. return k)))"
  by (rule logs_mono [OF logs_bind [OF logs_count_job logs_drop]]) (auto simp: seq_silent)

lemma failed_settles: "settles tbl decode job (failed_request tbl job reason now, Returned v)"
  by (simp add: failed_request_def)

lemma failed_no_delete: "\<not> is_delete (failed_request tbl job reason now)" "\<not> is_delete (complete_request tbl job os ex wd ht fm ms now)"
  by (simp_all add: failed_request_def complete_request_def)

lemma complete_settles: "settles tbl decode job (complete_request tbl job os ex wd ht fm ms now, Returned v)"
  by (simp add: complete_request_def)

lemma closed_fail_job: "logs (closed (settles tbl decode job)) (fail_job C job rh reason)"
proof -
  let ?m = "\<lambda>tr r. \<exists>now. call_trace (failed_request tbl job reason now) no_answer tr r"
  have two: "logs (\<lambda>tr r'. case r of Inl e \<Rightarrow> tr = [] | Inr _ \<Rightarrow> r' = Inr JOB_FAILED)
      (case r of Inl e \<Rightarrow> if is_infra e then return RETRY else raise e
       | Inr _ \<Rightarrow> bind (count_job ''failed'') (\<lambda>_. bind (delete_quietly C rh) (\<lambda>_. return JOB_FAILED)))" for r :: "exn + unit"
    using logs_count_drop [of JOB_FAILED "''failed''" rh]
      logs_mono [OF logs_return, of RETRY "\<lambda>tr r'. tr = []"] logs_mono [OF logs_raise, of _ "\<lambda>tr r'. tr = []"]
    by (cases r) (auto simp: silent_def)
  show ?thesis
    unfolding fail_job_def
  proof (rule logs_mono [OF logs_bind [OF logs_attempt [OF talks_logs [OF mark_failed]] two]])
    fix tr r
    assume "seq_trace (\<lambda>tr r. \<exists>r'. r = Inr r' \<and> ?m tr r')
        (\<lambda>(r :: exn + unit) tr r'. case r of Inl e \<Rightarrow> tr = [] | Inr _ \<Rightarrow> r' = Inr JOB_FAILED) tr r"
    then obtain t1 t2 and r1 :: "exn + unit" where t1: "tr = t1 @ t2" "?m t1 r1" "case r1 of Inl e \<Rightarrow> t2 = [] | Inr _ \<Rightarrow> r = Inr JOB_FAILED"
      by (rule attempt_seqE)
    then obtain now where t: "tr = t1 @ t2" "call_trace (failed_request tbl job reason now) no_answer t1 r1"
      "case r1 of Inl e \<Rightarrow> t2 = [] | Inr _ \<Rightarrow> r = Inr JOB_FAILED" by blast
    have no: "reqs (\<lambda>q. \<not> is_delete q) t1" by (rule call_trace_reqs [OF t(2)]) (simp add: failed_no_delete)
    show "closed (settles tbl decode job) tr r"
    proof (cases r1)
      case (Inl e)
      with t no show ?thesis by (auto intro: closed_none)
    next
      case (Inr u)
      with t(2) have "(failed_request tbl job reason now, Returned PNone) \<in> set t1"
        by (auto dest: call_trace_ok)
      with t(1,3) no Inr show ?thesis by (auto intro: closed_settled failed_settles)
    qed
  qed
qed

lemma logs_worker_tick: "logs (only (render_request bucket url rh job)) (worker_tick env C wk rh)"
  unfolding worker_tick_def by (rule only_mono [OF logs_heartbeat]) simp

text \<open>After the render, whose log is \<open>t1\<close>: the completion and the deletion.\<close>

lemma logs_complete_and_delete:
  "logs (\<lambda>tr r. \<forall>t1. reqs (render_request bucket url rh job) t1 \<and> rendered bucket (thumbnail_sizes cfg) (jm_job_id job) t1 po \<longrightarrow>
       job_trace bucket url tbl decode (thumbnail_sizes cfg) job rh (t1 @ tr) r \<and> (\<forall>k. r = Inr k \<longrightarrow> k = COMPLETED))
    (bind (table_mark_complete C (jm_job_id job) (po_outputs po) (po_exif po) (po_width po) (po_height po) (po_format po) ms)
      (\<lambda>_. bind (queue_delete C rh) (\<lambda>_. bind (count_job ''complete'') (\<lambda>_. bind (observe_job el) (\<lambda>_. return COMPLETED)))))"
proof -
  let ?S = "settles tbl decode (jm_job_id job)" and ?R = "render_request bucket url rh job"
  let ?done = "\<lambda>ms now. complete_request tbl (jm_job_id job) (po_outputs po) (po_exif po) (po_width po) (po_height po) (po_format po) ms now"
  have books: "logs (silent (\<lambda>r. r = Inr COMPLETED)) (bind (count_job ''complete'') (\<lambda>_. bind (observe_job el) (\<lambda>_. return COMPLETED)))"
    by (rule logs_mono [OF logs_bind [OF logs_count_job logs_bind [OF logs_observe_job logs_return]]]) (auto simp: seq_silent)
  show ?thesis
  proof (rule logs_mono [OF logs_bind [OF talks_logs [OF mark_complete] logs_bind [OF talks_logs [OF delete] books]]], intro allI impI)
    fix tr t1 and r :: "exn + outcome_kind"
    assume "reqs ?R t1 \<and> rendered bucket (thumbnail_sizes cfg) (jm_job_id job) t1 po"
    then have t1: "reqs (\<lambda>q. \<not> is_delete q) t1" "rendered bucket (thumbnail_sizes cfg) (jm_job_id job) t1 po"
      by (auto intro: reqs_mono dest: render_no_delete)
    assume "seq_trace (\<lambda>tr (r :: exn + unit). \<exists>now. call_trace (?done ms now) no_answer tr r)
        (\<lambda>_. seq_trace (call_trace (DeleteMessage url rh) no_answer :: event list \<Rightarrow> exn + unit \<Rightarrow> bool)
           (\<lambda>_. silent (\<lambda>r. r = Inr COMPLETED))) tr r"
    then show "job_trace bucket url tbl decode (thumbnail_sizes cfg) job rh (t1 @ tr) r \<and> (\<forall>k. r = Inr k \<longrightarrow> k = COMPLETED)"
    proof (cases rule: seq_traceE)
      case (left e)
      then have "reqs (\<lambda>q. \<not> is_delete q) tr" by (auto intro: call_trace_reqs simp: failed_no_delete)
      with t1 left show ?thesis by (auto intro!: job_trace_closed closed_none)
    next
      case (right t2 x t3)
      then obtain now where now: "call_trace (?done ms now) no_answer t2 (Inr x)" by blast
      then have t2: "reqs (\<lambda>q. \<not> is_delete q) t2" "(?done ms now, Returned PNone) \<in> set t2"
          "\<forall>ev \<in> set t2. fst ev = ?done ms now"
        by (auto dest: call_trace_ok call_trace_request intro: call_trace_reqs simp: failed_no_delete)
      have g: "closed ?S ((t1 @ t2) @ t3) r" if "undeleted t3 \<or> r = Inr COMPLETED"
        using that t1 t2 complete_settles
        by (elim disjE) (auto simp del: append_assoc intro!: closed_undeleted closed_settled [where k = COMPLETED])
      from right(3) show ?thesis
      proof (cases rule: seq_traceE)
        case (left e)
        then have "undeleted t3" by (auto simp: undeleted_def call_trace_def)
        with g right(1) left show ?thesis by (auto intro!: job_trace_closed)
      next
        case (right t4 y t5)
        then have r: "r = Inr COMPLETED" "(DeleteMessage url rh, Returned PNone) \<in> set t3"
            "\<forall>ev \<in> set t3. fst ev = DeleteMessage url rh"
          by (auto simp: silent_def dest: call_trace_ok call_trace_request)
        have "completion bucket url tbl (thumbnail_sizes cfg) job rh (t1 @ t2 @ t3)"
          unfolding completion_def
          by (intro exI [of _ t1] exI [of _ t2] exI [of _ t3] exI [of _ po] exI [of _ ms] exI [of _ now]) (simp add: t1 t2 r)
        with g r \<open>tr = t2 @ t3\<close> show ?thesis by (simp add: job_trace_def)
      qed
    qed
  qed
qed

lemma logs_render_and_complete:
  "logs (\<lambda>tr r. job_trace bucket url tbl decode (thumbnail_sizes cfg) job rh tr r \<and> (\<forall>k. r = Inr k \<longrightarrow> k = COMPLETED))
     (render_and_complete env cfg C wk job rh started)"
proof -
  let ?R = "render_request bucket url rh job"
  let ?T = "\<lambda>tr r. job_trace bucket url tbl decode (thumbnail_sizes cfg) job rh tr r \<and> (\<forall>k. r = Inr k \<longrightarrow> k = COMPLETED)"
  let ?render = "\<lambda>tr r. only ?R tr r \<and> (\<forall>po. r = Inr po \<longrightarrow> rendered bucket (thumbnail_sizes cfg) (jm_job_id job) tr po)"
  show ?thesis
    unfolding render_and_complete_def Let_def
  proof (rule logs_mono [OF logs_bind [OF logs_render_job [OF logs_worker_tick] logs_bind [OF logs_ask logs_complete_and_delete]]])
    fix tr and r :: "exn + outcome_kind"
    assume "seq_trace ?render (\<lambda>po. seq_trace (silent (\<lambda>r. \<exists>x :: rat. r = Inr x))
        (\<lambda>_ tr r. \<forall>t1. reqs ?R t1 \<and> rendered bucket (thumbnail_sizes cfg) (jm_job_id job) t1 po \<longrightarrow> ?T (t1 @ tr) r)) tr r"
    then show "?T tr r"
    proof (cases rule: seq_traceE)
      case (left e)
      then show ?thesis
        by (auto simp: only_def intro!: job_trace_closed closed_none elim!: reqs_mono dest: render_no_delete)
    next
      case (right t1 po t2)
      then show ?thesis by (auto simp: seq_silent only_def)
    qed
  qed
qed

lemma closed_settle_failure:
  "logs (\<lambda>tr r. closed (settles tbl decode (jm_job_id job)) tr r) (settle_failure env C job rh started e)"
proof -
  have "logs (\<lambda>tr r. closed (settles tbl decode (jm_job_id job)) tr r)
     (bind (ask (clock env)) (\<lambda>ended. bind (observe_job (ended - started)) (\<lambda>_. fail_job C (jm_job_id job) rh reason)))" for reason
    by (rule logs_mono [OF logs_bind [OF logs_ask logs_bind [OF logs_observe_job closed_fail_job]]]) (auto simp: seq_silent)
  moreover have "logs (\<lambda>tr r. closed (settles tbl decode (jm_job_id job)) tr r) (return RETRY :: ('w, outcome_kind) prog)"
    by (rule logs_mono [OF logs_return]) (auto simp: silent_def)
  ultimately show ?thesis by (simp add: settle_failure_def)
qed

lemma fail_job_not_completed: "logs (\<lambda>tr r. r \<noteq> Inr COMPLETED) (fail_job C job_id rh reason)"
proof -
  have two: "logs (\<lambda>tr r'. r' \<noteq> Inr COMPLETED)
      (case r of Inl e \<Rightarrow> if is_infra e then return RETRY else raise e
       | Inr _ \<Rightarrow> bind (count_job ''failed'') (\<lambda>_. bind (delete_quietly C rh) (\<lambda>_. return JOB_FAILED)))" for r :: "exn + unit"
    using logs_mono [OF logs_count_drop [of JOB_FAILED "''failed''" rh], of "\<lambda>tr r'. r' \<noteq> Inr COMPLETED"]
      logs_mono [OF logs_return, of RETRY "\<lambda>tr r'. r' \<noteq> Inr COMPLETED"]
      logs_mono [OF logs_raise, of _ "\<lambda>tr r'. r' \<noteq> Inr COMPLETED"]
    by (cases r) (auto simp: silent_def)
  show ?thesis
    unfolding fail_job_def
    by (rule logs_mono [OF logs_bind [OF logs_attempt [OF talks_logs [OF mark_failed]] two]]) (auto elim!: seq_traceE)
qed

lemma settle_failure_not_completed: "logs (\<lambda>tr r. r \<noteq> Inr COMPLETED) (settle_failure env C job rh started e)"
proof -
  have "logs (\<lambda>tr r. r \<noteq> Inr COMPLETED)
     (bind (ask (clock env)) (\<lambda>ended. bind (observe_job (ended - started)) (\<lambda>_. fail_job C (jm_job_id job) rh reason)))" for reason
    by (rule logs_mono [OF logs_bind [OF logs_ask logs_bind [OF logs_observe_job fail_job_not_completed]]]) (auto simp: seq_silent)
  moreover have "logs (\<lambda>tr r. r \<noteq> Inr COMPLETED) (return RETRY :: ('w, outcome_kind) prog)"
    by (rule logs_mono [OF logs_return]) (auto simp: silent_def)
  ultimately show ?thesis by (simp add: settle_failure_def)
qed

lemma logs_work: "logs (job_trace bucket url tbl decode (thumbnail_sizes cfg) job rh) (work env cfg C wk job rh)"
proof -
  let ?J = "job_trace bucket url tbl decode (thumbnail_sizes cfg) job rh"
  let ?A = "\<lambda>tr r. ?J tr r \<and> (\<forall>k. r = Inr k \<longrightarrow> k = COMPLETED)"
  let ?B = "\<lambda>(r :: exn + outcome_kind) tr r'. case r of Inr k \<Rightarrow> tr = [] \<and> r' = Inr k
      | Inl e \<Rightarrow> closed (settles tbl decode (jm_job_id job)) tr r' \<and> r' \<noteq> Inr COMPLETED"
  have two: "logs (?B r) (case r of Inr outcome \<Rightarrow> return outcome | Inl e \<Rightarrow> settle_failure env C job rh started e)" for r started
    using logs_conj [OF closed_settle_failure settle_failure_not_completed, of job env rh started]
      logs_mono [OF logs_return, of _ "?B r"]
    by (cases r) (auto simp: silent_def)
  have body: "logs ?J (bind (attempt (render_and_complete env cfg C wk job rh started)) (\<lambda>r. case r of
             Inr outcome \<Rightarrow> return outcome | Inl e \<Rightarrow> settle_failure env C job rh started e))" for started
  proof (rule logs_mono [OF logs_bind [OF logs_attempt [OF logs_render_and_complete] two]])
    fix tr r
    assume "seq_trace (\<lambda>tr r. \<exists>r'. r = Inr r' \<and> ?A tr r') ?B tr r"
    then obtain t1 t2 r1 where t: "tr = t1 @ t2" "?A t1 r1" "?B r1 t2 r" by (rule attempt_seqE)
    show "?J tr r"
    proof (cases r1)
      case (Inl e)
      with t show ?thesis by (auto simp: job_trace_def intro: closed_append)
    next
      case (Inr k)
      with t show ?thesis by auto
    qed
  qed
  have quiet: "logs (silent (\<lambda>r. r = Inr ())) (modify (\<lambda>s. s\<lparr>jobs_inflight := g (jobs_inflight s)\<rparr>))" for g
    by (rule logs_modify) simp
  show ?thesis
    unfolding work_def
    by (rule logs_mono [OF logs_bind [OF quiet logs_bind [OF logs_ask logs_finalize [OF body quiet]]]])
      (auto simp: seq_silent)
qed

lemma job_trace_retry:
  "logs (\<lambda>tr r. tr = [] \<and> r \<noteq> Inr COMPLETED) ((if is_infra e then return RETRY else raise e) :: ('w, outcome_kind) prog)"
  by (cases "is_infra e")
    (auto simp: silent_def intro: logs_mono [OF logs_return] logs_mono [OF logs_raise])

lemma job_trace_settled:
  "reqs (\<lambda>q. \<not> is_delete q) t1 \<Longrightarrow> ev \<in> set t1 \<Longrightarrow> settles tbl decode (jm_job_id job) ev \<Longrightarrow>
   k \<noteq> RETRY \<Longrightarrow> k \<noteq> COMPLETED \<Longrightarrow> job_trace bucket url tbl decode sizes job rh (t1 @ t2) (Inr k)"
  by (rule job_trace_closed [OF closed_settled]) auto

lemma logs_claim_and_work:
  "logs (job_trace bucket url tbl decode (thumbnail_sizes cfg) job rh) (claim_and_work env cfg C wk job rh)"
proof -
  let ?J = "job_trace bucket url tbl decode (thumbnail_sizes cfg) job rh"
  let ?B = "\<lambda>(r :: exn + bool) tr r'. case r of Inl e \<Rightarrow> tr = [] \<and> r' \<noteq> Inr COMPLETED
      | Inr won \<Rightarrow> if won then ?J tr r' else r' = Inr SKIPPED_DUPLICATE"
  have two: "logs (?B r) (case r of Inl e \<Rightarrow> if is_infra e then return RETRY else raise e
       | Inr won \<Rightarrow> if \<not> won then bind (delete_quietly C rh) (\<lambda>_. return SKIPPED_DUPLICATE) else work env cfg C wk job rh)" for r
    using job_trace_retry logs_drop logs_work [of cfg job rh env wk] by (cases r) (auto simp del: split_paired_All)
  show ?thesis
    unfolding claim_and_work_def
  proof (rule logs_mono [OF logs_bind [OF logs_attempt [OF talks_logs [OF mark_processing]] two]])
    fix tr r
    assume "seq_trace (\<lambda>tr r. \<exists>r'. r = Inr r' \<and> processing_trace tbl (jm_job_id job) tr r') ?B tr r"
    then obtain t1 t2 r1 where t: "tr = t1 @ t2" "processing_trace tbl (jm_job_id job) t1 r1" "?B r1 t2 r" by (rule attempt_seqE)
    from t(2) obtain now where now: "\<forall>ev \<in> set t1. fst ev = processing_request tbl (jm_job_id job) now"
      "r1 = Inr False \<longrightarrow> (\<exists>e. (processing_request tbl (jm_job_id job) now, Raised e) \<in> set t1 \<and> conditional_check_failed e)"
      using processing_traceD by blast
    then have no: "reqs (\<lambda>q. \<not> is_delete q) t1" by (auto simp: reqs_def processing_request_def)
    show "?J tr r"
    proof (cases r1)
      case (Inl e)
      with t no show ?thesis by (auto intro: job_trace_closed closed_none)
    next
      case (Inr won)
      show ?thesis
      proof (cases won)
        case True
        with t no Inr show ?thesis by (auto intro: job_trace_prefix)
      next
        case False
        with now(2) Inr obtain e where "(processing_request tbl (jm_job_id job) now, Raised e) \<in> set t1" "conditional_check_failed e"
          by auto
        moreover from this have "settles tbl decode (jm_job_id job) (processing_request tbl (jm_job_id job) now, Raised e)"
          by (simp add: processing_request_def)
        ultimately show ?thesis using t no Inr False by (auto intro: job_trace_settled)
      qed
    qed
  qed
qed

lemma logs_process_job:
  "logs (job_trace bucket url tbl decode (thumbnail_sizes cfg) job rh) (process_job env cfg C wk job rh)"
proof -
  let ?J = "job_trace bucket url tbl decode (thumbnail_sizes cfg) job rh"
  let ?B = "\<lambda>(r :: exn + job_record option) tr r'. case r of Inl e \<Rightarrow> tr = [] \<and> r' \<noteq> Inr COMPLETED
      | Inr None \<Rightarrow> r' = Inr JOB_FAILED
      | Inr (Some rc) \<Rightarrow> if jr_status rc = COMPLETE then r' = Inr SKIPPED_DUPLICATE else ?J tr r'"
  have fail: "logs ?J (fail_job C (jm_job_id job) rh reason)" for reason
    by (rule logs_mono [OF logs_conj [OF closed_fail_job fail_job_not_completed]]) (auto intro: job_trace_closed)
  have two: "logs (?B r) (case r of Inl e \<Rightarrow> if is_infra e then return RETRY else raise e
       | Inr None \<Rightarrow> bind (count_job ''failed'') (\<lambda>_. bind (delete_quietly C rh) (\<lambda>_. return JOB_FAILED))
       | Inr (Some rc) \<Rightarrow>
           if jr_status rc = COMPLETE then bind (delete_quietly C rh) (\<lambda>_. return SKIPPED_DUPLICATE)
           else if jm_bucket job \<noteq> s3_bucket cfg
           then fail_job C (jm_job_id job) rh (''message references unexpected bucket '' @ py_repr (jm_bucket job))
           else claim_and_work env cfg C wk job rh)" for r
    using job_trace_retry logs_drop logs_count_drop fail logs_claim_and_work [of cfg job rh env wk]
    by (auto split: sum.split option.split)
  show ?thesis
    unfolding process_job_def
  proof (rule logs_mono [OF logs_bind [OF logs_attempt [OF talks_logs [OF get_job]] two]])
    let ?q = "GetItem tbl (jm_job_id job) (Some True)"
    fix tr r
    assume "seq_trace (\<lambda>tr r. \<exists>r'. r = Inr r' \<and> get_trace decode ?q tr r') ?B tr r"
    then obtain t1 t2 r1 where t: "tr = t1 @ t2" "get_trace decode ?q t1 r1" "?B r1 t2 r" by (rule attempt_seqE)
    then have no: "reqs (\<lambda>q. \<not> is_delete q) t1" by (auto simp: reqs_def get_trace_def)
    show "?J tr r"
    proof (cases "r1 = Inr None \<or> (\<exists>rc. r1 = Inr (Some rc) \<and> jr_status rc = COMPLETE)")
      case True
      then have "\<exists>ev \<in> set t1. settles tbl decode (jm_job_id job) ev"
        using get_trace_settles [OF t(2)] by blast
      with t no True show ?thesis by (auto intro: job_trace_settled)
    next
      case False
      with t no show ?thesis
        by (auto split: sum.splits option.splits intro: job_trace_prefix job_trace_closed closed_none)
    qed
  qed
qed

end

end
