(* ===== verification/Deliveries.thy ===== *)
theory Deliveries
  imports Consumer
begin

text \<open>
  What a delivery of an SQS message means: when the message may be deleted, what each outcome says
  about the table and the bucket, and what it adds to the worker's metrics. The facts are proved from
  the contract \<open>aws_clients\<close> and stated for the clients the worker builds.
\<close>

section \<open>The log of one delivery\<close>

abbreviation receipt :: "sqs_message \<Rightarrow> string" where
  "receipt m \<equiv> opt_get [] (ReceiptHandle m)"

definition delivery_trace ::
  "'w env \<Rightarrow> string \<Rightarrow> string \<Rightarrow> string \<Rightarrow> (pyval dict \<Rightarrow> exn + job_record) \<Rightarrow> int list \<Rightarrow> sqs_message \<Rightarrow>
   event list \<Rightarrow> exn + outcome_kind \<Rightarrow> bool" where
  "delivery_trace env bucket url tbl decode sizes m tr r \<longleftrightarrow>
     (case parse_message env (opt_get [] (Body m)) of
        Inl e \<Rightarrow> if is_parse_error e then r = Inr MALFORMED \<and> reqs (\<lambda>q. q = DeleteMessage url (receipt m)) tr
                 else r = Inl e \<and> tr = []
      | Inr job \<Rightarrow>
          if MESSAGE_SCHEMA_VERSION < jm_schema_version job then r = Inr RETRY \<and> tr = []
          else job_trace bucket url tbl decode sizes job (receipt m) tr r)"

context aws_clients
begin

lemma logs_handle_message:
  "logs (delivery_trace env bucket url tbl decode (thumbnail_sizes cfg) m) (handle_message env cfg C wk m)"
proof (cases "parse_message env (opt_get [] (Body m))")
  case (Inl e)
  have "logs (\<lambda>tr r. r = Inr MALFORMED \<and> reqs (\<lambda>q. q = DeleteMessage url (receipt m)) tr)
     (bind (count_job ''failed'') (\<lambda>_. bind (delete_quietly C (receipt m)) (\<lambda>_. return MALFORMED)))"
    by (rule logs_mono [OF logs_bind [OF logs_count_job logs_bind [OF logs_delete_quietly logs_return]]])
      (auto simp: seq_silent silent_def elim!: seq_traceE)
  moreover have "logs (\<lambda>tr r. r = Inl e \<and> tr = []) (raise e :: ('w, outcome_kind) prog)"
    by (rule logs_mono [OF logs_raise]) (auto simp: silent_def)
  moreover have "delivery_trace env bucket url tbl decode (thumbnail_sizes cfg) m =
      (\<lambda>tr r. if is_parse_error e then r = Inr MALFORMED \<and> reqs (\<lambda>q. q = DeleteMessage url (receipt m)) tr
        else r = Inl e \<and> tr = [])"
    using Inl by (intro ext) (simp add: delivery_trace_def)
  ultimately show ?thesis
    using Inl by (simp add: handle_message_def)
next
  case (Inr job)
  have new: "logs (\<lambda>tr r. r = Inr RETRY \<and> tr = []) (return RETRY :: ('w, outcome_kind) prog)"
    by (rule logs_mono [OF logs_return]) (auto simp: silent_def)
  have quiet: "logs (silent (\<lambda>r. r = Inr ())) (modify (\<lambda>s. s\<lparr>log_context := g (log_context s)\<rparr>))" for g
    by (rule logs_modify) simp
  have "logs (job_trace bucket url tbl decode (thumbnail_sizes cfg) job (receipt m))
     (bind (bind_job_context (jm_job_id job)) (\<lambda>_. finalize (process_job env cfg C wk job (receipt m)) clear_job_context))"
    unfolding bind_job_context_def clear_job_context_def
    by (rule logs_mono [OF logs_bind [OF quiet logs_finalize [OF logs_process_job quiet]]]) (auto simp: seq_silent)
  moreover have "delivery_trace env bucket url tbl decode (thumbnail_sizes cfg) m =
      (\<lambda>tr r. if MESSAGE_SCHEMA_VERSION < jm_schema_version job then r = Inr RETRY \<and> tr = []
         else job_trace bucket url tbl decode (thumbnail_sizes cfg) job (receipt m) tr r)"
    using Inr by (intro ext) (simp add: delivery_trace_def)
  ultimately show ?thesis
    using new Inr by (simp add: handle_message_def)
qed

end

section \<open>What a delivery adds to the metrics\<close>

type_synonym job_books = "(string \<Rightarrow> nat) \<times> int"

definition job_view :: "'w st \<Rightarrow> job_books" where
  "job_view s = (jobs_processed_total s, jobs_inflight s)"

fun bump :: "exn + outcome_kind \<Rightarrow> job_books \<Rightarrow> job_books" where
  "bump (Inr COMPLETED) (c, i) = (inc ''complete'' c, i)"
| "bump (Inr JOB_FAILED) (c, i) = (inc ''failed'' c, i)"
| "bump (Inr MALFORMED) (c, i) = (inc ''failed'' c, i)"
| "bump r (c, i) = (c, i)"

lemma book_view_job [simp]: "book_view job_view"
  by (simp add: book_view_def job_view_def same_books_def)

lemma bump_simps [simp]: "bump (Inl e) a = a" "bump (Inr RETRY) a = a" "bump (Inr SKIPPED_DUPLICATE) a = a"
  by (cases a; simp)+

lemma tallies_count:
  "tallies job_view (\<lambda>r a b. r = Inr () \<and> b = (inc l (fst a), snd a)) (count_job l)"
  by (simp add: tallies_def count_job_def wp_modify job_view_def)

lemma keeps_cleanup: "book_view f \<Longrightarrow> (\<And>s ds. f (s\<lparr>temp_dirs := ds\<rparr>) = f s) \<Longrightarrow> keeps f (cleanup_workspace env path)"
  by (simp add: cleanup_workspace_def drop_dir_def keeps_intros)

lemma keeps_stage:
  "book_view f \<Longrightarrow> (\<And>s ds. f (s\<lparr>stage_durations := ds\<rparr>) = f s) \<Longrightarrow> keeps f body \<Longrightarrow> keeps f (stage env name body)"
  by (simp add: stage_def keeps_intros)

lemma keeps_temp_workspace:
  "book_view f \<Longrightarrow> (\<And>s ds. f (s\<lparr>temp_dirs := ds\<rparr>) = f s) \<Longrightarrow> (\<And>path. keeps f (body path)) \<Longrightarrow>
   keeps f (temp_workspace env pre body)"
  by (simp add: temp_workspace_def keeps_intros keeps_cleanup)

context aws_clients
begin

lemma keeps_delete_quietly: "book_view f \<Longrightarrow> keeps f (delete_quietly C rh)"
  by (simp add: delete_quietly_def keeps_intros keeps_talks [OF _ delete])

lemma tallies_delete_quietly: "book_view f \<Longrightarrow> tallies f (\<lambda>r a b. r = Inr () \<and> b = a) (delete_quietly C rh)"
  by (auto simp: delete_quietly_def intro!: tallies_return tallies_after_attempt keeps_talks [OF _ delete])

lemma keeps_beats: "book_view f \<Longrightarrow> keeps f (beats C rh ext n)"
  by (induction n) (simp_all add: beat_def keeps_intros keeps_talks [OF _ change_visibility])

lemma keeps_tick: "book_view f \<Longrightarrow> keeps f (worker_tick env C wk rh)"
  by (simp add: worker_tick_def heartbeat_def keeps_intros keeps_beats)

lemma keeps_upload_thumbs: "book_view f \<Longrightarrow> keeps f tick \<Longrightarrow> keeps f (upload_thumbs C tick job_id ts os)"
  by (induction ts arbitrary: os) (simp_all add: keeps_intros keeps_talks [OF _ put_bytes])

text \<open>The body of the render, without the workspace around it.\<close>

lemma keeps_render_body:
  assumes f: "book_view f" "\<And>s ds. f (s\<lparr>stage_durations := ds\<rparr>) = f s" and tick: "keeps f tick"
  shows "keeps f (let original = workspace @ ''/original'' in
       bind (stage env STAGE_DOWNLOAD (store_download_to C (jm_input_key job) original)) (\<lambda>downloaded.
       bind tick (\<lambda>_.
       bind (stage env STAGE_PROCESS (render_thumbnails env (FromPath original) sizes)) (\<lambda>(thumbnails, exif, width, height, image_format).
       bind tick (\<lambda>_.
       bind (stage env STAGE_UPLOAD (upload_thumbs C tick (jm_job_id job) thumbnails [])) (\<lambda>outputs.
         return \<lparr>po_outputs = outputs, po_exif = exif, po_width = width, po_height = height,
                 po_format = image_format\<rparr>))))))"
proof -
  have "keeps f (case x of (thumbnails, exif, width, height, image_format) \<Rightarrow>
       bind tick (\<lambda>_.
       bind (stage env STAGE_UPLOAD (upload_thumbs C tick (jm_job_id job) thumbnails [])) (\<lambda>outputs.
         return \<lparr>po_outputs = outputs, po_exif = exif, po_width = width, po_height = height,
                 po_format = image_format\<rparr>)))" for x
    by (cases x) (simp add: keeps_intros keeps_stage keeps_upload_thumbs f tick)
  then show ?thesis
    by (simp add: Let_def keeps_bind keeps_stage f tick keeps_talks [OF _ download] render_thumbnails_def keeps_ask_io keeps_basic)
qed

lemma keeps_render_job:
  assumes f: "book_view f" "\<And>s ds. f (s\<lparr>stage_durations := ds\<rparr>) = f s" "\<And>s ds. f (s\<lparr>temp_dirs := ds\<rparr>) = f s"
  shows "keeps f (render_job env C (worker_tick env C wk rh) sizes job)"
  unfolding render_job_def
  by (intro keeps_temp_workspace keeps_render_body keeps_tick f)

lemma tallies_drop: "k = RETRY \<or> k = SKIPPED_DUPLICATE \<Longrightarrow>
   tallies job_view (\<lambda>r a b. b = bump r a) (bind (delete_quietly C rh) (\<lambda>_. return k))"
  by (rule tallies_after [OF keeps_delete_quietly]) (auto intro!: tallies_return)

lemma tallies_count_drop: "k = JOB_FAILED \<or> k = MALFORMED \<Longrightarrow>
   tallies job_view (\<lambda>r a b. b = bump r a) (bind (count_job ''failed'') (\<lambda>_. bind (delete_quietly C rh) (\<lambda>_. return k)))"
proof (rule tallies_bind [OF tallies_count])
  show "tallies job_view (\<lambda>r a b. r = Inr k \<and> b = a) (bind (delete_quietly C rh) (\<lambda>_. return k))" for x :: unit
    by (rule tallies_bind [OF tallies_delete_quietly tallies_return, where ?B2.0 = "\<lambda>_ r a b. r = Inr k \<and> b = a"]) auto
qed auto

lemma tallies_infra: "tallies job_view (\<lambda>r a b. b = bump r a) (if is_infra e then return RETRY else raise e)"
  by (auto intro: tallies_return tallies_raise)

lemma tallies_fail_job: "tallies job_view (\<lambda>r a b. b = bump r a) (fail_job C job_id rh reason)"
  unfolding fail_job_def
  by (rule tallies_after_attempt [OF keeps_talks [OF book_view_job mark_failed]])
    (auto intro: tallies_return tallies_raise tallies_count_drop split: sum.split)

text \<open>The body of the \<open>try\<close> counts one completion or, if it raises, nothing.\<close>

lemma tallies_render_and_complete:
  "tallies job_view (\<lambda>r a b. (\<forall>k. r = Inr k \<longrightarrow> k = COMPLETED) \<and> b = bump r a) (render_and_complete env cfg C wk job rh started)"
proof -
  have last: "tallies job_view (\<lambda>r a b. r = Inr COMPLETED \<and> b = a) (bind (observe_job el) (\<lambda>_. return COMPLETED))" for el
    by (simp add: tallies_def wp_simps observe_job_def job_view_def)
  have count: "tallies job_view (\<lambda>r a b. (\<forall>k. r = Inr k \<longrightarrow> k = COMPLETED) \<and> b = bump r a)
      (bind (count_job ''complete'') (\<lambda>_. bind (observe_job el) (\<lambda>_. return COMPLETED)))" for el
    by (rule tallies_bind [OF tallies_count last]) auto
  show ?thesis
    unfolding render_and_complete_def Let_def
    by (intro tallies_after [OF keeps_render_job] tallies_after [OF keeps_ask] tallies_after [OF keeps_talks [OF book_view_job mark_complete]]
        tallies_after [OF keeps_talks [OF book_view_job delete]] count)
      (simp_all add: job_view_def)
qed

lemma tallies_settle_failure: "tallies job_view (\<lambda>r a b. b = bump r a) (settle_failure env C job rh started e)"
proof -
  have "keeps job_view (observe_job d)" for d
    by (simp add: observe_job_def keeps_modify job_view_def)
  then show ?thesis
    by (auto simp: settle_failure_def intro!: tallies_after [OF keeps_ask] tallies_after [where m = "observe_job _"]
        tallies_fail_job tallies_return)
qed

lemma tallies_work: "tallies job_view (\<lambda>r a b. b = bump r a) (work env cfg C wk job rh)"
proof -
  have body: "tallies job_view (\<lambda>r a b. b = bump r a)
      (bind (attempt (render_and_complete env cfg C wk job rh started)) (\<lambda>r. case r of
             Inr outcome \<Rightarrow> return outcome | Inl e \<Rightarrow> settle_failure env C job rh started e))" for started
  proof (rule tallies_bind [where ?B1.0 = "\<lambda>r a b. \<exists>r'. r = Inr r' \<and> (\<forall>k. r' = Inr k \<longrightarrow> k = COMPLETED) \<and> b = bump r' a"
        and ?B2.0 = "\<lambda>r' r a b. case r' of Inr k \<Rightarrow> r = Inr k \<and> b = a | Inl e \<Rightarrow> b = bump r a"])
    show "tallies job_view (\<lambda>r a b. \<exists>r'. r = Inr r' \<and> (\<forall>k. r' = Inr k \<longrightarrow> k = COMPLETED) \<and> b = bump r' a)
        (attempt (render_and_complete env cfg C wk job rh started))"
      using tallies_render_and_complete [of env cfg wk job rh started] by (simp add: tallies_def wp_attempt)
  qed (auto intro: tallies_return tallies_settle_failure split: sum.split_asm sum.split)
  show ?thesis
    unfolding tallies_def work_def wp_bind wp_modify
  proof (intro allI, simp, rule wp_tallies [OF tallies_ask [OF book_view_job]])
    fix s s1 :: "'w st" and x :: "exn + rat"
    assume "(\<exists>y. x = Inr y) \<and> job_view s1 = job_view (s\<lparr>jobs_inflight := jobs_inflight s + 1\<rparr>)"
    then obtain y where x: "x = Inr y" and a: "job_view s1 = job_view (s\<lparr>jobs_inflight := jobs_inflight s + 1\<rparr>)" by blast
    have fin: "wp (finalize m (modify (\<lambda>s. s\<lparr>jobs_inflight := jobs_inflight s - 1\<rparr>)))
         (\<lambda>r s'. job_view s' = bump r (job_view s)) s1"
      if "tallies job_view (\<lambda>r a b. b = bump r a) m" for m
      unfolding wp_finalize
    proof (rule wp_tallies [OF that])
      fix r :: "exn + outcome_kind" and s2
      assume "job_view s2 = bump r (job_view s1)"
      then have "job_view (s2\<lparr>jobs_inflight := jobs_inflight s2 - 1\<rparr>) = bump r (job_view s)"
        using a by (cases "(r, job_view s)" rule: bump.cases) (auto simp: job_view_def)
      then show "wp (modify (\<lambda>s. s\<lparr>jobs_inflight := jobs_inflight s - 1\<rparr>))
          (\<lambda>rf s''. case rf of Inl e \<Rightarrow> job_view s'' = bump (Inl e) (job_view s) | Inr _ \<Rightarrow> job_view s'' = bump r (job_view s)) s2"
        by (simp add: wp_modify)
    qed
    show "case x of Inl e \<Rightarrow> job_view s1 = bump (Inl e) (job_view s)
        | Inr started \<Rightarrow> wp (finalize (bind (attempt (render_and_complete env cfg C wk job rh started)) (\<lambda>r. case r of
             Inl e \<Rightarrow> settle_failure env C job rh started e | Inr outcome \<Rightarrow> return outcome))
            (modify (\<lambda>s. s\<lparr>jobs_inflight := jobs_inflight s - 1\<rparr>)))
          (\<lambda>r s'. job_view s' = bump r (job_view s)) s1"
      using fin [OF body] by (simp add: x)
  qed
qed

lemma tallies_process_job: "tallies job_view (\<lambda>r a b. b = bump r a) (process_job env cfg C wk job rh)"
proof -
  have claim: "tallies job_view (\<lambda>r a b. b = bump r a) (claim_and_work env cfg C wk job rh)"
    unfolding claim_and_work_def
    by (rule tallies_after_attempt [OF keeps_talks [OF book_view_job mark_processing]])
      (auto intro: tallies_return tallies_raise tallies_drop tallies_work split: sum.split)
  show ?thesis
    unfolding process_job_def
    by (rule tallies_after_attempt [OF keeps_talks [OF book_view_job get_job]])
      (auto intro: tallies_return tallies_raise tallies_drop tallies_count_drop tallies_fail_job claim split: sum.split option.split)
qed

lemma tallies_handle_message: "tallies job_view (\<lambda>r a b. b = bump r a) (handle_message env cfg C wk m)"
proof -
  have ctx: "tallies job_view (\<lambda>r a b. r = Inr () \<and> b = a) (modify (\<lambda>s. s\<lparr>log_context := g (log_context s)\<rparr>))" for g
    by (simp add: tallies_def wp_modify job_view_def)
  have fin: "tallies job_view (\<lambda>r a b. b = bump r a) (finalize (process_job env cfg C wk job rh) clear_job_context)" for job rh
    unfolding tallies_def wp_finalize clear_job_context_def
    by (intro allI wp_tallies [OF tallies_process_job] wp_tallies [OF ctx]) auto
  have "tallies job_view (\<lambda>r a b. b = bump r a)
      (bind (bind_job_context (jm_job_id job)) (\<lambda>_. finalize (process_job env cfg C wk job rh) clear_job_context))" for job rh
    unfolding bind_job_context_def by (rule tallies_bind [OF ctx fin]) auto
  then show ?thesis
    by (auto simp: handle_message_def Let_def intro: tallies_return tallies_raise tallies_count_drop split: sum.split)
qed

end

section \<open>Scope: what a delivery may touch\<close>

fun is_s3 :: "request \<Rightarrow> bool" where
  "is_s3 (PutObject b k d t) = True"
| "is_s3 (GetObject b k) = True"
| "is_s3 (ReadBody b k) = True"
| "is_s3 (HeadBucket b) = True"
| "is_s3 q = False"

text \<open>The table accepted the claim of the job.\<close>

fun claims :: "string \<Rightarrow> string \<Rightarrow> event \<Rightarrow> bool" where
  "claims tbl job (UpdateItem t j u c ns vs, Returned v) \<longleftrightarrow>
     t = tbl \<and> j = job \<and> u = PROCESSING_UPDATE \<and> c = Some PROCESSING_CONDITION"
| "claims tbl job ev \<longleftrightarrow> False"

fun delivery_request :: "string \<Rightarrow> string \<Rightarrow> string \<Rightarrow> string \<Rightarrow> job_message \<Rightarrow> request \<Rightarrow> bool" where
  "delivery_request bucket url tbl rh job (GetItem t j c) \<longleftrightarrow> t = tbl \<and> j = jm_job_id job"
| "delivery_request bucket url tbl rh job (UpdateItem t j u c ns vs) \<longleftrightarrow>
     table_write tbl (jm_job_id job) (UpdateItem t j u c ns vs)"
| "delivery_request bucket url tbl rh job (DeleteMessage u h) \<longleftrightarrow> u = url \<and> h = rh"
| "delivery_request bucket url tbl rh job q \<longleftrightarrow> render_request bucket url rh job q"

lemma render_delivery: "render_request bucket url rh job q \<Longrightarrow> delivery_request bucket url tbl rh job q"
  by (cases q) auto

context aws_clients
begin

text \<open>The steps around the claim, for any property of requests they all have.\<close>

lemma only_delete_quietly: "P (DeleteMessage url rh) \<Longrightarrow> logs (only P) (delete_quietly C rh)"
  by (rule logs_mono [OF logs_delete_quietly]) (auto simp: only_def elim: reqs_mono)

lemma only_count: "logs (only P) (count_job l)" "logs (only P) (observe_job d)"
  by (simp_all add: count_job_def observe_job_def only_intros)

lemma only_fail_job:
  assumes "P (DeleteMessage url rh)" "\<And>now. P (failed_request tbl job reason now)"
  shows "logs (only P) (fail_job C job rh reason)"
proof -
  have "logs (only P) (table_mark_failed C job reason)"
    by (rule logs_mono [OF talks_logs [OF mark_failed]]) (auto simp: only_def intro: call_trace_reqs assms)
  then show ?thesis
    unfolding fail_job_def
    by (intro only_bind only_attempt) (auto intro!: only_intros only_count only_delete_quietly assms split: sum.split)
qed

lemma only_mark_processing: "(\<And>now. P (processing_request tbl job now)) \<Longrightarrow> logs (only P) (table_mark_processing C job)"
  by (rule logs_mono [OF talks_logs [OF mark_processing]]) (auto simp: only_def reqs_def dest!: processing_traceD)

lemma only_get_job: "P (GetItem tbl job (Some True)) \<Longrightarrow> logs (only P) (table_get_job C job)"
  by (rule logs_mono [OF talks_logs [OF get_job]]) (auto simp: only_def reqs_def get_trace_def)

lemma only_work:
  assumes "\<And>q. render_request bucket url rh job q \<Longrightarrow> P q" "P (DeleteMessage url rh)"
    and "\<And>q. table_write tbl (jm_job_id job) q \<Longrightarrow> P q"
  shows "logs (only P) (work env cfg C wk job rh)"
proof -
  have render: "logs (only P) (render_job env C (worker_tick env C wk rh) sizes job)" for sizes
    by (rule logs_mono [OF logs_render_job [OF logs_worker_tick]]) (auto simp: only_def elim: reqs_mono intro: assms)
  have complete: "logs (only P) (table_mark_complete C (jm_job_id job) os ex wd ht fm ms)" for os ex wd ht fm ms
    by (rule logs_mono [OF talks_logs [OF mark_complete]])
      (auto simp: only_def intro: call_trace_reqs assms table_writeI)
  have del: "logs (only P) (queue_delete C rh)"
    by (rule logs_mono [OF talks_logs [OF delete]]) (auto simp: only_def intro: call_trace_reqs assms)
  have body: "logs (only P) (render_and_complete env cfg C wk job rh started)" for started
    unfolding render_and_complete_def Let_def
    by (intro only_bind render complete del only_count only_basic)
  have fail: "logs (only P) (fail_job C (jm_job_id job) rh reason)" for reason
    by (rule only_fail_job) (simp_all add: assms table_writeI)
  have settle: "logs (only P) (settle_failure env C job rh started e)" for started e
    unfolding settle_failure_def by (auto intro!: only_bind only_basic only_count fail)
  have quiet: "logs (silent (\<lambda>r. r = Inr ())) (modify (\<lambda>s. s\<lparr>jobs_inflight := g (jobs_inflight s)\<rparr>))" for g
    by (rule logs_modify) simp
  show ?thesis
    unfolding work_def
    by (intro only_bind only_basic only_finalize only_attempt quiet body)
      (auto intro: only_basic settle split: sum.split)
qed

lemma write_delivery:
  assumes "table_write tbl (jm_job_id job) q"
  shows "delivery_request bucket url tbl rh job q"
  using assms table_write_update [OF assms] by auto

lemma only_process_job: "logs (only (delivery_request bucket url tbl rh job)) (process_job env cfg C wk job rh)"
proof -
  let ?P = "delivery_request bucket url tbl rh job"
  have work: "logs (only ?P) (work env cfg C wk job rh)"
    by (rule only_work) (auto intro: render_delivery write_delivery)
  have claim: "logs (only ?P) (claim_and_work env cfg C wk job rh)"
    unfolding claim_and_work_def
    by (intro only_bind only_attempt only_mark_processing)
      (auto intro!: only_bind only_basic only_delete_quietly work split: sum.split intro: write_delivery table_writeI)
  show ?thesis
    unfolding process_job_def
    by (intro only_bind only_attempt only_get_job)
      (auto intro!: only_bind only_basic only_delete_quietly only_count only_fail_job claim
        split: sum.split option.split intro: write_delivery table_writeI)
qed

text \<open>S3 is not touched before the claim was accepted.\<close>

lemma guarded_claim_and_work:
  "logs (\<lambda>tr r. guarded is_s3 (claims tbl (jm_job_id job)) tr) (claim_and_work env cfg C wk job rh)"
proof -
  let ?B = "\<lambda>(r :: exn + bool) tr (r' :: exn + outcome_kind). r = Inr True \<or> reqs (\<lambda>q. \<not> is_s3 q) tr"
  have none: "logs (\<lambda>tr r. reqs (\<lambda>q. \<not> is_s3 q) tr) m" if "logs (only (\<lambda>q. \<not> is_s3 q)) m" for m :: "('w, outcome_kind) prog"
    by (rule logs_mono [OF that]) (simp add: only_def)
  have two: "logs (?B r) (case r of Inl e \<Rightarrow> if is_infra e then return RETRY else raise e
       | Inr won \<Rightarrow> if \<not> won then bind (delete_quietly C rh) (\<lambda>_. return SKIPPED_DUPLICATE) else work env cfg C wk job rh)" for r
  proof (cases "r = Inr True")
    case True
    have "logs (\<lambda>tr r. True) (work env cfg C wk job rh)" by (rule logs_mono [OF logs_work]) simp
    with True show ?thesis by simp
  next
    case False
    then show ?thesis
      by (auto intro!: none only_bind only_basic only_delete_quietly split: sum.split)
  qed
  show ?thesis
    unfolding claim_and_work_def
  proof (rule logs_mono [OF logs_bind [OF logs_attempt [OF talks_logs [OF mark_processing]] two]])
    fix tr and r :: "exn + outcome_kind"
    assume "seq_trace (\<lambda>tr r. \<exists>r'. r = Inr r' \<and> processing_trace tbl (jm_job_id job) tr r') ?B tr r"
    then obtain t1 t2 r1 where t: "tr = t1 @ t2" "processing_trace tbl (jm_job_id job) t1 r1" "?B r1 t2 r" by (rule attempt_seqE)
    then have "reqs (\<lambda>q. \<not> is_s3 q) t1" by (auto simp: reqs_def processing_request_def dest!: processing_traceD)
    moreover have "\<exists>ev \<in> set t1. claims tbl (jm_job_id job) ev" if won: "r1 = Inr True"
    proof -
      obtain now v where "(processing_request tbl (jm_job_id job) now, Returned v) \<in> set t1"
        using t(2) [unfolded won processing_trace_def] by auto
      then show ?thesis by (rule bexI [rotated]) (simp add: processing_request_def)
    qed
    ultimately show "guarded is_s3 (claims tbl (jm_job_id job)) tr"
      using t by (auto simp: guarded_append guarded_reqs)
  qed
qed

lemma guarded_process_job:
  "logs (\<lambda>tr r. guarded is_s3 (claims tbl (jm_job_id job)) tr \<and> (jm_bucket job \<noteq> s3_bucket cfg \<longrightarrow> reqs (\<lambda>q. \<not> is_s3 q) tr))
     (process_job env cfg C wk job rh)"
proof -
  define G where "G = (\<lambda>tr (r :: exn + outcome_kind). guarded is_s3 (claims tbl (jm_job_id job)) tr \<and>
      (jm_bucket job \<noteq> s3_bucket cfg \<longrightarrow> reqs (\<lambda>q. \<not> is_s3 q) tr))"
  have none: "logs G m" if "logs (only (\<lambda>q. \<not> is_s3 q)) m" for m :: "('w, outcome_kind) prog"
    by (rule logs_mono [OF that]) (simp add: only_def guarded_reqs G_def)
  have claim: "logs G (claim_and_work env cfg C wk job rh)" if "jm_bucket job = s3_bucket cfg"
    by (rule logs_mono [OF guarded_claim_and_work]) (simp add: that G_def)
  have two: "logs G (case r of Inl e \<Rightarrow> if is_infra e then return RETRY else raise e
       | Inr None \<Rightarrow> bind (count_job ''failed'') (\<lambda>_. bind (delete_quietly C rh) (\<lambda>_. return JOB_FAILED))
       | Inr (Some rc) \<Rightarrow>
           if jr_status rc = COMPLETE then bind (delete_quietly C rh) (\<lambda>_. return SKIPPED_DUPLICATE)
           else if jm_bucket job \<noteq> s3_bucket cfg
           then fail_job C (jm_job_id job) rh (''message references unexpected bucket '' @ py_repr (jm_bucket job))
           else claim_and_work env cfg C wk job rh)" for r
    by (simp split: sum.split option.split)
      (auto intro!: none claim only_bind only_basic only_delete_quietly only_count only_fail_job simp: failed_request_def)
  show ?thesis
    unfolding process_job_def
    by (rule logs_mono [OF logs_bind [OF logs_attempt [OF talks_logs [OF get_job]] two]], erule attempt_seqE)
      (auto simp: G_def guarded_append get_trace_def reqs_def intro!: guarded_reqs)
qed

end

section \<open>Context and workspace\<close>

text \<open>
  \<open>moves f R m\<close>: whatever \<open>m\<close> does, it takes the view \<open>f\<close> of the state from \<open>a\<close> to some \<open>b\<close> with \<open>R a b\<close>. A
  reflexive \<open>R\<close> that the render respects is respected by the whole job if nothing else moves the view.
\<close>

abbreviation moves :: "('w st \<Rightarrow> 'b) \<Rightarrow> ('b \<Rightarrow> 'b \<Rightarrow> bool) \<Rightarrow> ('w, 'a) prog \<Rightarrow> bool" where
  "moves f R m \<equiv> tallies f (\<lambda>r a b. R a b) m"

lemma moves_keeps: "(\<And>a. R a a) \<Longrightarrow> keeps f m \<Longrightarrow> moves f R m"
  by (erule tallies_mono) simp

lemma moves_then: "moves f R m \<Longrightarrow> (\<And>x. keeps f (g x)) \<Longrightarrow> moves f R (bind m g)"
  by (rule tallies_bind [where ?B1.0 = "\<lambda>r a b. R a b" and ?B2.0 = "\<lambda>x r b c. c = b"]) auto

lemma moves_attempt: "moves f R m \<Longrightarrow> moves f R (attempt m)"
  by (simp add: tallies_def wp_attempt)

lemma moves_finalize: "moves f R m \<Longrightarrow> keeps f g \<Longrightarrow> moves f R (finalize m g)"
  unfolding tallies_iff finalize_def by (auto split: prod.splits sum.splits)

lemma moves_process_job:
  fixes f :: "'w st \<Rightarrow> 'b"
  assumes f: "book_view f" "\<And>s ds. f (s\<lparr>stage_durations := ds\<rparr>) = f s" "\<And>s ds. f (s\<lparr>job_durations := ds\<rparr>) = f s"
      "\<And>s c. f (s\<lparr>jobs_processed_total := c\<rparr>) = f s" "\<And>s i. f (s\<lparr>jobs_inflight := i\<rparr>) = f s"
    and R: "\<And>a. R a a"
    and render: "moves f R (render_job env (build_clients env cfg) (worker_tick env (build_clients env cfg) wk rh) (thumbnail_sizes cfg) job)"
  shows "moves f R (process_job env cfg (build_clients env cfg) wk job rh)"
proof -
  let ?C = "build_clients env cfg"
  have count: "keeps f (count_job l)" "keeps f (observe_job d)" for l d
    by (simp_all add: count_job_def observe_job_def keeps_modify f)
  have fail: "keeps f (fail_job ?C job_id rh reason)" for job_id reason
    unfolding fail_job_def
    by (intro keeps_bind keeps_attempt keeps_talks [OF f(1) aws.mark_failed])
      (auto intro!: keeps_intros count aws.keeps_delete_quietly f(1) split: sum.split)
  have settle: "keeps f (settle_failure env ?C job rh started e)" for started e
    unfolding settle_failure_def by (auto intro!: keeps_intros count fail f(1))
  have body: "moves f R (render_and_complete env cfg ?C wk job rh started)" for started
    unfolding render_and_complete_def Let_def
    by (rule moves_then [OF render])
      (intro keeps_bind keeps_talks [OF f(1) aws.mark_complete] keeps_talks [OF f(1) aws.delete] count keeps_ask keeps_basic f(1))
  have work: "moves f R (work env cfg ?C wk job rh)"
    unfolding work_def
    by (intro tallies_after moves_finalize moves_then moves_attempt body keeps_ask keeps_modify f R)
      (auto intro: keeps_basic settle split: sum.split)
  have claim: "moves f R (claim_and_work env cfg ?C wk job rh)"
    unfolding claim_and_work_def
    by (rule tallies_after_attempt [OF keeps_talks [OF f(1) aws.mark_processing]])
      (auto intro!: work moves_keeps [of R, OF R] keeps_intros aws.keeps_delete_quietly f(1) split: sum.split)
  show ?thesis
    unfolding process_job_def
    by (rule tallies_after_attempt [OF keeps_talks [OF f(1) aws.get_job]])
      (auto intro!: claim moves_keeps [of R, OF R] keeps_intros fail count aws.keeps_delete_quietly f(1) split: sum.split option.split)
qed

text \<open>
  What a workspace leaves: nothing, unless both calls of \<open>rmtree\<close> on its directory, the second right after the
  first, failed to remove it.
\<close>

definition leftover :: "'w env \<Rightarrow> string list \<Rightarrow> string list \<Rightarrow> bool" where
  "leftover env before after \<longleftrightarrow>
     (if after = before then True
      else \<exists>d w. after = d # before \<and> \<not> fst (rmtree env d w) \<and> \<not> fst (rmtree env d (snd (rmtree env d w))))"

lemma leftover_refl: "leftover env a a"
  by (simp add: leftover_def)

lemma cleanup_leftover:
  assumes "temp_dirs s = path # ds" "cleanup_workspace env path s = (r, s')"
  shows "r = Inr () \<and> leftover env ds (temp_dirs s')"
proof (cases "fst (rmtree env path (world s)) \<or> fst (rmtree env path (snd (rmtree env path (world s))))")
  case True
  with assms show ?thesis
    by (auto simp: cleanup_workspace_def run_simps drop_dir_def leftover_def split: prod.splits if_splits)
next
  case False
  with assms have "r = Inr ()" "temp_dirs s' = path # ds"
    by (auto simp: cleanup_workspace_def run_simps split: prod.splits)
  with False show ?thesis by (auto simp: leftover_def)
qed

lemma temp_workspace_dirs:
  assumes body: "\<And>path. keeps temp_dirs (body path)"
  shows "moves temp_dirs (leftover env) (temp_workspace env pre body)"
  unfolding tallies_iff
proof (intro allI impI)
  fix s r s'
  assume run: "temp_workspace env pre body s = (r, s')"
  show "leftover env (temp_dirs s) (temp_dirs s')"
  proof (cases "mkdtemp env pre (world s)")
    case (Pair x w)
    show ?thesis
    proof (cases x)
      case (Inl e)
      with run Pair show ?thesis by (auto simp: temp_workspace_def run_simps leftover_def)
    next
      case (Inr path)
      let ?s1 = "s\<lparr>world := w, temp_dirs := path # temp_dirs s\<rparr>"
      obtain r2 s2 where b: "body path ?s1 = (r2, s2)" by (cases "body path ?s1")
      with body have dirs: "temp_dirs s2 = path # temp_dirs s" by (auto simp: tallies_iff)
      obtain r3 s3 where c: "cleanup_workspace env path s2 = (r3, s3)" by (cases "cleanup_workspace env path s2")
      from cleanup_leftover [OF dirs c] run Pair Inr b c show ?thesis
        by (auto simp: temp_workspace_def run_simps)
    qed
  qed
qed

text \<open>What a delivery may send, with or without a job.\<close>

definition confined_to :: "'w env \<Rightarrow> config \<Rightarrow> sqs_message \<Rightarrow> request \<Rightarrow> bool" where
  "confined_to env cfg m q \<longleftrightarrow>
     (case parse_message env (opt_get [] (Body m)) of
        Inl e \<Rightarrow> q = DeleteMessage (sqs_queue_url cfg) (receipt m)
      | Inr job \<Rightarrow> delivery_request (s3_bucket cfg) (sqs_queue_url cfg) (dynamodb_table cfg) (receipt m) job q)"

lemma confined_handle_message: "logs (only (confined_to env cfg m)) (handle_message env cfg (build_clients env cfg) wk m)"
proof (cases "parse_message env (opt_get [] (Body m))")
  case (Inl e)
  show ?thesis
    by (rule logs_mono [OF aws.logs_handle_message])
      (auto simp: delivery_trace_def Inl only_def confined_to_def elim: reqs_mono split: if_splits)
next
  case (Inr job)
  have quiet: "logs (silent (\<lambda>r. r = Inr ())) clear_job_context"
    unfolding clear_job_context_def by (rule logs_modify) simp
  have eq: "confined_to env cfg m = delivery_request (s3_bucket cfg) (sqs_queue_url cfg) (dynamodb_table cfg) (receipt m) job"
    by (rule ext) (simp add: confined_to_def Inr)
  show ?thesis
    unfolding eq
    by (auto simp: handle_message_def Inr bind_job_context_def
        intro!: only_bind only_basic only_finalize quiet aws.only_process_job)
qed


section \<open>Properties of a delivery\<close>

text \<open>
  C1: The message is deleted last. In the log of a delivery, for every behaviour of AWS, no
  \<open>DeleteMessage\<close> is even attempted before an event that settles the job: the table said that the
  record is missing or \<open>COMPLETE\<close>, refused the claim, or accepted the update to \<open>COMPLETE\<close> or
  \<open>FAILED\<close>. A message that cannot be parsed identifies no job; its only requests delete it.
\<close>

theorem message_deleted_last:
  "wp (handle_message env cfg (build_clients env cfg) wk m)
     (\<lambda>r s'. \<exists>tr. wire s' = wire s @ tr \<and>
        (case parse_message env (opt_get [] (Body m)) of
           Inl e \<Rightarrow> reqs (\<lambda>q. q = DeleteMessage (sqs_queue_url cfg) (receipt m)) tr
         | Inr job \<Rightarrow> guarded is_delete (settles (dynamodb_table cfg) (decode_item env) (jm_job_id job)) tr)) s"
  by (rule wp_logs [OF aws.logs_handle_message])
    (auto simp: delivery_trace_def job_trace_def closed_def split: sum.splits if_splits)

text \<open>
  C8: A dependency outage never loses a job. When a delivery ends in \<open>RETRY\<close>, or in an exception
  that leaves \<open>handle_message\<close>, no \<open>DeleteMessage\<close> of its log was accepted: SQS will deliver the
  message again.
\<close>

theorem retry_keeps_message:
  "wp (handle_message env cfg (build_clients env cfg) wk m)
     (\<lambda>r s'. \<exists>tr. wire s' = wire s @ tr \<and>
        (case r of Inl e \<Rightarrow> undeleted tr | Inr k \<Rightarrow> if k = RETRY then undeleted tr else True)) s"
  by (rule wp_logs [OF aws.logs_handle_message])
    (auto simp: delivery_trace_def job_trace_def closed_def undeleted_def split: sum.splits if_splits)

text \<open>
  C7: \<open>COMPLETED\<close> is earned. A delivery ends in \<open>COMPLETED\<close> only if its log shows, in this order,
  every configured thumbnail stored under the job's own output keys, the table's acceptance of the
  update to \<open>COMPLETE\<close> that lists exactly these thumbnails with location-free EXIF data, and the
  queue's acceptance of the deletion, with no deletion attempted before.
\<close>

theorem completed_means_stored:
  "wp (handle_message env cfg (build_clients env cfg) wk m)
     (\<lambda>r s'. case r of Inl e \<Rightarrow> True
       | Inr k \<Rightarrow> if k = COMPLETED
           then \<exists>tr job. wire s' = wire s @ tr \<and> parse_message env (opt_get [] (Body m)) = Inr job \<and>
             completion (s3_bucket cfg) (sqs_queue_url cfg) (dynamodb_table cfg) (thumbnail_sizes cfg) job (receipt m) tr
           else True) s"
  by (rule wp_logs [OF aws.logs_handle_message])
    (auto simp: delivery_trace_def job_trace_def split: sum.splits if_splits)

text \<open>
  C15: Metrics follow outcomes. A delivery adds one to \<open>jobs_processed_total{complete}\<close> exactly when
  it ends in \<open>COMPLETED\<close>, one to \<open>{failed}\<close> exactly when it ends in \<open>FAILED\<close> or \<open>MALFORMED\<close>,
  nothing otherwise, and leaves the in-flight gauge where it was, also when it raises.
\<close>

theorem delivery_metrics:
  "wp (handle_message env cfg (build_clients env cfg) wk m)
     (\<lambda>r s'. (jobs_processed_total s', jobs_inflight s') = bump r (jobs_processed_total s, jobs_inflight s)) s"
  by (rule aws.tallies_handle_message [unfolded tallies_def job_view_def, THEN spec])

text \<open>
  C19: A delivery is confined to its job. Every request it sends reads the job's own record, updates it
  with one of the three update expressions, reads its input object in the configured bucket, writes one of its own
  output keys, or is about its own message.
\<close>

theorem delivery_confined:
  "wp (handle_message env cfg (build_clients env cfg) wk m)
     (\<lambda>r s'. \<exists>tr. wire s' = wire s @ tr \<and>
        (case parse_message env (opt_get [] (Body m)) of
           Inl e \<Rightarrow> reqs (\<lambda>q. q = DeleteMessage (sqs_queue_url cfg) (receipt m)) tr
         | Inr job \<Rightarrow> reqs (delivery_request (s3_bucket cfg) (sqs_queue_url cfg) (dynamodb_table cfg) (receipt m) job) tr)) s"
  by (rule wp_logs [OF confined_handle_message]) (auto simp: only_def confined_to_def elim!: reqs_mono split: sum.splits)

text \<open>
  C14: S3 is touched only by the owner of the claim. No object is read or written before the table has
  accepted the transition to \<open>PROCESSING\<close>, and a message that names another bucket than the
  configured one leads to no S3 request at all.
\<close>

theorem s3_only_after_claim:
  "wp (process_job env cfg (build_clients env cfg) wk job rh)
     (\<lambda>r s'. \<exists>tr. wire s' = wire s @ tr \<and> guarded is_s3 (claims (dynamodb_table cfg) (jm_job_id job)) tr \<and>
        (if jm_bucket job \<noteq> s3_bucket cfg then reqs (\<lambda>q. \<not> is_s3 q) tr else True)) s"
  by (rule wp_logs [OF aws.guarded_process_job]) auto

text \<open>
  A message of a newer schema is left alone: no request, no metric, the outcome is \<open>RETRY\<close>.
\<close>

theorem newer_schema_left_alone:
  assumes "parse_message env (opt_get [] (Body m)) = Inr job" "MESSAGE_SCHEMA_VERSION < jm_schema_version job"
  shows "handle_message env cfg C wk m s = (Inr RETRY, s)"
  using assms by (simp add: handle_message_def return_def)

text \<open>
  The log context of a job never outlives its delivery: after any delivery that bound one, the
  context is empty, whether the pipeline returned or raised.
\<close>

theorem context_cleared:
  "wp (handle_message env cfg (build_clients env cfg) wk m)
     (\<lambda>r s'. log_context s' =
        (case parse_message env (opt_get [] (Body m)) of
           Inl e \<Rightarrow> log_context s
         | Inr job \<Rightarrow> if MESSAGE_SCHEMA_VERSION < jm_schema_version job then log_context s else [])) s"
proof -
  have view: "book_view log_context" by (simp add: book_view_def same_books_def)
  have count: "keeps log_context (count_job l)" for l
    by (simp add: count_job_def keeps_modify)
  have fin: "wp (finalize p clear_job_context) (\<lambda>r s'. log_context s' = []) t"
    for p :: "('w, outcome_kind) prog" and t
    by (rule wpI) (auto simp: finalize_def clear_job_context_def modify_def split: prod.splits)
  have drop: "keeps log_context (bind (count_job l) (\<lambda>_. bind (delete_quietly (build_clients env cfg) (receipt m)) (\<lambda>_. return k)))" for l and k :: outcome_kind
    by (intro keeps_intros count aws.keeps_delete_quietly view)
  show ?thesis
  proof (cases "parse_message env (opt_get [] (Body m))")
    case (Inl e)
    with drop [unfolded tallies_def] show ?thesis
      by (auto simp: handle_message_def wp_raise)
  next
    case (Inr job)
    then show ?thesis
      by (auto simp: handle_message_def wp_bind wp_return bind_job_context_def wp_modify fin)
  qed
qed

text \<open>
  C40: The worker leaves no files behind. Whatever the answers of AWS, the disk and Pillow, on every path out of
  the pipeline the temporary directories that exist after a job are those that existed before it, but for one case:
  one directory more is left if \<open>rmtree\<close> failed on it twice in a row. In particular nothing is left if a removal
  succeeds at the first or at the second attempt.
\<close>

theorem workspace_removed:
  "wp (process_job env cfg (build_clients env cfg) wk job rh)
     (\<lambda>r s'. if temp_dirs s' = temp_dirs s then True
        else \<exists>d w. temp_dirs s' = d # temp_dirs s \<and>
          \<not> fst (rmtree env d w) \<and> \<not> fst (rmtree env d (snd (rmtree env d w)))) s"
proof -
  have view: "book_view temp_dirs" by (simp add: book_view_def same_books_def)
  have "moves temp_dirs (leftover env)
      (render_job env (build_clients env cfg) (worker_tick env (build_clients env cfg) wk rh) (thumbnail_sizes cfg) job)"
    unfolding render_job_def
    by (rule temp_workspace_dirs [OF aws.keeps_render_body]) (simp_all add: view aws.keeps_tick)
  then have "moves temp_dirs (leftover env) (process_job env cfg (build_clients env cfg) wk job rh)"
    by (intro moves_process_job) (simp_all add: view leftover_refl)
  then show ?thesis by (simp add: tallies_def leftover_def)
qed

section \<open>The poll loop\<close>

lemma run_turn_returns: "\<exists>s'. run_turn env cfg C wk s = (Inr (), s')"
  by (simp add: run_turn_def run_simps split: prod.split sum.split)

text \<open>The states at the top of the \<open>while\<close>.\<close>

definition after_turn :: "'w env \<Rightarrow> config \<Rightarrow> 'w clients \<Rightarrow> worker \<Rightarrow> 'w st \<Rightarrow> 'w st" where
  "after_turn env cfg C wk s = snd (run_turn env cfg C wk s)"

lemma run_worker_step:
  "run_worker fuel stopping env cfg C wk s =
     (if stopping s then Some (Inr (), s)
      else case fuel of 0 \<Rightarrow> None | Suc fuel' \<Rightarrow> run_worker fuel' stopping env cfg C wk (after_turn env cfg C wk s))"
  using run_turn_returns [of env cfg C wk s]
  by (subst run_worker.simps) (auto simp: after_turn_def split: nat.split)

lemma run_worker_spec:
  "run_worker fuel stopping env cfg C wk s =
     (if \<exists>n \<le> fuel. stopping ((after_turn env cfg C wk ^^ n) s)
      then Some (Inr (), (after_turn env cfg C wk ^^ (LEAST n. stopping ((after_turn env cfg C wk ^^ n) s))) s)
      else None)"
proof (induction fuel arbitrary: s)
  case 0
  show ?case by (subst run_worker_step) (auto intro: Least_eq_0)
next
  case (Suc fuel)
  let ?f = "after_turn env cfg C wk"
  show ?case
  proof (cases "stopping s")
    case True
    then have "(LEAST n. stopping ((?f ^^ n) s)) = 0" by (simp add: Least_eq_0)
    with True show ?thesis by (subst run_worker_step) (auto intro!: exI [of _ 0])
  next
    case False
    have ex: "(\<exists>n \<le> Suc fuel. stopping ((?f ^^ n) s)) \<longleftrightarrow> (\<exists>n \<le> fuel. stopping ((?f ^^ n) (?f s)))"
    proof
      assume "\<exists>n \<le> Suc fuel. stopping ((?f ^^ n) s)"
      then obtain n where n: "n \<le> Suc fuel" "stopping ((?f ^^ n) s)" by blast
      with False obtain m where "n = Suc m" by (cases n) auto
      with n show "\<exists>n \<le> fuel. stopping ((?f ^^ n) (?f s))" by (auto simp: funpow_swap1 intro!: exI [of _ m])
    next
      assume "\<exists>n \<le> fuel. stopping ((?f ^^ n) (?f s))"
      then obtain n where "n \<le> fuel" "stopping ((?f ^^ n) (?f s))" by blast
      then show "\<exists>n \<le> Suc fuel. stopping ((?f ^^ n) s)" by (intro exI [of _ "Suc n"]) (simp add: funpow_swap1)
    qed
    have least: "(LEAST n. stopping ((?f ^^ n) s)) = Suc (LEAST n. stopping ((?f ^^ n) (?f s)))"
      if "stopping ((?f ^^ n) (?f s))" for n
      using Least_Suc [of "\<lambda>n. stopping ((?f ^^ n) s)" "Suc n"] False that by (simp add: funpow_swap1)
    show ?thesis
      using False by (subst run_worker_step) (auto simp: Suc.IH ex least funpow_swap1)
  qed
qed

text \<open>
  C35: The poll loop never raises, whatever one iteration does, and it is only left when a stop has
  been requested; a stop that is requested after some iteration ends the loop right after the first
  such iteration, and the states in between are those of whole iterations.
\<close>

theorem run_worker_stops:
  "run_worker fuel stopping env cfg C wk s =
     (if \<exists>n \<le> fuel. stopping ((after_turn env cfg C wk ^^ n) s)
      then Some (Inr (), (after_turn env cfg C wk ^^ (LEAST n. stopping ((after_turn env cfg C wk ^^ n) s))) s)
      else None)"
  by (rule run_worker_spec)

text \<open>
  An exception of the job lookup that is not one of the three infrastructure classes (a record
  that fails validation, for instance) leaves \<open>handle_message\<close> as an exception.
\<close>

theorem lookup_exception_escapes:
  assumes "parse_message env (opt_get [] (Body m)) = Inr job" "jm_schema_version job \<le> MESSAGE_SCHEMA_VERSION"
    and "table_get_job C (jm_job_id job) (s\<lparr>log_context := dict_set ''job_id'' (jm_job_id job) (log_context s)\<rparr>) = (Inl e, s')"
    and "\<not> is_infra e"
  shows "handle_message env cfg C wk m s = (Inl e, s'\<lparr>log_context := []\<rparr>)"
  using assms
  by (simp add: handle_message_def process_job_def bind_job_context_def clear_job_context_def run_simps Let_def)

section \<open>Witnesses\<close>

theorem newer_schema_left_alone_witness:
  "handle_message (calm\<lparr>parse_message := \<lambda>_. Inr (sample_message ''j''\<lparr>jm_schema_version := 2\<rparr>)\<rparr>) sample_config
     (build_clients calm sample_config) Worker (sample_sqs ''j'') blank = (Inr RETRY, blank)"
  by (rule newer_schema_left_alone [where job = "sample_message ''j''\<lparr>jm_schema_version := 2\<rparr>"]) (simp_all add: MESSAGE_SCHEMA_VERSION_def)

theorem lookup_exception_escapes_witness:
  "\<exists>s'. handle_message (calm\<lparr>get_item := \<lambda>_ _ _ w. (Inr (Some [(''job_id'', PStr ''j'')]), w)\<rparr>) sample_config
      (build_clients (calm\<lparr>get_item := \<lambda>_ _ _ w. (Inr (Some [(''job_id'', PStr ''j'')]), w)\<rparr>) sample_config)
      Worker (sample_sqs ''j'') blank = (Inl (ValidationError ''invalid''), s')"
proof -
  let ?env = "calm\<lparr>get_item := \<lambda>_ _ _ w. (Inr (Some [(''job_id'', PStr ''j'')]), w)\<rparr>"
  let ?s = "blank\<lparr>log_context := dict_set ''job_id'' ''j'' (log_context blank)\<rparr>"
  have "\<exists>s'. table_get_job (build_clients ?env sample_config) ''j'' ?s = (Inl (ValidationError ''invalid''), s')"
    by (simp add: build_clients_def Let_def jt_get_job_def bind_def retry_first on_wire_def item_answer_def decode_item_def of_sum_def)
  then obtain s' where lookup: "table_get_job (build_clients ?env sample_config) ''j'' ?s = (Inl (ValidationError ''invalid''), s')" by blast
  have "handle_message ?env sample_config (build_clients ?env sample_config) Worker (sample_sqs ''j'') blank =
      (Inl (ValidationError ''invalid''), s'\<lparr>log_context := []\<rparr>)"
    by (rule lookup_exception_escapes [where job = "sample_message ''j''"])
      (use lookup in \<open>simp_all add: MESSAGE_SCHEMA_VERSION_def\<close>)
  then show ?thesis by blast
qed

end
