(* ===== verification/Service.thy ===== *)
theory Service
  imports Images
begin

text \<open>
  \<open>api/service.py\<close>: what the API does with an upload, independent of HTTP. The service reaches AWS
  through the bundle of \<open>Clients\<close> only, and its ordering theorems are proved from that contract.
\<close>

definition MAX_FILENAME_CHARS :: nat where "MAX_FILENAME_CHARS = 255"

text \<open>The class of \<open>_UNSAFE_FILENAME_CHARS\<close>: control characters, the slash and the backslash.\<close>

definition unsafe_char :: "char \<Rightarrow> bool" where
  "unsafe_char c = (py_ord c \<le> 31 \<or> py_ord c = 127 \<or> c = CHR ''/'' \<or> c = CHR 0x5C)"

text \<open>\<open>s.replace("..", "")\<close>: from the left, without rescanning.\<close>

fun remove_dots :: "string \<Rightarrow> string" where
  "remove_dots [] = []"
| "remove_dots [c] = [c]"
| "remove_dots (c # d # s) =
     (if c = CHR ''.'' \<and> d = CHR ''.'' then remove_dots s else c # remove_dots (d # s))"

definition sanitise_filename :: "string option \<Rightarrow> string" where
  "sanitise_filename filename =
     (if opt_get [] filename = [] then ''upload''
      else let cleaned = remove_dots (py_strip (filter (\<lambda>c. \<not> unsafe_char c) (opt_get [] filename)));
               short = take MAX_FILENAME_CHARS cleaned
           in if short = [] then ''upload'' else short)"

text \<open>
  \<open>_UUID_PATTERN.match\<close>. In Python \<open>$\<close> also matches before a final newline, so the pattern accepts
  an identifier followed by one.
\<close>

definition is_hex :: "char \<Rightarrow> bool" where
  "is_hex c = (is_dec c \<or> 97 \<le> py_ord c \<and> py_ord c \<le> 102 \<or> 65 \<le> py_ord c \<and> py_ord c \<le> 70)"

definition uuid_shape :: "string \<Rightarrow> bool" where
  "uuid_shape s =
     (map length (py_split CHR ''-'' s) = [8, 4, 4, 4, 12] \<and> (\<forall>part \<in> set (py_split CHR ''-'' s). \<forall>c \<in> set part. is_hex c))"

definition is_valid_job_id :: "string \<Rightarrow> bool" where
  "is_valid_job_id job_id =
     (uuid_shape job_id \<or> (job_id \<noteq> [] \<and> last job_id = CHR 0x0A \<and> uuid_shape (butlast job_id)))"

section \<open>Upload results\<close>

definition ACCEPTED :: string where "ACCEPTED = ''accepted''"
definition REJECTED_TOO_LARGE :: string where "REJECTED_TOO_LARGE = ''rejected_too_large''"
definition REJECTED_CONTENT_TYPE :: string where "REJECTED_CONTENT_TYPE = ''rejected_content_type''"
definition REJECTED_INVALID_IMAGE :: string where "REJECTED_INVALID_IMAGE = ''rejected_invalid_image''"
definition UPLOAD_ERROR :: string where "UPLOAD_ERROR = ''error''"

section \<open>JobService\<close>

text \<open>\<open>(content_type or "").split(";")[0].strip().lower()\<close>.\<close>

definition declared_type :: "string option \<Rightarrow> string" where
  "declared_type content_type = py_lower (py_strip (hd (py_split CHR '';'' (opt_get [] content_type))))"

definition validate_upload :: "config \<Rightarrow> string option \<Rightarrow> int \<Rightarrow> exn + unit" where
  "validate_upload cfg content_type size_bytes =
     (if max_upload_bytes cfg < size_bytes
      then Inl (UploadRejectedError
             (''file exceeds the '' @ show_int (max_upload_bytes cfg) @ '' byte limit ('' @
              show_int size_bytes @ '' bytes received)'')
             413 ''payload_too_large'' REJECTED_TOO_LARGE)
      else if declared_type content_type \<notin> set ALLOWED_CONTENT_TYPES
      then Inl (UploadRejectedError
             (''unsupported content type '' @
              py_repr (if declared_type content_type = [] then ''unknown'' else declared_type content_type) @
              ''; expected one of '' @ py_repr_list (sort ALLOWED_CONTENT_TYPES))
             415 ''unsupported_media_type'' REJECTED_CONTENT_TYPE)
      else Inr ())"

definition probe_upload :: "'w env \<Rightarrow> bytes \<Rightarrow> exn + image_probe" where
  "probe_upload env data =
     (case probe_image (pil env) (lib_str env) data of
        Inl e \<Rightarrow> Inl (if is_image_error e
                      then UploadRejectedError (exn_str (lib_str env) e) 400 ''invalid_image'' REJECTED_INVALID_IMAGE
                      else e)
      | Inr probe \<Rightarrow> Inr probe)"

definition new_record :: "string \<Rightarrow> string \<Rightarrow> string \<Rightarrow> string option \<Rightarrow> bytes \<Rightarrow> string option \<Rightarrow> image_probe \<Rightarrow> string option \<Rightarrow> job_record" where
  "new_record job_id created updated filename data content_type probe trace_id =
     \<lparr>jr_job_id = job_id, jr_status = PENDING, jr_created_at = created,
      jr_filename = sanitise_filename filename, jr_size_bytes = int (length data),
      jr_content_type = declared_type content_type,
      jr_input_key = ''uploads/'' @ job_id @ ''/original'' @ ip_extension probe,
      jr_updated_at = Some updated, jr_started_at = None, jr_completed_at = None,
      jr_outputs = None, jr_exif = None,
      jr_source_width = Some (ip_width probe), jr_source_height = Some (ip_height probe),
      jr_source_format = Some (ip_format probe), jr_processing_ms = None, jr_error = None,
      jr_trace_id = trace_id, jr_extra = []\<rparr>"

definition new_message :: "config \<Rightarrow> job_record \<Rightarrow> job_message" where
  "new_message cfg record =
     \<lparr>jm_schema_version = MESSAGE_SCHEMA_VERSION, jm_job_id = jr_job_id record, jm_bucket = s3_bucket cfg,
      jm_input_key = jr_input_key record, jm_content_type = jr_content_type record,
      jm_filename = jr_filename record, jm_submitted_at = jr_created_at record, jm_extra = []\<rparr>"

definition unqueueable :: "job_record \<Rightarrow> exn \<Rightarrow> string \<Rightarrow> string \<Rightarrow> job_record" where
  "unqueueable record e updated completed =
     record\<lparr>jr_status := FAILED, jr_error := Some (''could not enqueue job: '' @ exn_name e),
            jr_updated_at := Some updated, jr_completed_at := Some completed\<rparr>"

definition mark_unqueueable :: "'w env \<Rightarrow> 'w clients \<Rightarrow> job_record \<Rightarrow> exn \<Rightarrow> ('w, unit) prog" where
  "mark_unqueueable env C record e =
     bind (attempt
       (bind (ask (now_iso env)) (\<lambda>updated. bind (ask (now_iso env)) (\<lambda>completed.
          table_put_job C (unqueueable record e updated completed)))))
     (\<lambda>_. return ())"

text \<open>The \<open>try\<close> around the enqueue.\<close>

definition enqueue :: "'w env \<Rightarrow> config \<Rightarrow> 'w clients \<Rightarrow> job_record \<Rightarrow> (string \<times> string) list \<Rightarrow> ('w, string) prog" where
  "enqueue env cfg C record attributes =
     bind (attempt (queue_send_job C (dump_message env (new_message cfg record)) attributes)) (\<lambda>r. case r of
         Inr message_id \<Rightarrow> return message_id
       | Inl e \<Rightarrow> bind (mark_unqueueable env C record e)
           (\<lambda>_. raise (EnqueueFailedError (exn_str (lib_str env) e))))"

text \<open>\<open>inject_trace_context\<close> drops empty headers; the job id joins them.\<close>

definition job_attributes :: "'w env \<Rightarrow> string \<Rightarrow> ('w, (string \<times> string) list) prog" where
  "job_attributes env job_id =
     bind (ask (trace_carrier_now env)) (\<lambda>carrier.
       return (dict_set ''job_id'' job_id (filter (\<lambda>(key, value). value \<noteq> []) carrier)))"

definition count_accepted :: "int \<Rightarrow> ('w, unit) prog" where
  "count_accepted size_bytes = modify (\<lambda>s. s\<lparr>uploads_total := inc ACCEPTED (uploads_total s),
     upload_sizes := upload_sizes s @ [size_bytes]\<rparr>)"

text \<open>\<open>create_job\<close>: everything before the first call to AWS, the three writes, and the accounting.\<close>

definition prepare_job :: "'w env \<Rightarrow> config \<Rightarrow> bytes \<Rightarrow> string option \<Rightarrow> string option \<Rightarrow> ('w, job_record) prog" where
  "prepare_job env cfg data filename content_type =
     bind (of_sum (validate_upload cfg content_type (int (length data)))) (\<lambda>_.
     bind (of_sum (probe_upload env data)) (\<lambda>probe.
     bind (ask (uuid4 env)) (\<lambda>job_id.
     bind (ask (span_ids env)) (\<lambda>ids.
     bind (ask (now_iso env)) (\<lambda>created.
     bind (ask (now_iso env)) (\<lambda>updated.
       return (new_record job_id created updated filename data content_type probe (fst ids))))))))"

definition store_and_enqueue :: "'w env \<Rightarrow> config \<Rightarrow> 'w clients \<Rightarrow> bytes \<Rightarrow> job_record \<Rightarrow> ('w, string) prog" where
  "store_and_enqueue env cfg C data record =
     bind (store_put_bytes C (jr_input_key record) data (jr_content_type record)) (\<lambda>_.
     bind (table_put_job C record) (\<lambda>_.
     bind (job_attributes env (jr_job_id record)) (\<lambda>attributes.
       enqueue env cfg C record attributes)))"

definition create_job ::
  "'w env \<Rightarrow> config \<Rightarrow> 'w clients \<Rightarrow> bytes \<Rightarrow> string option \<Rightarrow> string option \<Rightarrow> ('w, job_record) prog" where
  "create_job env cfg C data filename content_type =
     bind (prepare_job env cfg data filename content_type) (\<lambda>record.
     bind (store_and_enqueue env cfg C data record) (\<lambda>_.
     bind (count_accepted (int (length data))) (\<lambda>_.
       return record)))"

definition service_get_job :: "'w clients \<Rightarrow> string \<Rightarrow> ('w, job_record option) prog" where
  "service_get_job C job_id =
     (if \<not> is_valid_job_id job_id then return None else table_get_job C job_id)"

section \<open>Filenames and identifiers\<close>

lemma remove_dots_hd: "c \<noteq> CHR ''.'' \<Longrightarrow> remove_dots (c # s) = c # remove_dots s"
  by (cases s) auto

lemma remove_dots_none: "\<not> py_contains ''..'' (remove_dots s)"
proof (induction s rule: remove_dots.induct)
  case (3 c d s)
  show ?case
  proof (cases "c = CHR ''.'' \<and> d = CHR ''.''")
    case True
    with 3 show ?thesis by simp
  next
    case False
    with 3(2) remove_dots_hd [of d s] show ?thesis
      by (auto simp: py_startswith_def)
  qed
qed (auto simp: py_startswith_def)

lemma set_remove_dots: "set (remove_dots s) \<subseteq> set s"
  by (induction s rule: remove_dots.induct) auto

lemma py_contains_take: "py_contains p (take n s) \<Longrightarrow> py_contains p s"
  unfolding py_contains_iff by (metis append.assoc append_take_drop_id)

text \<open>What the stored filename promises.\<close>

definition safe_filename :: "string \<Rightarrow> bool" where
  "safe_filename name \<longleftrightarrow>
     name \<noteq> [] \<and> length name \<le> 255 \<and> \<not> py_contains ''..'' name \<and> (\<forall>c \<in> set name. \<not> unsafe_char c)"

lemma upload_safe: "safe_filename ''upload''"
  by (simp add: safe_filename_def unsafe_char_def py_ord_def py_startswith_def)

lemma sanitise_filename_ok: "safe_filename (sanitise_filename filename)"
proof -
  define k where "k = filter (\<lambda>c. \<not> unsafe_char c) (opt_get [] filename)"
  define n where "n = take MAX_FILENAME_CHARS (remove_dots (py_strip k))"
  have "set n \<subseteq> set k"
    unfolding n_def by (meson order_trans set_take_subset set_remove_dots set_py_strip)
  then have chars: "\<forall>c \<in> set n. \<not> unsafe_char c" by (auto simp: k_def)
  have dots: "\<not> py_contains ''..'' n"
    unfolding n_def using remove_dots_none py_contains_take by blast
  have len: "length n \<le> 255" by (simp add: n_def MAX_FILENAME_CHARS_def)
  have "sanitise_filename filename = (if opt_get [] filename = [] \<or> n = [] then ''upload'' else n)"
    by (simp only: sanitise_filename_def Let_def k_def [symmetric] n_def [symmetric]) simp
  then show ?thesis
    using chars dots len upload_safe by (simp add: safe_filename_def)
qed

lemma hd_py_split_set: "set (hd (py_split c s)) \<subseteq> set s"
  by (induction s) (auto split: list.splits)

lemma set_py_split_join: "x \<in> set s \<Longrightarrow> x = c \<or> (\<exists>part \<in> set (py_split c s). x \<in> set part)"
  by (induction s) (auto split: list.splits)

lemma length_py_split: "length s + 1 = sum_list (map length (py_split c s)) + length (py_split c s)"
  by (induction s) (auto split: list.splits)

lemma uuid_shape_chars: "uuid_shape s \<Longrightarrow> length s = 36 \<and> (\<forall>c \<in> set s. is_hex c \<or> c = CHR ''-'')"
proof -
  assume u: "uuid_shape s"
  then have m: "map length (py_split CHR ''-'' s) = [8, 4, 4, 4, 12]" by (simp add: uuid_shape_def)
  have "length (map length (py_split CHR ''-'' s)) = 5" by (simp only: m) simp
  then have "length (py_split CHR ''-'' s) = 5" by (simp only: length_map)
  with m length_py_split [of s "CHR ''-''"] have "length s = 36" by (simp only: m) simp
  moreover have "is_hex c \<or> c = CHR ''-''" if "c \<in> set s" for c
    using set_py_split_join [OF that, of "CHR ''-''"] u by (auto simp: uuid_shape_def)
  ultimately show ?thesis by simp
qed

lemma valid_job_id_chars: "is_valid_job_id j \<Longrightarrow> \<forall>c \<in> set j. is_hex c \<or> c = CHR ''-'' \<or> c = CHR 0x0A"
proof (cases "uuid_shape j")
  case True
  then show ?thesis by (auto dest: uuid_shape_chars)
next
  case False
  assume "is_valid_job_id j"
  with False have "j \<noteq> []" "last j = CHR 0x0A" "uuid_shape (butlast j)"
    by (auto simp: is_valid_job_id_def)
  then show ?thesis
    using uuid_shape_chars [of "butlast j"] append_butlast_last_id [of j]
    by (metis Un_iff empty_iff insert_iff list.set(1,2) set_append)
qed

section \<open>The order of the writes\<close>

text \<open>
  The wire log of an upload that passed validation: the object is put; unless that failed the record
  is put; unless that failed the message is sent; and if only that failed the record is put again as
  \<open>FAILED\<close> and the outcome is \<open>EnqueueFailedError\<close>.
\<close>

definition requeue_trace :: "string \<Rightarrow> job_record \<Rightarrow> exn \<Rightarrow> event list \<Rightarrow> bool" where
  "requeue_trace tbl record e tr \<longleftrightarrow>
     (\<exists>updated completed (r :: exn + unit).
        call_trace (PutItem tbl (to_dynamo_dict (to_item (unqueueable record e updated completed)))) no_answer tr r)"

definition enqueue_trace ::
  "'w env \<Rightarrow> config \<Rightarrow> string \<Rightarrow> string \<Rightarrow> job_record \<Rightarrow> (string \<times> string) list \<Rightarrow> event list \<Rightarrow> exn + string \<Rightarrow> bool" where
  "enqueue_trace env cfg url tbl record attributes tr r \<longleftrightarrow>
     (\<exists>t1 (r1 :: exn + string) t2. tr = t1 @ t2 \<and>
        call_trace (SendMessage url (dump_message env (new_message cfg record)) (filter (\<lambda>(n, v). v \<noteq> []) attributes))
          no_answer t1 r1 \<and>
        (case r1 of
           Inr message_id \<Rightarrow> t2 = [] \<and> r = Inr message_id
         | Inl e \<Rightarrow> requeue_trace tbl record e t2 \<and> r = Inl (EnqueueFailedError (exn_str (lib_str env) e))))"

definition upload_trace ::
  "'w env \<Rightarrow> config \<Rightarrow> string \<Rightarrow> string \<Rightarrow> string \<Rightarrow> bytes \<Rightarrow> job_record \<Rightarrow> event list \<Rightarrow> exn + string \<Rightarrow> bool" where
  "upload_trace env cfg bucket url tbl data record =
     seq_trace (call_trace (PutObject bucket (jr_input_key record) data (jr_content_type record)) no_answer :: event list \<Rightarrow> exn + unit \<Rightarrow> bool) (\<lambda>_.
     seq_trace (call_trace (PutItem tbl (to_dynamo_dict (to_item record))) no_answer :: event list \<Rightarrow> exn + unit \<Rightarrow> bool) (\<lambda>_.
     (\<lambda>tr r. \<exists>carrier. enqueue_trace env cfg url tbl record (dict_set ''job_id'' (jr_job_id record) carrier) tr r)))"

text \<open>What \<open>prepare_job\<close> may produce, and when it refuses.\<close>

definition upload_refusal :: "'w env \<Rightarrow> config \<Rightarrow> bytes \<Rightarrow> string option \<Rightarrow> exn option" where
  "upload_refusal env cfg data content_type =
     (case validate_upload cfg content_type (int (length data)) of
        Inl e \<Rightarrow> Some e
      | Inr _ \<Rightarrow> (case probe_upload env data of Inl e \<Rightarrow> Some e | Inr _ \<Rightarrow> None))"

definition fresh_record :: "'w env \<Rightarrow> bytes \<Rightarrow> string option \<Rightarrow> string option \<Rightarrow> job_record \<Rightarrow> bool" where
  "fresh_record env data filename content_type record \<longleftrightarrow>
     (\<exists>job_id created updated probe trace_id. probe_upload env data = Inr probe \<and>
        record = new_record job_id created updated filename data content_type probe trace_id)"

lemma talks_prepare_job:
  "talks (silent (\<lambda>r. case r of Inl e \<Rightarrow> upload_refusal env cfg data content_type = Some e
      | Inr record \<Rightarrow> upload_refusal env cfg data content_type = None \<and> fresh_record env data filename content_type record))
     (prepare_job env cfg data filename content_type)"
  unfolding prepare_job_def
  by (rule talks_mono [OF talks_bind [OF talks_of_sum talks_bind [OF talks_of_sum talks_bind [OF talks_ask
        talks_bind [OF talks_ask talks_bind [OF talks_ask talks_bind [OF talks_ask talks_return]]]]]]])
    (auto simp: seq_silent silent_def upload_refusal_def fresh_record_def, blast)

context aws_clients
begin

lemma talks_mark_unqueueable:
  "talks (\<lambda>tr r. r = Inr () \<and> requeue_trace tbl record e tr) (mark_unqueueable env C record e)"
proof -
  let ?K = "\<lambda>u c. call_trace (PutItem tbl (to_dynamo_dict (to_item (unqueueable record e u c)))) no_answer"
  have K: "talks (\<lambda>tr r. requeue_trace tbl record e tr) (table_put_job C (unqueueable record e u c))" for u c
    by (rule talks_mono [OF put_job]) (auto simp: requeue_trace_def)
  show ?thesis
    unfolding mark_unqueueable_def
    by (rule talks_mono [OF talks_bind [OF talks_attempt [OF talks_bind [OF talks_ask talks_bind [OF talks_ask K]]] talks_return]])
      (auto simp: seq_silent silent_def elim!: seq_traceE)
qed

lemma talks_enqueue:
  "talks (enqueue_trace env cfg url tbl record attributes) (enqueue env cfg C record attributes)"
proof -
  let ?q = "SendMessage url (dump_message env (new_message cfg record)) (filter (\<lambda>(n, v). v \<noteq> []) attributes)"
  let ?K2 = "\<lambda>r. case r of Inr message_id \<Rightarrow> silent (\<lambda>r'. r' = Inr message_id)
      | Inl e \<Rightarrow> (\<lambda>tr r'. requeue_trace tbl record e tr \<and> r' = Inl (EnqueueFailedError (exn_str (lib_str env) e)))"
  have two: "talks (?K2 r) (case r of Inr message_id \<Rightarrow> return message_id
       | Inl e \<Rightarrow> bind (mark_unqueueable env C record e) (\<lambda>_. raise (EnqueueFailedError (exn_str (lib_str env) e))))" for r
  proof (cases r)
    case (Inl e)
    show ?thesis
      unfolding Inl sum.case
      by (rule talks_mono [OF talks_bind [OF talks_mark_unqueueable talks_raise]])
        (auto simp: silent_def elim!: seq_traceE)
  next
    case (Inr m)
    then show ?thesis by (simp add: talks_return)
  qed
  show ?thesis
    unfolding enqueue_def
  proof (rule talks_mono [OF talks_bind [OF talks_attempt [OF send_job] two]])
    fix tr and r :: "exn + string"
    assume "seq_trace (\<lambda>tr r. \<exists>r'. r = Inr r' \<and> call_trace ?q no_answer tr r') ?K2 tr r"
    then obtain t1 r1 t2 where t: "tr = t1 @ t2" "call_trace ?q no_answer t1 r1" "?K2 r1 t2 r"
      by (auto elim!: seq_traceE)
    then show "enqueue_trace env cfg url tbl record attributes tr r"
      unfolding enqueue_trace_def
      by (intro exI [of _ t1] exI [of _ r1] exI [of _ t2]) (auto simp: silent_def split: sum.splits)
  qed
qed

lemma talks_store_and_enqueue:
  "talks (upload_trace env cfg bucket url tbl data record) (store_and_enqueue env cfg C data record)"
proof -
  have "talks (\<lambda>tr r. \<exists>carrier. enqueue_trace env cfg url tbl record (dict_set ''job_id'' (jr_job_id record) carrier) tr r)
     (bind (job_attributes env (jr_job_id record)) (enqueue env cfg C record))"
    unfolding job_attributes_def
  proof (rule talks_mono [OF talks_bind [OF talks_bind [OF talks_ask talks_return] talks_enqueue]])
    fix tr and r :: "exn + string"
    assume "seq_trace (seq_trace (silent (\<lambda>r. \<exists>x. r = Inr x))
        (\<lambda>x. silent (\<lambda>r. r = Inr (dict_set ''job_id'' (jr_job_id record) (filter (\<lambda>(key, v). v \<noteq> []) x)))))
        (enqueue_trace env cfg url tbl record) tr r"
    then show "\<exists>carrier. enqueue_trace env cfg url tbl record (dict_set ''job_id'' (jr_job_id record) carrier) tr r"
      by (rule seq_traceE) (auto simp: seq_silent silent_def)
  qed
  then show ?thesis
    unfolding store_and_enqueue_def upload_trace_def by (intro talks_bind put_bytes put_job)
qed

lemma wp_prepare_job:
  assumes "\<And>e t. upload_refusal env cfg data content_type = Some e \<Longrightarrow> wire t = wire s \<Longrightarrow> same_books s t \<Longrightarrow> Q (Inl e) t"
    and "\<And>record t. upload_refusal env cfg data content_type = None \<Longrightarrow> fresh_record env data filename content_type record \<Longrightarrow>
        wire t = wire s \<Longrightarrow> same_books s t \<Longrightarrow> Q (Inr record) t"
  shows "wp (prepare_job env cfg data filename content_type) Q s"
  by (rule wp_talks [OF talks_prepare_job [of env cfg data content_type filename]])
    (use assms in \<open>auto simp: silent_def split: sum.splits\<close>)

end

text \<open>Every outcome of \<open>create_job\<close>, with its log and its accounting.\<close>

definition accepted_books :: "int \<Rightarrow> 'w st \<Rightarrow> 'w st \<Rightarrow> bool" where
  "accepted_books n s s' \<longleftrightarrow>
     same_books (s\<lparr>uploads_total := inc ACCEPTED (uploads_total s), upload_sizes := upload_sizes s @ [n]\<rparr>) s'"

definition stored_upload ::
  "'w env \<Rightarrow> config \<Rightarrow> string \<Rightarrow> string \<Rightarrow> string \<Rightarrow> bytes \<Rightarrow> string option \<Rightarrow> string option \<Rightarrow>
   'w st \<Rightarrow> exn + job_record \<Rightarrow> 'w st \<Rightarrow> bool" where
  "stored_upload env cfg bucket url tbl data filename content_type s r s' \<longleftrightarrow>
     (\<exists>record tr r1. fresh_record env data filename content_type record \<and> wire s' = wire s @ tr \<and>
        upload_trace env cfg bucket url tbl data record tr r1 \<and>
        (case r1 of Inl e \<Rightarrow> r = Inl e \<and> same_books s s'
         | Inr _ \<Rightarrow> r = Inr record \<and> accepted_books (int (length data)) s s'))"

definition upload_outcome ::
  "'w env \<Rightarrow> config \<Rightarrow> string \<Rightarrow> string \<Rightarrow> string \<Rightarrow> bytes \<Rightarrow> string option \<Rightarrow> string option \<Rightarrow>
   'w st \<Rightarrow> exn + job_record \<Rightarrow> 'w st \<Rightarrow> bool" where
  "upload_outcome env cfg bucket url tbl data filename content_type s r s' \<longleftrightarrow>
     (case upload_refusal env cfg data content_type of
        Some e \<Rightarrow> r = Inl e \<and> wire s' = wire s \<and> same_books s s'
      | None \<Rightarrow> stored_upload env cfg bucket url tbl data filename content_type s r s')"

lemma accepted_booksI:
  "same_books s t \<Longrightarrow>
   accepted_books n s (t\<lparr>uploads_total := inc ACCEPTED (uploads_total t), upload_sizes := upload_sizes t @ [n]\<rparr>)"
  by (simp add: accepted_books_def same_books_def)

context aws_clients
begin

lemma create_job_outcome:
  "wp (create_job env cfg C data filename content_type)
     (upload_outcome env cfg bucket url tbl data filename content_type s) s"
  unfolding create_job_def wp_bind
proof (rule wp_prepare_job)
  fix e and t :: "'w st"
  assume "upload_refusal env cfg data content_type = Some e" "wire t = wire s" "same_books s t"
  then show "case Inl e of Inl e \<Rightarrow> upload_outcome env cfg bucket url tbl data filename content_type s (Inl e) t
     | Inr rc \<Rightarrow> wp (store_and_enqueue env cfg C data rc) (\<lambda>r s'. case r of
          Inl e \<Rightarrow> upload_outcome env cfg bucket url tbl data filename content_type s (Inl e) s'
        | Inr x \<Rightarrow> wp (count_accepted (int (length data))) (\<lambda>r s'. case r of
             Inl e \<Rightarrow> upload_outcome env cfg bucket url tbl data filename content_type s (Inl e) s'
           | Inr x \<Rightarrow> wp (return rc) (upload_outcome env cfg bucket url tbl data filename content_type s) s') s') t"
    by (simp add: upload_outcome_def)
next
  fix rc and t :: "'w st"
  assume a: "upload_refusal env cfg data content_type = None" "fresh_record env data filename content_type rc"
    "wire t = wire s" "same_books s t"
  have eq: "upload_outcome env cfg bucket url tbl data filename content_type s =
      (stored_upload env cfg bucket url tbl data filename content_type s :: exn + job_record \<Rightarrow> 'w st \<Rightarrow> bool)"
    by (intro ext) (simp add: upload_outcome_def a(1))
  have "wp (store_and_enqueue env cfg C data rc) (\<lambda>r s'. case r of
          Inl e \<Rightarrow> stored_upload env cfg bucket url tbl data filename content_type s (Inl e) s'
        | Inr x \<Rightarrow> wp (count_accepted (int (length data))) (\<lambda>r s'. case r of
             Inl e \<Rightarrow> stored_upload env cfg bucket url tbl data filename content_type s (Inl e) s'
           | Inr x \<Rightarrow> wp (return rc) (stored_upload env cfg bucket url tbl data filename content_type s) s') s') t"
  proof (rule wp_talks [OF talks_store_and_enqueue])
    fix r s' tr
    assume w: "wire s' = wire t @ tr" "upload_trace env cfg bucket url tbl data rc tr r" "same_books t s'"
    with a have "same_books s s'" by (blast intro: same_books_trans)
    with a w show "case r of
          Inl e \<Rightarrow> stored_upload env cfg bucket url tbl data filename content_type s (Inl e) s'
        | Inr x \<Rightarrow> wp (count_accepted (int (length data))) (\<lambda>r s'. case r of
             Inl e \<Rightarrow> stored_upload env cfg bucket url tbl data filename content_type s (Inl e) s'
           | Inr x \<Rightarrow> wp (return rc) (stored_upload env cfg bucket url tbl data filename content_type s) s') s'"
      by (cases r)
        (auto simp: wp_simps count_accepted_def stored_upload_def accepted_booksI intro!: exI [of _ rc] exI [of _ r])
  qed
  then show "case Inr rc of Inl e \<Rightarrow> upload_outcome env cfg bucket url tbl data filename content_type s (Inl e) t
     | Inr rc \<Rightarrow> wp (store_and_enqueue env cfg C data rc) (\<lambda>r s'. case r of
          Inl e \<Rightarrow> upload_outcome env cfg bucket url tbl data filename content_type s (Inl e) s'
        | Inr x \<Rightarrow> wp (count_accepted (int (length data))) (\<lambda>r s'. case r of
             Inl e \<Rightarrow> upload_outcome env cfg bucket url tbl data filename content_type s (Inl e) s'
           | Inr x \<Rightarrow> wp (return rc) (upload_outcome env cfg bucket url tbl data filename content_type s) s') s') t"
    unfolding eq sum.case .
qed

lemma service_get_job_invalid: "\<not> is_valid_job_id j \<Longrightarrow> service_get_job C j s = (Inr None, s)"
  by (simp add: service_get_job_def return_def)

end

section \<open>Properties of the upload path\<close>

lemma upload_traceE:
  assumes "upload_trace env cfg bucket url tbl data rc tr r"
  obtains (no_object) "\<forall>ev \<in> set tr. fst ev = PutObject bucket (jr_input_key rc) data (jr_content_type rc)"
      "\<exists>e. r = Inl e"
    | (no_record) t1 t2 where "tr = t1 @ t2"
      "\<forall>ev \<in> set t1. fst ev = PutObject bucket (jr_input_key rc) data (jr_content_type rc)"
      "\<forall>ev \<in> set t2. fst ev = PutItem tbl (to_dynamo_dict (to_item rc))" "\<exists>e. r = Inl e"
      "(PutObject bucket (jr_input_key rc) data (jr_content_type rc), Returned PNone) \<in> set t1"
    | (enqueued) t1 t2 t3 carrier where "tr = t1 @ t2 @ t3"
      "\<forall>ev \<in> set t1. fst ev = PutObject bucket (jr_input_key rc) data (jr_content_type rc)"
      "(PutObject bucket (jr_input_key rc) data (jr_content_type rc), Returned PNone) \<in> set t1"
      "\<forall>ev \<in> set t2. fst ev = PutItem tbl (to_dynamo_dict (to_item rc))"
      "(PutItem tbl (to_dynamo_dict (to_item rc)), Returned PNone) \<in> set t2"
      "enqueue_trace env cfg url tbl rc (dict_set ''job_id'' (jr_job_id rc) carrier) t3 r"
  using assms unfolding upload_trace_def
proof (cases rule: seq_traceE)
  case (left e)
  then show ?thesis by (intro no_object) (auto dest: call_trace_request)
next
  case (right t1 x t23)
  from right(3) show ?thesis
  proof (cases rule: seq_traceE)
    case (left e)
    with right show ?thesis by (intro no_record [of t1 t23]) (auto dest: call_trace_request call_trace_ok)
  next
    case (right t2 y t3)
    with \<open>tr = t1 @ t23\<close> \<open>call_trace _ _ t1 (Inr x)\<close> show ?thesis
      by (elim exE) (intro enqueued [of t1 t2 t3]; auto dest: call_trace_request call_trace_ok)
  qed
qed

fun is_send :: "request \<Rightarrow> bool" where
  "is_send (SendMessage u b a) = True"
| "is_send q = False"

lemma enqueue_traceE:
  assumes "enqueue_trace env cfg url tbl rc attributes tr r"
  obtains (sent) m where "r = Inr m"
      "call_trace (SendMessage url (dump_message env (new_message cfg rc)) (filter (\<lambda>(n, v). v \<noteq> []) attributes)) no_answer tr (Inr m :: exn + string)"
    | (unsent) e t1 t2 where "tr = t1 @ t2" "r = Inl (EnqueueFailedError (exn_str (lib_str env) e))"
      "call_trace (SendMessage url (dump_message env (new_message cfg rc)) (filter (\<lambda>(n, v). v \<noteq> []) attributes)) no_answer t1 (Inl e :: exn + string)"
      "requeue_trace tbl rc e t2"
proof -
  from assms obtain t1 r1 t2 where t: "tr = t1 @ t2"
      "call_trace (SendMessage url (dump_message env (new_message cfg rc)) (filter (\<lambda>(n, v). v \<noteq> []) attributes)) no_answer t1 r1"
      "case r1 of Inr message_id \<Rightarrow> t2 = [] \<and> r = Inr message_id
         | Inl e \<Rightarrow> requeue_trace tbl rc e t2 \<and> r = Inl (EnqueueFailedError (exn_str (lib_str env) e))"
    unfolding enqueue_trace_def by blast
  show thesis
    by (cases r1) (use t sent unsent in auto)
qed

lemma requeue_trace_request:
  "requeue_trace tbl rc e tr \<Longrightarrow> ev \<in> set tr \<Longrightarrow> \<exists>item. fst ev = PutItem tbl item"
  by (auto simp: requeue_trace_def dest: call_trace_request)

lemma upload_trace_send:
  assumes "upload_trace env cfg bucket url tbl data rc tr r" "tr = a @ (SendMessage u body attrs, res) # b"
  shows "body = dump_message env (new_message cfg rc) \<and>
    (PutObject bucket (jr_input_key rc) data (jr_content_type rc), Returned PNone) \<in> set a \<and>
    (PutItem tbl (to_dynamo_dict (to_item rc)), Returned PNone) \<in> set a"
  using assms(1)
proof (cases rule: upload_traceE)
  case no_object
  with assms(2) show ?thesis by auto
next
  case (no_record t1 t2)
  from arg_cong [OF assms(2), of set] have "(SendMessage u body attrs, res) \<in> set tr" by simp
  with no_record show ?thesis by auto
next
  case (enqueued t1 t2 t3 carrier)
  have notin: "(SendMessage u body attrs, res) \<notin> set (t1 @ t2)" using enqueued(2,4) by auto
  have "(t1 @ t2) @ t3 = a @ (SendMessage u body attrs, res) # b"
    using enqueued(1) assms(2) by simp
  from after_prefix [OF this notin] obtain a'
    where a': "a = (t1 @ t2) @ a'" "t3 = a' @ (SendMessage u body attrs, res) # b" by blast
  then have "(SendMessage u body attrs, res) \<in> set t3" by simp
  with enqueued(6) have "body = dump_message env (new_message cfg rc)"
    by (elim enqueue_traceE) (auto dest: call_trace_request requeue_trace_request)
  with a' enqueued show ?thesis by auto
qed

lemma upload_outcome_trace:
  assumes "create_job env cfg (build_clients env cfg) data filename content_type s = (r, s')"
  shows "upload_outcome env cfg (s3_bucket cfg) (sqs_queue_url cfg) (dynamodb_table cfg) data filename content_type s r s'"
  by (rule wpD [OF aws.create_job_outcome assms])

lemma upload_outcome_cases:
  assumes "upload_outcome env cfg bucket url tbl data filename content_type s r s'"
  obtains (refused) e where "upload_refusal env cfg data content_type = Some e" "r = Inl e" "wire s' = wire s" "same_books s s'"
    | (failed) e rc tr where "upload_refusal env cfg data content_type = None" "fresh_record env data filename content_type rc"
        "wire s' = wire s @ tr" "upload_trace env cfg bucket url tbl data rc tr (Inl e)" "r = Inl e" "same_books s s'"
    | (accepted) rc tr m where "upload_refusal env cfg data content_type = None" "fresh_record env data filename content_type rc"
        "wire s' = wire s @ tr" "upload_trace env cfg bucket url tbl data rc tr (Inr m)" "r = Inr rc"
        "accepted_books (int (length data)) s s'"
proof (cases "upload_refusal env cfg data content_type")
  case None
  with assms obtain rc tr r1 where o: "fresh_record env data filename content_type rc" "wire s' = wire s @ tr"
      "upload_trace env cfg bucket url tbl data rc tr r1"
      "case r1 of Inl e \<Rightarrow> r = Inl e \<and> same_books s s' | Inr _ \<Rightarrow> r = Inr rc \<and> accepted_books (int (length data)) s s'"
    unfolding upload_outcome_def stored_upload_def by auto
  show ?thesis
    by (cases r1) (use None o failed accepted in auto)
next
  case (Some e)
  with assms refused show ?thesis by (auto simp: upload_outcome_def)
qed

lemma upload_trace_ordered:
  assumes "upload_trace env cfg bucket url tbl data rc tr r"
  shows "reqs (\<lambda>q. if is_send q then \<exists>u attrs. q = SendMessage u (dump_message env (new_message cfg rc)) attrs else True) tr"
    "guarded is_send (\<lambda>ev. ev = (PutObject bucket (jr_input_key rc) data (jr_content_type rc), Returned PNone)) tr"
    "guarded is_send (\<lambda>ev. ev = (PutItem tbl (to_dynamo_dict (to_item rc)), Returned PNone)) tr"
proof -
  have before: "\<exists>u attrs. fst ev = SendMessage u (dump_message env (new_message cfg rc)) attrs \<and>
      (PutObject bucket (jr_input_key rc) data (jr_content_type rc), Returned PNone) \<in> set a \<and>
      (PutItem tbl (to_dynamo_dict (to_item rc)), Returned PNone) \<in> set a"
    if "tr = a @ ev # b" "is_send (fst ev)" for a ev b
  proof (cases ev)
    case (Pair q res)
    with that obtain u body attrs where "ev = (SendMessage u body attrs, res)" by (cases q) auto
    with upload_trace_send [OF assms, of a u body attrs res b] that show ?thesis by auto
  qed
  show "reqs (\<lambda>q. if is_send q then \<exists>u attrs. q = SendMessage u (dump_message env (new_message cfg rc)) attrs else True) tr"
    unfolding reqs_def
  proof
    fix ev
    assume "ev \<in> set tr"
    then obtain a b where "tr = a @ ev # b" by (auto dest: split_list)
    with before show "if is_send (fst ev) then \<exists>u attrs. fst ev = SendMessage u (dump_message env (new_message cfg rc)) attrs else True"
      by fastforce
  qed
  show "guarded is_send (\<lambda>ev. ev = (PutObject bucket (jr_input_key rc) data (jr_content_type rc), Returned PNone)) tr"
    "guarded is_send (\<lambda>ev. ev = (PutItem tbl (to_dynamo_dict (to_item rc)), Returned PNone)) tr"
    by (rule guardedI, drule (1) before, blast)+
qed

text \<open>
  C9: No queued job without an object behind it. Whatever AWS answers, the log of \<open>create_job\<close> is
  empty, or there is one freshly built record such that every \<open>SendMessage\<close> carries the message of
  that record, and none is attempted before the object was stored under that record's input key and
  the record itself was stored.
\<close>

theorem upload_object_and_record_before_message:
  "wp (create_job env cfg (build_clients env cfg) data filename content_type)
     (\<lambda>r s'. \<exists>tr. wire s' = wire s @ tr \<and>
        (tr = [] \<or>
         (\<exists>rc. fresh_record env data filename content_type rc \<and>
            reqs (\<lambda>q. if is_send q then \<exists>u attrs. q = SendMessage u (dump_message env (new_message cfg rc)) attrs else True) tr \<and>
            guarded is_send (\<lambda>ev. ev = (PutObject (s3_bucket cfg) (jr_input_key rc) data (jr_content_type rc), Returned PNone)) tr \<and>
            guarded is_send (\<lambda>ev. ev = (PutItem (dynamodb_table cfg) (to_dynamo_dict (to_item rc)), Returned PNone)) tr))) s"
  by (rule wp_mono [OF aws.create_job_outcome], erule upload_outcome_cases)
    (simp, (intro exI conjI, assumption, rule disjI2, intro exI conjI, assumption, (erule upload_trace_ordered)+)+)


text \<open>
  An accepted upload is counted exactly once, its size observed once, and the record returned is
  the one whose message SQS accepted; any exception leaves the service's counters alone.
\<close>

theorem create_job_accounting:
  "wp (create_job env cfg (build_clients env cfg) data filename content_type)
     (\<lambda>r s'. case r of
         Inl e \<Rightarrow> uploads_total s' = uploads_total s \<and> upload_sizes s' = upload_sizes s
       | Inr rc \<Rightarrow> uploads_total s' = inc ACCEPTED (uploads_total s) \<and> upload_sizes s' = upload_sizes s @ [int (length data)] \<and>
           fresh_record env data filename content_type rc) s"
  by (rule wp_mono [OF aws.create_job_outcome], erule upload_outcome_cases)
    (auto simp: accepted_books_def dest: same_booksD)

text \<open>
  What an upload leaves behind when no attempt to send its message was accepted: the record was stored
  before, every attempt to send carried its message and failed, and what follows is the write of the same
  record as \<open>FAILED\<close>, whose last attempt is the accepted one if any is.
\<close>

definition left_unqueued :: "'w env \<Rightarrow> config \<Rightarrow> job_record \<Rightarrow> exn \<Rightarrow> event list \<Rightarrow> event list \<Rightarrow> event list \<Rightarrow> bool" where
  "left_unqueued env cfg rc e stored sends marks \<longleftrightarrow>
     (PutItem (dynamodb_table cfg) (to_dynamo_dict (to_item rc)), Returned PNone) \<in> set stored \<and>
     sends \<noteq> [] \<and> \<not> list_ex ok sends \<and>
     reqs (\<lambda>q. \<exists>attrs. q = SendMessage (sqs_queue_url cfg) (dump_message env (new_message cfg rc)) attrs) sends \<and>
     (\<exists>updated completed (r :: exn + unit).
        call_trace (PutItem (dynamodb_table cfg) (to_dynamo_dict (to_item (unqueueable rc e updated completed)))) no_answer marks r)"

lemma upload_trace_unsent:
  assumes "upload_trace env cfg bucket (sqs_queue_url cfg) (dynamodb_table cfg) data rc tr r"
    and "list_ex (\<lambda>ev. is_send (fst ev)) tr" "\<not> list_ex (\<lambda>ev. is_send (fst ev) \<and> ok ev) tr"
  obtains e stored sends marks where "r = Inl (EnqueueFailedError (exn_str (lib_str env) e))"
    "tr = stored @ sends @ marks" "left_unqueued env cfg rc e stored sends marks"
  using assms(1)
proof (cases rule: upload_traceE)
  case no_object
  with assms(2) show ?thesis by (auto simp: list_ex_iff)
next
  case (no_record t1 t2)
  with assms(2) show ?thesis by (auto simp: list_ex_iff)
next
  case (enqueued t1 t2 t3 carrier)
  from enqueued(6) show ?thesis
  proof (cases rule: enqueue_traceE)
    case (sent m)
    then have "\<exists>ev \<in> set t3. is_send (fst ev) \<and> ok ev"
      by (auto dest!: call_trace_ok intro!: bexI)
    with assms(3) enqueued(1) show ?thesis by (auto simp: list_ex_iff)
  next
    case (unsent e t4 t5)
    have "left_unqueued env cfg rc e (t1 @ t2) t4 t5"
      using unsent(3,4) enqueued(5)
      by (auto simp: left_unqueued_def call_trace_def requeue_trace_def reqs_def list_ex_iff)
    with unsent(1,2) enqueued(1) show ?thesis by (intro that [of e "t1 @ t2" t4 t5]) simp_all
  qed
qed

lemma left_unqueued_marks:
  assumes "left_unqueued env cfg rc e stored sends marks"
  obtains updated completed where "marks \<noteq> []"
    "reqs (\<lambda>q. q = PutItem (dynamodb_table cfg) (to_dynamo_dict (to_item (unqueueable rc e updated completed)))) marks"
    "if list_ex ok marks then ok (last marks) else True"
    "dict_get (to_item (unqueueable rc e updated completed)) ''job_id'' = Some (PStr (jr_job_id rc))"
    "dict_get (to_item (unqueueable rc e updated completed)) ''status'' = Some (PStr ''FAILED'')"
proof -
  from assms obtain updated completed and r :: "exn + unit" where
    "call_trace (PutItem (dynamodb_table cfg) (to_dynamo_dict (to_item (unqueueable rc e updated completed)))) no_answer marks r"
    unfolding left_unqueued_def by blast
  then show thesis
    by (intro that [of updated completed])
      (auto simp: call_trace_def reqs_def list_ex_iff to_item_status unqueueable_def to_item_job_id split: sum.splits)
qed

lemma unsent_upload:
  "wp (create_job env cfg (build_clients env cfg) data filename content_type)
     (\<lambda>r s'. \<exists>tr. wire s' = wire s @ tr \<and>
        (if list_ex (\<lambda>ev. is_send (fst ev)) tr \<and> \<not> list_ex (\<lambda>ev. is_send (fst ev) \<and> ok ev) tr
         then \<exists>rc e stored sends marks. fresh_record env data filename content_type rc \<and>
           r = Inl (EnqueueFailedError (exn_str (lib_str env) e)) \<and> tr = stored @ sends @ marks \<and>
           left_unqueued env cfg rc e stored sends marks
         else True)) s" (is "wp _ ?Q s")
proof (rule wp_mono [OF aws.create_job_outcome], erule upload_outcome_cases)
  fix r :: "exn + job_record" and s' :: "'a st" and rc tr m
  assume a: "wire s' = wire s @ tr"
    "upload_trace env cfg (s3_bucket cfg) (sqs_queue_url cfg) (dynamodb_table cfg) data rc tr (Inr m)"
  have "\<not> (list_ex (\<lambda>ev. is_send (fst ev)) tr \<and> \<not> list_ex (\<lambda>ev. is_send (fst ev) \<and> ok ev) tr)"
    using upload_trace_unsent [OF a(2)] by blast
  with a(1) show "?Q r s'" by (intro exI [of _ tr]) (simp only: if_False simp_thms)
next
  fix r :: "exn + job_record" and s' :: "'a st" and e rc tr
  assume a: "wire s' = wire s @ tr" "upload_trace env cfg (s3_bucket cfg) (sqs_queue_url cfg) (dynamodb_table cfg) data rc tr (Inl e)"
    "r = Inl e" "fresh_record env data filename content_type rc"
  show "?Q r s'"
  proof (cases "list_ex (\<lambda>ev. is_send (fst ev)) tr \<and> \<not> list_ex (\<lambda>ev. is_send (fst ev) \<and> ok ev) tr")
    case True
    obtain e' stored sends marks where u: "(Inl e :: exn + string) = Inl (EnqueueFailedError (exn_str (lib_str env) e'))"
        "tr = stored @ sends @ marks" "left_unqueued env cfg rc e' stored sends marks"
      by (rule upload_trace_unsent [OF a(2) conjunct1 [OF True] conjunct2 [OF True]])
    from u(1) have "r = Inl (EnqueueFailedError (exn_str (lib_str env) e'))" using a(3) by simp
    with a(4) u(2,3) have "\<exists>rc e stored sends marks. fresh_record env data filename content_type rc \<and>
        r = Inl (EnqueueFailedError (exn_str (lib_str env) e)) \<and> tr = stored @ sends @ marks \<and>
        left_unqueued env cfg rc e stored sends marks" by blast
    with a(1) show ?thesis
      by (intro exI [of _ tr]) (unfold if_P [OF True], rule conjI)
  next
    case False
    with a(1) show ?thesis by (intro exI [of _ tr]) (simp only: if_False simp_thms)
  qed
qed auto

text \<open>
  A stored filename is never empty, at most 255 characters, free of control characters, slashes
  and backslashes, and never contains two dots in a row, whatever the client sent.
\<close>

theorem sanitised_filename_is_safe:
  "sanitise_filename filename \<noteq> [] \<and> length (sanitise_filename filename) \<le> 255 \<and>
   \<not> py_contains ''..'' (sanitise_filename filename) \<and>
   list_all (\<lambda>c. \<not> unsafe_char c) (sanitise_filename filename)"
  using sanitise_filename_ok [of filename] unfolding safe_filename_def list_all_iff by blast

definition accepted_record :: "config \<Rightarrow> job_record \<Rightarrow> bool" where
  "accepted_record cfg rc \<longleftrightarrow>
     jr_status rc = PENDING \<and> safe_filename (jr_filename rc) \<and>
     jr_content_type rc \<in> set ALLOWED_CONTENT_TYPES \<and>
     (\<exists>ext \<in> {''.jpg'', ''.png'', ''.webp'', ''.gif'', ''.bmp'', ''.tiff''}.
        jr_input_key rc = ''uploads/'' @ jr_job_id rc @ ''/original'' @ ext) \<and>
     0 < jr_size_bytes rc \<and> jr_size_bytes rc \<le> max_upload_bytes cfg \<and>
     (\<exists>w h. jr_source_width rc = Some w \<and> jr_source_height rc = Some h \<and> 0 < w \<and> 0 < h)"

lemma fresh_record_accepted:
  assumes "upload_refusal env cfg data content_type = None" "fresh_record env data filename content_type rc"
  shows "accepted_record cfg rc"
proof -
  from assms obtain job_id created updated probe trace_id where
    p: "probe_upload env data = Inr probe"
    and rc: "rc = new_record job_id created updated filename data content_type probe trace_id"
    and v: "validate_upload cfg content_type (int (length data)) = Inr ()"
    by (auto simp: fresh_record_def upload_refusal_def split: sum.splits)
  from p have ok: "data \<noteq> []" "probe_ok probe"
    using probe_image_ok [of "pil env" "lib_str env" data probe]
    by (auto simp: probe_upload_def split: sum.splits if_splits)
  then have "ip_extension probe \<in> {''.jpg'', ''.png'', ''.webp'', ''.gif'', ''.bmp'', ''.tiff''}"
    by (auto simp: probe_ok_def dest: FORMAT_EXTENSIONS_cases)
  with ok v show ?thesis
    unfolding accepted_record_def rc
    by (auto simp: new_record_def sanitise_filename_ok validate_upload_def probe_ok_def split: if_splits)
qed

text \<open>
  C31: Whatever Pillow and AWS answer, a record that \<open>create_job\<close> returns is \<open>PENDING\<close>, has a safe
  filename, an allowed content type, a size within the limit, positive dimensions, and its input key
  is built from its own job id and an extension of the detected format.
\<close>

theorem create_job_record_wellformed:
  "wp (create_job env cfg (build_clients env cfg) data filename content_type)
     (\<lambda>r s'. case r of Inl e \<Rightarrow> True | Inr rc \<Rightarrow> accepted_record cfg rc) s"
  by (rule wp_mono [OF aws.create_job_outcome], erule upload_outcome_cases) (auto intro: fresh_record_accepted)

text \<open>
  An identifier that is not of the UUID shape is answered without any request to DynamoDB, and
  one that is contains no character but hexadecimal digits, dashes and a final newline.
\<close>

theorem malformed_job_id_never_reaches_table:
  "if is_valid_job_id j then list_all (\<lambda>c. is_hex c \<or> c = CHR ''-'' \<or> c = CHR 0x0A) j
   else service_get_job (build_clients env cfg) j s = (Inr None, s)"
  using valid_job_id_chars by (simp add: aws.service_get_job_invalid list_all_iff)

text \<open>
  The pattern for job ids accepts a valid identifier followed by one newline.
\<close>

theorem job_id_pattern_accepts_newline:
  "uuid_shape j \<Longrightarrow> is_valid_job_id (j @ [CHR 0x0A])"
  by (simp add: is_valid_job_id_def)

theorem job_id_pattern_accepts_newline_witness:
  "is_valid_job_id (''0123abcd-0123-4567-89ab-0123456789AB'' @ [CHR 0x0A])"
  by (rule job_id_pattern_accepts_newline) (simp add: uuid_shape_def is_hex_def is_dec_def py_ord_def)

end
