(* ===== verification/Expressions.thy ===== *)
theory Expressions
  imports Clients
begin

text \<open>
  The update and condition expressions \<open>JobTable\<close> sends to DynamoDB (\<open>shared/aws.py\<close>). What the service does
  with a request is the parameter \<open>up\<close>: from the expression, the condition, the names, the values and the
  stored item (if any) it computes the new item, or \<open>None\<close> if the condition fails. \<open>documented up\<close> is its
  documented behaviour on the part of the language with \<open>SET\<close>, \<open>REMOVE\<close>, \<open>attribute_exists\<close>, \<open><>\<close> and \<open>AND\<close>,
  for requests that define exactly the placeholders they use; it reads the texts the code sends.
\<close>

type_synonym updater =
  "string \<Rightarrow> string option \<Rightarrow> (string \<times> string) list \<Rightarrow> pyval dict \<Rightarrow> pyval dict option \<Rightarrow> pyval dict option"

section \<open>Reading the expressions\<close>

definition comma_end :: "string \<Rightarrow> string \<times> bool" where
  "comma_end w = (if w \<noteq> [] \<and> last w = CHR '','' then (butlast w, True) else (w, False))"

fun parse_sets :: "string list \<Rightarrow> ((string \<times> string) list \<times> string list) option" where
  "parse_sets (n # e # v # ws) =
     (if e \<noteq> ''='' then None
      else (case comma_end v of (v', continues) \<Rightarrow>
        if continues then map_option (\<lambda>(as, rest). ((n, v') # as, rest)) (parse_sets ws) else Some ([(n, v')], ws)))"
| "parse_sets _ = None"

fun parse_removes :: "string list \<Rightarrow> string list option" where
  "parse_removes [] = None"
| "parse_removes (n # ws) =
     (case comma_end n of (n', continues) \<Rightarrow>
        if continues then map_option (Cons n') (parse_removes ws) else if ws = [] then Some [n'] else None)"

definition parse_update :: "string \<Rightarrow> ((string \<times> string) list \<times> string list) option" where
  "parse_update u =
     (case py_split (CHR '' '') u of
        [] \<Rightarrow> None
      | w # ws \<Rightarrow>
          if w \<noteq> ''SET'' then None
          else (case parse_sets ws of
                  None \<Rightarrow> None
                | Some (as, []) \<Rightarrow> Some (as, [])
                | Some (as, r # rs) \<Rightarrow> if r = ''REMOVE'' then map_option (Pair as) (parse_removes rs) else None))"

datatype condition = Exists string | Differs string string

fun split_and :: "string list \<Rightarrow> string list list" where
  "split_and [] = [[]]"
| "split_and (w # ws) =
     (if w = ''AND'' then [] # split_and ws
      else (case split_and ws of [] \<Rightarrow> [[w]] | t # ts \<Rightarrow> (w # t) # ts))"

fun parse_term :: "string list \<Rightarrow> condition option" where
  "parse_term [w] =
     (if py_startswith w ''attribute_exists('' \<and> last w = CHR '')'' then Some (Exists (butlast (drop 17 w))) else None)"
| "parse_term [n, e, v] = (if e = ''<>'' then Some (Differs n v) else None)"
| "parse_term _ = None"

definition parse_condition :: "string option \<Rightarrow> condition list option" where
  "parse_condition c =
     (case c of None \<Rightarrow> Some [] | Some text \<Rightarrow> those (map parse_term (split_and (py_split (CHR '' '') text))))"

section \<open>Their meaning\<close>

definition item_attr :: "pyval dict option \<Rightarrow> string \<Rightarrow> pyval option" where
  "item_attr item a = (case item of None \<Rightarrow> None | Some i \<Rightarrow> dict_get i a)"

definition resolve :: "(string \<times> string) list \<Rightarrow> string \<Rightarrow> string" where
  "resolve names a = opt_get a (map_of names a)"

text \<open>An item always has its key \<open>job_id\<close>.\<close>

fun holds :: "(string \<times> string) list \<Rightarrow> pyval dict \<Rightarrow> pyval dict option \<Rightarrow> condition \<Rightarrow> bool" where
  "holds names values item (Exists a) \<longleftrightarrow>
     item \<noteq> None \<and> (resolve names a = ''job_id'' \<or> item_attr item (resolve names a) \<noteq> None)"
| "holds names values item (Differs a p) \<longleftrightarrow> item_attr item (resolve names a) \<noteq> dict_get values p"

text \<open>The attributes set take their values, those removed are gone, the others are kept.\<close>

definition sets_to :: "(string \<times> string) list \<Rightarrow> string list \<Rightarrow> pyval dict \<Rightarrow> pyval dict option \<Rightarrow> pyval dict \<Rightarrow> bool" where
  "sets_to assignments removed values before after \<longleftrightarrow>
     (\<forall>a. a \<noteq> ''job_id'' \<longrightarrow> dict_get after a =
        (if a \<in> set removed then None
         else case map_of assignments a of Some p \<Rightarrow> dict_get values p | None \<Rightarrow> item_attr before a))"

fun condition_attr :: "condition \<Rightarrow> string" where
  "condition_attr (Exists a) = a"
| "condition_attr (Differs a p) = a"

fun condition_values :: "condition \<Rightarrow> string list" where
  "condition_values (Exists a) = []"
| "condition_values (Differs a p) = [p]"

text \<open>DynamoDB refuses placeholders that are used but not defined, and those defined but not used.\<close>

definition placeholders_match ::
  "(string \<times> string) list \<Rightarrow> string list \<Rightarrow> condition list \<Rightarrow> (string \<times> string) list \<Rightarrow> pyval dict \<Rightarrow> bool" where
  "placeholders_match as rs conds names values \<longleftrightarrow>
     set (filter (\<lambda>a. py_startswith a ''#'') (map fst as @ rs @ map condition_attr conds)) = set (map fst names) \<and>
     set (map snd as @ concat (map condition_values conds)) = set (dict_keys values)"

definition documented :: "updater \<Rightarrow> bool" where
  "documented up \<longleftrightarrow>
     (\<forall>u c names values item as rs conds.
        parse_update u = Some (as, rs) \<and> parse_condition c = Some conds \<and> placeholders_match as rs conds names values \<longrightarrow>
        (if list_all (holds names values item) conds
         then \<exists>i. up u c names values item = Some i \<and>
           sets_to (map (\<lambda>(a, p). (resolve names a, p)) as) (map (resolve names) rs) values item i
         else up u c names values item = None))"

lemma documentedD:
  assumes "documented up" "parse_update u = Some (as, rs)" "parse_condition c = Some conds"
    "placeholders_match as rs conds names values"
  shows "if list_all (holds names values item) conds
     then \<exists>i. up u c names values item = Some i \<and>
       sets_to (map (\<lambda>(a, p). (resolve names a, p)) as) (map (resolve names) rs) values item i
     else up u c names values item = None"
  using assms(1) [unfolded documented_def] assms(2-4) by blast

section \<open>The expressions of the code\<close>

lemma parse_processing:
  "parse_update PROCESSING_UPDATE = Some ([(''#s'', '':processing''), (''started_at'', '':now''), (''updated_at'', '':now'')], [])"
  by code_simp

lemma parse_processing_condition:
  "parse_condition (Some PROCESSING_CONDITION) = Some [Exists ''job_id'', Differs ''#s'' '':complete'']"
  by code_simp

lemma parse_complete:
  "parse_update COMPLETE_UPDATE = Some ([(''#s'', '':status''), (''outputs'', '':outputs''), (''exif'', '':exif''),
     (''source_width'', '':width''), (''source_height'', '':height''), (''source_format'', '':format''),
     (''processing_ms'', '':ms''), (''completed_at'', '':now''), (''updated_at'', '':now'')], [''#e''])"
  by code_simp

lemma parse_failed:
  "parse_update FAILED_UPDATE = Some ([(''#s'', '':status''), (''#e'', '':reason''), (''completed_at'', '':now''), (''updated_at'', '':now'')], [])"
  by code_simp

lemma parse_no_condition: "parse_condition None = Some []"
  by (simp add: parse_condition_def)

lemma resolve_simps [simp]:
  "resolve [] a = a" "resolve ((n, b) # names) a = (if a = n then b else resolve names a)"
  by (simp_all add: resolve_def)

lemma processing_matches:
  "placeholders_match [(''#s'', '':processing''), (''started_at'', '':now''), (''updated_at'', '':now'')] []
     [Exists ''job_id'', Differs ''#s'' '':complete''] [(''#s'', ''status'')] (processing_values now)"
  by (auto simp: placeholders_match_def processing_values_def dict_keys_def py_startswith_def)

lemma complete_matches:
  "placeholders_match [(''#s'', '':status''), (''outputs'', '':outputs''), (''exif'', '':exif''),
     (''source_width'', '':width''), (''source_height'', '':height''), (''source_format'', '':format''),
     (''processing_ms'', '':ms''), (''completed_at'', '':now''), (''updated_at'', '':now'')] [''#e''] []
     [(''#s'', ''status''), (''#e'', ''error'')] (complete_values os ex w h f ms now)"
  by (auto simp: placeholders_match_def complete_values_def to_dynamo_dict_def dict_keys_def py_startswith_def)

lemma failed_matches:
  "placeholders_match [(''#s'', '':status''), (''#e'', '':reason''), (''completed_at'', '':now''), (''updated_at'', '':now'')] [] []
     [(''#s'', ''status''), (''#e'', ''error'')] (failed_values reason now)"
  by (auto simp: placeholders_match_def failed_values_def dict_keys_def py_startswith_def)

text \<open>What the three requests do to an item.\<close>

lemma documented_processing:
  assumes "documented up"
  shows "if item = None \<or> item_attr item ''status'' = Some (PStr ''COMPLETE'')
    then up PROCESSING_UPDATE (Some PROCESSING_CONDITION) [(''#s'', ''status'')] (processing_values now) item = None
    else \<exists>i. up PROCESSING_UPDATE (Some PROCESSING_CONDITION) [(''#s'', ''status'')] (processing_values now) item = Some i \<and>
      sets_to [(''status'', '':processing''), (''started_at'', '':now''), (''updated_at'', '':now'')] [] (processing_values now) item i"
proof -
  have "dict_get (processing_values now) '':complete'' = Some (PStr ''COMPLETE'')"
    by (simp add: processing_values_def dict_get_def)
  then show ?thesis
    using documentedD [OF assms parse_processing parse_processing_condition processing_matches, of now item]
    by (simp split: if_splits)
qed

lemma documented_complete:
  assumes "documented up"
  shows "\<exists>i. up COMPLETE_UPDATE None [(''#s'', ''status''), (''#e'', ''error'')] (complete_values os ex w h f ms now) item = Some i \<and>
    sets_to [(''status'', '':status''), (''outputs'', '':outputs''), (''exif'', '':exif''), (''source_width'', '':width''),
      (''source_height'', '':height''), (''source_format'', '':format''), (''processing_ms'', '':ms''),
      (''completed_at'', '':now''), (''updated_at'', '':now'')] [''error''] (complete_values os ex w h f ms now) item i"
  using documentedD [OF assms parse_complete parse_no_condition complete_matches, of os ex w h f ms now item] by simp

lemma documented_failed:
  assumes "documented up"
  shows "\<exists>i. up FAILED_UPDATE None [(''#s'', ''status''), (''#e'', ''error'')] (failed_values reason now) item = Some i \<and>
    sets_to [(''status'', '':status''), (''error'', '':reason''), (''completed_at'', '':now''), (''updated_at'', '':now'')]
      [] (failed_values reason now) item i"
  using documentedD [OF assms parse_failed parse_no_condition failed_matches, of reason now item] by simp

section \<open>A reference implementation\<close>

text \<open>It shows that \<open>documented\<close> can hold, and serves the witnesses.\<close>

definition assign :: "(string \<times> string) list \<Rightarrow> string list \<Rightarrow> pyval dict \<Rightarrow> pyval dict option \<Rightarrow> pyval dict" where
  "assign assignments removed values item =
     filter (\<lambda>(a, v). a \<notin> set removed)
       (foldr (\<lambda>(a, p). dict_set a (opt_get PNone (dict_get values p))) assignments (opt_get [] item))"

definition reference_updater :: updater where
  "reference_updater u c names values item =
     (case (parse_update u, parse_condition c) of
        (Some (as, rs), Some conds) \<Rightarrow>
          if list_all (holds names values item) conds
          then Some (assign (map (\<lambda>(a, p). (resolve names a, p)) as) (map (resolve names) rs) values item)
          else None
      | _ \<Rightarrow> None)"

lemma dict_get_filter: "dict_get (filter (\<lambda>(a, v). P a) d) a = (if P a then dict_get d a else None)"
  by (induction d) (auto simp: dict_get_def)

lemma dict_get_assign:
  "dict_get (foldr (\<lambda>(a, p). dict_set a (opt_get PNone (dict_get values p))) as d) a =
     (case map_of as a of Some p \<Rightarrow> Some (opt_get PNone (dict_get values p)) | None \<Rightarrow> dict_get d a)"
  by (induction as) (auto split: option.split)

lemma assign_sets:
  assumes "\<forall>p \<in> snd ` set as. dict_get values p \<noteq> None"
  shows "sets_to as removed values item (assign as removed values item)"
proof -
  have "Some (opt_get PNone (dict_get values p)) = dict_get values p" if "map_of as a = Some p" for a p
    using assms map_of_SomeD [OF that] by force
  moreover have "dict_get (opt_get [] item) a = item_attr item a" for a
    by (cases item) (simp_all add: item_attr_def dict_get_def)
  ultimately show ?thesis
    unfolding sets_to_def assign_def by (auto simp: dict_get_filter dict_get_assign split: option.split)
qed

lemma placeholders_defined:
  assumes "placeholders_match as rs conds names values" "p \<in> snd ` set as"
  shows "dict_get values p \<noteq> None"
proof -
  have "p \<in> set (dict_keys values)" using assms by (auto simp: placeholders_match_def)
  then show ?thesis by (simp add: dict_get_def dict_keys_def map_of_eq_None_iff)
qed

lemma reference_documented: "documented reference_updater"
  unfolding documented_def
proof (intro allI impI, elim conjE)
  fix u c names vs item assigned rs conds
  assume p: "parse_update u = Some (assigned, rs)" "parse_condition c = Some conds" "placeholders_match assigned rs conds names vs"
  let ?as = "map (\<lambda>(a, p). (resolve names a, p)) assigned"
  have "snd ` set ?as = snd ` set assigned" by force
  then have "sets_to ?as (map (resolve names) rs) vs item (assign ?as (map (resolve names) rs) vs item)"
    using placeholders_defined [OF p(3)] by (intro assign_sets) simp
  with p(1,2) show "if list_all (holds names vs item) conds
      then \<exists>i. reference_updater u c names vs item = Some i \<and> sets_to ?as (map (resolve names) rs) vs item i
      else reference_updater u c names vs item = None"
    by (simp add: reference_updater_def)
qed

end
