(* ===== verification/Lifecycle.thy ===== *)
theory Lifecycle
  imports Deliveries Service Expressions
begin

text \<open>
  The job record over time, with several API and worker processes acting on one table. The services
  only see the table through the requests of \<open>Aws\<close>; here these requests are given their meaning, and
  the logs of the processes are interleaved arbitrarily.

  What DynamoDB does with an update is the parameter \<open>up\<close> of theory \<open>Expressions\<close>, with the hypothesis
  \<open>documented up\<close> on the meaning of the expression language.
\<close>

type_synonym item_table = "string \<Rightarrow> pyval dict option"

definition item_status :: "pyval dict option \<Rightarrow> job_status option" where
  "item_status item = (case item_attr item ''status'' of
       Some (PStr s) \<Rightarrow> find (\<lambda>st. status_value st = s) [PENDING, PROCESSING, COMPLETE, FAILED]
     | _ \<Rightarrow> None)"

section \<open>One request, served by the table\<close>

fun about_table :: "string \<Rightarrow> request \<Rightarrow> bool" where
  "about_table tbl (PutItem t i) = (t = tbl)"
| "about_table tbl (GetItem t j c) = (t = tbl)"
| "about_table tbl (UpdateItem t j u c ns vs) = (t = tbl)"
| "about_table tbl q = False"

definition refuses :: "outcome \<Rightarrow> bool" where
  "refuses res \<longleftrightarrow> (\<exists>e. res = Raised e \<and> conditional_check_failed e)"

text \<open>
  A write that returned was applied. A write that raised may have been applied or not (the answer may be
  lost), unless the error says that the condition failed. A strongly consistent read returns the item.
\<close>

inductive table_step :: "updater \<Rightarrow> string \<Rightarrow> item_table \<Rightarrow> event \<Rightarrow> item_table \<Rightarrow> bool" for up tbl where
  put: "dict_get item ''job_id'' = Some (PStr j) \<Longrightarrow> table_step up tbl T (PutItem tbl item, res) (T(j \<mapsto> item))"
| put_lost: "table_step up tbl T (PutItem tbl item, Raised e) T"
| update: "up u c ns vs (T j) = Some i \<Longrightarrow> \<not> refuses res \<Longrightarrow> table_step up tbl T (UpdateItem tbl j u c ns vs, res) (T(j \<mapsto> i))"
| update_refused: "up u c ns vs (T j) = None \<Longrightarrow> refuses res \<Longrightarrow> table_step up tbl T (UpdateItem tbl j u c ns vs, res) T"
| update_lost: "\<not> conditional_check_failed e \<Longrightarrow> table_step up tbl T (UpdateItem tbl j u c ns vs, Raised e) T"
| get: "c \<noteq> Some True \<or> v = item_answer (T j) \<Longrightarrow> table_step up tbl T (GetItem tbl j c, Returned v) T"
| get_lost: "table_step up tbl T (GetItem tbl j c, Raised e) T"
| elsewhere: "\<not> about_table tbl q \<Longrightarrow> table_step up tbl T (q, res) T"

inductive_cases put_stepE: "table_step up tbl T (PutItem tbl item, res) T'"
inductive_cases update_stepE: "table_step up tbl T (UpdateItem tbl j u c ns vs, res) T'"
inductive_cases get_stepE: "table_step up tbl T (GetItem tbl j c, res) T'"

text \<open>A log served from table \<open>T\<close> to table \<open>T'\<close>.\<close>

inductive served :: "updater \<Rightarrow> string \<Rightarrow> item_table \<Rightarrow> event list \<Rightarrow> item_table \<Rightarrow> bool" for up tbl where
  nothing: "served up tbl T [] T"
| more: "table_step up tbl T ev T1 \<Longrightarrow> served up tbl T1 tr T2 \<Longrightarrow> served up tbl T (ev # tr) T2"

inductive_simps served_Nil [simp]: "served up tbl T [] T'"
inductive_simps served_Cons [simp]: "served up tbl T (ev # tr) T'"

lemma served_append: "served up tbl T (a @ b) T' \<longleftrightarrow> (\<exists>T1. served up tbl T a T1 \<and> served up tbl T1 b T')"
  by (induction a arbitrary: T) auto

section \<open>The requests of the system\<close>

text \<open>Every write either service sends to the table is one of these.\<close>

definition initial_item :: "pyval dict \<Rightarrow> job_record \<Rightarrow> bool" where
  "initial_item item rc \<longleftrightarrow> item = to_dynamo_dict (to_item rc) \<and> (jr_status rc = PENDING \<or> jr_status rc = FAILED)"

fun system_request :: "string \<Rightarrow> request \<Rightarrow> bool" where
  "system_request tbl (PutItem t item) \<longleftrightarrow> t = tbl \<and> (\<exists>rc. initial_item item rc)"
| "system_request tbl (UpdateItem t j u c ns vs) \<longleftrightarrow> table_write tbl j (UpdateItem t j u c ns vs)"
| "system_request tbl q \<longleftrightarrow> True"

lemma render_system: "render_request bucket url rh job q \<Longrightarrow> system_request tbl q"
  by (cases q) auto

lemma delivery_system: "delivery_request bucket url tbl rh job q \<Longrightarrow> system_request tbl q"
proof (cases q)
  case (UpdateItem t j u c ns vs)
  assume "delivery_request bucket url tbl rh job q"
  then have "table_write tbl (jm_job_id job) (UpdateItem t j u c ns vs)" by (simp add: UpdateItem)
  with table_write_update [OF this] show ?thesis by (auto simp: UpdateItem)
qed auto

lemma new_record_status: "fresh_record env data filename content_type rc \<Longrightarrow> jr_status rc = PENDING"
  by (auto simp: fresh_record_def new_record_def)

lemma reqs_all: "\<forall>ev \<in> set tr. fst ev = q \<Longrightarrow> P q \<Longrightarrow> reqs P tr"
  by (simp add: reqs_def)

lemma initial_record: "jr_status rc = PENDING \<Longrightarrow> system_request tbl (PutItem tbl (to_dynamo_dict (to_item rc)))"
  by (auto simp: initial_item_def)

lemma upload_system:
  assumes "upload_trace env cfg bucket url tbl data rc tr r" "jr_status rc = PENDING"
  shows "reqs (system_request tbl) tr"
  using assms(1)
proof (cases rule: upload_traceE)
  case no_object
  then show ?thesis by (auto elim: reqs_all)
next
  case (no_record t1 t2)
  have "reqs (system_request tbl) t1" by (rule reqs_all [OF no_record(2)]) simp
  moreover have "reqs (system_request tbl) t2" by (rule reqs_all [OF no_record(3)], rule initial_record [OF assms(2)])
  ultimately show ?thesis using no_record(1) by simp
next
  case (enqueued t1 t2 t3 carrier)
  have "reqs (system_request tbl) t3"
    using enqueued(6)
  proof (cases rule: enqueue_traceE)
    case (sent m)
    then show ?thesis by (auto intro: call_trace_reqs)
  next
    case (unsent e t4 t5)
    from unsent(4) obtain updated completed and r5 :: "exn + unit" where
      c: "call_trace (PutItem tbl (to_dynamo_dict (to_item (unqueueable rc e updated completed)))) no_answer t5 r5"
      unfolding requeue_trace_def by auto
    have "initial_item (to_dynamo_dict (to_item (unqueueable rc e updated completed))) (unqueueable rc e updated completed)"
      by (simp add: initial_item_def unqueueable_def)
    then have "reqs (system_request tbl) t5"
      by (intro call_trace_reqs [OF c]) auto
    with unsent show ?thesis by (auto intro: call_trace_reqs)
  qed
  moreover have "reqs (system_request tbl) t1" by (rule reqs_all [OF enqueued(2)]) simp
  moreover have "reqs (system_request tbl) t2" by (rule reqs_all [OF enqueued(4)], rule initial_record [OF assms(2)])
  ultimately show ?thesis using enqueued(1) by simp
qed

section \<open>The life of a job, abstractly\<close>

datatype job_state = Missing | Unreadable | In job_status

definition job_state_of :: "pyval dict option \<Rightarrow> job_state" where
  "job_state_of item = (case item of None \<Rightarrow> Missing
     | Some i \<Rightarrow> (case item_status item of None \<Rightarrow> Unreadable | Some st \<Rightarrow> In st))"

datatype job_op = Put | Claim | Finish | Fail

text \<open>
  The moves of a record: it is put as \<open>PENDING\<close> or \<open>FAILED\<close>; a claim takes an existing record that is not
  \<open>COMPLETE\<close> to \<open>PROCESSING\<close>; the other two updates are unconditional.
\<close>

fun job_move :: "job_op \<Rightarrow> job_state \<Rightarrow> job_state \<Rightarrow> bool" where
  "job_move Put a b \<longleftrightarrow> b = In PENDING \<or> b = In FAILED"
| "job_move Claim a b \<longleftrightarrow> a \<noteq> Missing \<and> a \<noteq> In COMPLETE \<and> b = In PROCESSING"
| "job_move Finish a b \<longleftrightarrow> b = In COMPLETE"
| "job_move Fail a b \<longleftrightarrow> b = In FAILED"

fun op_of :: "request \<Rightarrow> job_op option" where
  "op_of (PutItem t item) = Some Put"
| "op_of (UpdateItem t j u c ns vs) =
     (if u = PROCESSING_UPDATE then Some Claim else if u = COMPLETE_UPDATE then Some Finish
      else if u = FAILED_UPDATE then Some Fail else None)"
| "op_of q = None"

fun job_of :: "request \<Rightarrow> string option" where
  "job_of (PutItem t item) = (case dict_get item ''job_id'' of Some (PStr j) \<Rightarrow> Some j | _ \<Rightarrow> None)"
| "job_of (UpdateItem t j u c ns vs) = Some j"
| "job_of q = None"

lemma update_distinct [simp]:
  "COMPLETE_UPDATE \<noteq> PROCESSING_UPDATE" "PROCESSING_UPDATE \<noteq> COMPLETE_UPDATE" "FAILED_UPDATE \<noteq> PROCESSING_UPDATE"
  "PROCESSING_UPDATE \<noteq> FAILED_UPDATE" "FAILED_UPDATE \<noteq> COMPLETE_UPDATE" "COMPLETE_UPDATE \<noteq> FAILED_UPDATE"
  by (simp_all add: COMPLETE_UPDATE_def PROCESSING_UPDATE_def FAILED_UPDATE_def)

lemma op_of_writes [simp]:
  "op_of (processing_request tbl j now) = Some Claim" "op_of (complete_request tbl j os ex w h f ms now) = Some Finish"
  "op_of (failed_request tbl j reason now) = Some Fail"
  by (simp_all add: processing_request_def complete_request_def failed_request_def)

lemma job_of_writes [simp]:
  "job_of (processing_request tbl j now) = Some j" "job_of (complete_request tbl j os ex w h f ms now) = Some j"
  "job_of (failed_request tbl j reason now) = Some j"
  by (simp_all add: processing_request_def complete_request_def failed_request_def)

text \<open>The status a written item has.\<close>

lemma find_status: "find (\<lambda>st. status_value st = status_value x) [PENDING, PROCESSING, COMPLETE, FAILED] = Some x"
  by (cases x) simp_all

lemma job_state_written: "dict_get i ''status'' = Some (PStr (status_value st)) \<Longrightarrow> job_state_of (Some i) = In st"
  by (simp only: job_state_of_def item_status_def item_attr_def option.case pyval.case find_status)

lemma job_state_complete: "job_state_of item = In COMPLETE \<longleftrightarrow> item_attr item ''status'' = Some (PStr ''COMPLETE'')"
  by (cases item) (auto simp: job_state_of_def item_status_def item_attr_def split: option.splits pyval.splits if_splits)

lemma dict_get_to_dynamo:
  "distinct (dict_keys d) \<Longrightarrow> dict_get d k = Some v \<Longrightarrow> v \<noteq> PNone \<Longrightarrow> dict_get (to_dynamo_dict d) k = Some (to_dynamo v)"
  by (induction d) (auto simp: to_dynamo_dict_def dict_get_def dict_keys_def split: if_splits)

lemma processing_status: "dict_get (processing_values now) '':processing'' = Some (PStr (status_value PROCESSING))"
  by (simp add: processing_values_def dict_get_def)

lemma complete_status: "dict_get (complete_values os ex w h f ms now) '':status'' = Some (PStr (status_value COMPLETE))"
  by (simp add: complete_values_def to_dynamo_dict_def dict_get_def)

lemma failed_status: "dict_get (failed_values reason now) '':status'' = Some (PStr (status_value FAILED))"
  by (simp add: failed_values_def dict_get_def)

lemma sets_to_status:
  assumes "sets_to as removed values before after" "map_of as ''status'' = Some p" "''status'' \<notin> set removed"
    and "dict_get values p = Some (PStr (status_value st))"
  shows "job_state_of (Some after) = In st"
  using assms job_state_written [of after st] by (simp add: sets_to_def)

section \<open>The table refines the abstract life\<close>

lemma documented_refused:
  assumes "documented up"
  shows "up PROCESSING_UPDATE (Some PROCESSING_CONDITION) [(''#s'', ''status'')] (processing_values now) item = None \<longleftrightarrow>
        item = None \<or> item_attr item ''status'' = Some (PStr ''COMPLETE'')"
  using documented_processing [OF assms, of item now] by (auto split: if_splits)

lemma documented_claim:
  assumes "documented up"
    and "up PROCESSING_UPDATE (Some PROCESSING_CONDITION) [(''#s'', ''status'')] (processing_values now) item = Some i"
  shows "job_state_of (Some i) = In PROCESSING"
proof -
  from documented_processing [OF assms(1), of item now] assms(2)
  have "sets_to [(''status'', '':processing''), (''started_at'', '':now''), (''updated_at'', '':now'')] [] (processing_values now) item i"
    by (auto split: if_splits)
  from sets_to_status [OF this _ _ processing_status] show ?thesis by simp
qed

lemma documented_finish:
  assumes "documented up"
  shows "\<exists>i. up COMPLETE_UPDATE None [(''#s'', ''status''), (''#e'', ''error'')] (complete_values os ex w h f ms now) item = Some i \<and>
        job_state_of (Some i) = In COMPLETE"
proof -
  from documented_complete [OF assms, of os ex w h f ms now item]
  obtain i where i: "up COMPLETE_UPDATE None [(''#s'', ''status''), (''#e'', ''error'')] (complete_values os ex w h f ms now) item = Some i"
    and s: "sets_to [(''status'', '':status''), (''outputs'', '':outputs''), (''exif'', '':exif''), (''source_width'', '':width''),
          (''source_height'', '':height''), (''source_format'', '':format''), (''processing_ms'', '':ms''),
          (''completed_at'', '':now''), (''updated_at'', '':now'')] [''error''] (complete_values os ex w h f ms now) item i"
    by (elim exE conjE)
  have "job_state_of (Some i) = In COMPLETE"
    by (rule sets_to_status [OF s _ _ complete_status]) simp_all
  with i show ?thesis by (intro exI [of _ i] conjI)
qed

lemma documented_fail:
  assumes "documented up"
  shows "\<exists>i. up FAILED_UPDATE None [(''#s'', ''status''), (''#e'', ''error'')] (failed_values reason now) item = Some i \<and>
        job_state_of (Some i) = In FAILED"
proof -
  from documented_failed [OF assms, of reason now item]
  obtain i where i: "up FAILED_UPDATE None [(''#s'', ''status''), (''#e'', ''error'')] (failed_values reason now) item = Some i"
    and s: "sets_to [(''status'', '':status''), (''error'', '':reason''), (''completed_at'', '':now''), (''updated_at'', '':now'')]
          [] (failed_values reason now) item i"
    by (elim exE conjE)
  have "job_state_of (Some i) = In FAILED"
    by (rule sets_to_status [OF s _ _ failed_status]) simp_all
  with i show ?thesis by (intro exI [of _ i] conjI)
qed

lemma claim_step:
  assumes "documented up" "up PROCESSING_UPDATE (Some PROCESSING_CONDITION) [(''#s'', ''status'')] (processing_values now) item = Some i"
  shows "job_move Claim (job_state_of item) (job_state_of (Some i))"
proof -
  have "\<not> (item = None \<or> item_attr item ''status'' = Some (PStr ''COMPLETE''))"
    using documented_refused [OF assms(1), of now item] assms(2) by simp
  then have "job_state_of item \<noteq> Missing \<and> job_state_of item \<noteq> In COMPLETE"
    by (auto simp: job_state_complete) (auto simp: job_state_of_def split: option.splits)
  with documented_claim [OF assms] show ?thesis by simp
qed

lemma initial_state:
  "initial_item item rc \<Longrightarrow> job_state_of (Some item) = In (jr_status rc)"
  by (rule job_state_written)
    (simp add: initial_item_def to_item_def record_dump_def to_dynamo_dict_def dict_get_def)

lemma write_step:
  assumes up: "documented up" and w: "table_write tbl j (UpdateItem tbl j u c ns vs)"
    and i: "up u c ns vs (T j) = Some i"
  shows "\<exists>op. op_of (UpdateItem tbl j u c ns vs) = Some op \<and> job_move op (job_state_of (T j)) (job_state_of (Some i))"
  using w unfolding table_write_def
proof (elim disjE exE)
  fix now
  assume "UpdateItem tbl j u c ns vs = processing_request tbl j now"
  then have eq: "u = PROCESSING_UPDATE" "c = Some PROCESSING_CONDITION" "ns = [(''#s'', ''status'')]" "vs = processing_values now"
    by (simp_all add: processing_request_def)
  from claim_step [OF up i [unfolded eq]] show ?thesis by (simp add: eq)
next
  fix os ex wd h f ms now
  assume "UpdateItem tbl j u c ns vs = complete_request tbl j os ex wd h f ms now"
  then have eq: "u = COMPLETE_UPDATE" "c = None" "ns = [(''#s'', ''status''), (''#e'', ''error'')]"
      "vs = complete_values os ex wd h f ms now"
    by (simp_all add: complete_request_def)
  from i [unfolded eq] documented_finish [OF up, of os ex wd h f ms now "T j"] show ?thesis by (auto simp: eq)
next
  fix reason now
  assume "UpdateItem tbl j u c ns vs = failed_request tbl j reason now"
  then have eq: "u = FAILED_UPDATE" "c = None" "ns = [(''#s'', ''status''), (''#e'', ''error'')]" "vs = failed_values reason now"
    by (simp_all add: failed_request_def)
  from i [unfolded eq] documented_fail [OF up, of reason now "T j"] show ?thesis by (auto simp: eq)
qed

lemma table_step_move:
  assumes "documented up" "system_request tbl q" "table_step up tbl T (q, res) T'"
  shows "T' j = T j \<or>
    (\<exists>op. op_of q = Some op \<and> job_of q = Some j \<and> job_move op (job_state_of (T j)) (job_state_of (T' j)))"
proof (cases q)
  case (PutItem t item)
  with assms(2) obtain rc where t: "t = tbl" and item: "initial_item item rc" by auto
  from assms(3) [unfolded PutItem t] show ?thesis
    by (rule put_stepE) (use PutItem item initial_state [OF item] in \<open>auto simp: initial_item_def\<close>)
next
  case (UpdateItem t k u c ns vs)
  with assms(2) have w: "table_write tbl k (UpdateItem t k u c ns vs)" by simp
  then have t: "t = tbl" by (auto dest: table_write_update)
  from assms(3) [unfolded UpdateItem t] show ?thesis
  proof (rule update_stepE)
    fix i
    assume "T' = T(k \<mapsto> i)" "up u c ns vs (T k) = Some i"
    with write_step [OF assms(1) w [unfolded t], of T i] UpdateItem t show ?thesis by auto
  qed simp_all
qed (use assms(3) in \<open>auto elim: table_step.cases\<close>)

text \<open>
  The interleaved logs of any number of processes: along any log of system requests the table goes from
  \<open>T\<close> to \<open>T'\<close>, one abstract move or none per event.
\<close>

lemma served_stays_complete:
  assumes "documented up" "served up tbl T tr T'" "reqs (system_request tbl) tr" "job_state_of (T j) = In COMPLETE"
    and "list_all (\<lambda>ev. \<not> (job_of (fst ev) = Some j \<and> (op_of (fst ev) = Some Fail \<or> op_of (fst ev) = Some Put))) tr"
  shows "job_state_of (T' j) = In COMPLETE"
  using assms(2-5)
proof (induction rule: served.induct)
  case (more T ev T1 tr T2)
  obtain q res where ev: "ev = (q, res)" by (cases ev)
  from more.prems(1) have "system_request tbl q" by (simp add: ev)
  from table_step_move [OF assms(1) this more.hyps(1) [unfolded ev], of j]
  have "job_state_of (T1 j) = In COMPLETE"
  proof (elim disjE exE conjE)
    fix op
    assume "op_of q = Some op" "job_of q = Some j" "job_move op (job_state_of (T j)) (job_state_of (T1 j))"
    with more.prems(2,3) show ?thesis by (cases op) (auto simp: ev)
  qed (use more.prems(2) in simp)
  with more show ?case by simp
qed simp

section \<open>When the table says that a job is settled\<close>

definition settled_item :: "pyval dict option \<Rightarrow> bool" where
  "settled_item item \<longleftrightarrow> item = None \<or> item = Some [] \<or> job_state_of item = In COMPLETE \<or> job_state_of item = In FAILED"

text \<open>What pydantic's validation promises of the status: it is the one of the item.\<close>

definition status_validated :: "'w env \<Rightarrow> bool" where
  "status_validated env \<longleftrightarrow>
     (\<forall>d rc. validate_record env d = Inr rc \<longrightarrow> dict_get d ''status'' = Some (PStr (status_value (jr_status rc))))"

lemma from_dynamo_str: "from_dynamo v = PStr x \<Longrightarrow> v = PStr x"
  by (cases v) (auto simp: Let_def split: if_splits)

lemma dict_get_from_dynamo: "dict_get (from_dynamo_dict d) k = map_option from_dynamo (dict_get d k)"
  by (induction d) (auto simp: from_dynamo_dict_def dict_get_def)

lemma decoded_status:
  assumes "status_validated env" "decode_item env i = Inr rc"
  shows "job_state_of (Some i) = In (jr_status rc)"
proof (rule job_state_written)
  from assms have "dict_get (from_dynamo_dict i) ''status'' = Some (PStr (status_value (jr_status rc)))"
    by (simp add: status_validated_def decode_item_def)
  then show "dict_get i ''status'' = Some (PStr (status_value (jr_status rc)))"
    by (auto simp: dict_get_from_dynamo dest: from_dynamo_str)
qed

lemma settles_step:
  assumes up: "documented up" and val: "status_validated env" and q: "system_request tbl (fst ev)"
    and ev: "settles tbl (decode_item env) j ev" and step: "table_step up tbl T ev T'"
  shows "settled_item (T' j)"
  using ev
proof (cases rule: settles.cases [of "(tbl, decode_item env, j, ev)"])
  case (1 tbl' decode' j' t k c v)
  with ev have g: "ev = (GetItem tbl j (Some True), Returned v)" by simp
  from step [unfolded g] have T: "T' = T" "v = item_answer (T j)"
    by (auto elim: get_stepE)
  show ?thesis
  proof (cases "T j")
    case (Some i)
    with T ev g have "i = [] \<or> (\<exists>rc. decode_item env i = Inr rc \<and> jr_status rc = COMPLETE)"
      by (auto simp: item_answer_def)
    with Some T decoded_status [OF val, of i] show ?thesis by (auto simp: settled_item_def)
  qed (use T in \<open>simp add: settled_item_def\<close>)
next
  case (2 tbl' decode' j' t k u c ns vs v)
  with ev have g: "ev = (UpdateItem tbl j u c ns vs, Returned v)" "u = COMPLETE_UPDATE \<or> u = FAILED_UPDATE" by auto
  with q have w: "table_write tbl j (UpdateItem tbl j u c ns vs)" by simp
  from step [unfolded g(1)] obtain i where i: "up u c ns vs (T j) = Some i" "T' = T(j \<mapsto> i)"
    by (auto elim!: update_stepE simp: refuses_def)
  from write_step [OF up w, of T i] i g(2) show ?thesis by (auto simp: settled_item_def)
next
  case (3 tbl' decode' j' t k u c ns vs e)
  with ev have g: "ev = (UpdateItem tbl j u c ns vs, Raised e)" "u = PROCESSING_UPDATE" "c = Some PROCESSING_CONDITION"
      "conditional_check_failed e" by auto
  with q have "\<exists>now. ns = [(''#s'', ''status'')] \<and> vs = processing_values now"
    by (auto simp: table_write_def processing_request_def complete_request_def failed_request_def)
  then obtain now where n: "ns = [(''#s'', ''status'')]" "vs = processing_values now" by blast
  from step [unfolded g(1)] have "T' = T \<and> up u c ns vs (T j) = None"
    by (rule update_stepE) (use g(4) in \<open>auto simp: refuses_def\<close>)
  with documented_refused [OF up, of now "T j"] show ?thesis
    by (auto simp: g n settled_item_def job_state_complete)
qed auto

section \<open>Deletions, seen from the table\<close>

text \<open>
  By the time a deletion of the log \<open>tr\<close> is attempted, however the requests before it are interleaved with the
  requests \<open>others\<close> of other processes, the table has been in a state in which the job was settled.
\<close>

definition deletes_after_settled :: "updater \<Rightarrow> string \<Rightarrow> string \<Rightarrow> event list \<Rightarrow> bool" where
  "deletes_after_settled up tbl job tr \<longleftrightarrow>
     (\<forall>a ev b others merged T T'. tr = a @ ev # b \<longrightarrow> is_delete (fst ev) \<longrightarrow> merged \<in> shuffles a others \<longrightarrow>
        served up tbl T merged T' \<longrightarrow>
        (\<exists>l1 l2 T1. merged = l1 @ l2 \<and> served up tbl T l1 T1 \<and> settled_item (T1 job)))"

lemma served_settled:
  assumes "documented up" "status_validated env" "served up tbl T merged T'" "ev \<in> set merged"
    and "system_request tbl (fst ev)" "settles tbl (decode_item env) j ev"
  shows "\<exists>l1 l2 T1. merged = l1 @ l2 \<and> served up tbl T l1 T1 \<and> settled_item (T1 j)"
proof -
  from assms(4) obtain l1 l2 where l: "merged = l1 @ ev # l2" by (auto dest: split_list)
  with assms(3) obtain T1 T2 where t: "served up tbl T l1 T1" "table_step up tbl T1 ev T2"
    by (auto simp: served_append)
  from settles_step [OF assms(1,2,5,6) t(2)] have "settled_item (T2 j)" .
  moreover have "served up tbl T (l1 @ [ev]) T2" using t by (auto simp: served_append)
  ultimately show ?thesis using l by (intro exI [of _ "l1 @ [ev]"] exI [of _ l2] exI [of _ T2]) simp
qed

lemma guarded_deletes:
  assumes "documented up" "status_validated env" "reqs (system_request tbl) tr"
    and "guarded is_delete (settles tbl (decode_item env) j) tr"
  shows "deletes_after_settled up tbl j tr"
  unfolding deletes_after_settled_def
proof (intro allI impI)
  fix a ev b others merged T T'
  assume a: "tr = a @ ev # b" "is_delete (fst ev)" "merged \<in> shuffles a others" "served up tbl T merged T'"
  from guarded_split [OF assms(4) a(1,2)] obtain ev' where ev': "ev' \<in> set a" "settles tbl (decode_item env) j ev'" by blast
  with a(1) assms(3) have "system_request tbl (fst ev')" by (auto dest: reqsD)
  moreover have "ev' \<in> set merged" using ev'(1) set_shuffles [OF a(3)] by blast
  ultimately show "\<exists>l1 l2 T1. merged = l1 @ l2 \<and> served up tbl T l1 T1 \<and> settled_item (T1 j)"
    using served_settled [OF assms(1,2) a(4)] ev'(2) by blast
qed

section \<open>Requests the table accepts\<close>

lemma accepted_claim:
  assumes "documented up" "job_state_of (T j) \<noteq> Missing" "job_state_of (T j) \<noteq> In COMPLETE"
  shows "\<exists>T'. table_step up tbl T (processing_request tbl j now, Returned PNone) T' \<and> job_state_of (T' j) = In PROCESSING"
proof -
  have "T j \<noteq> None" using assms(2) by (cases "T j") (simp_all add: job_state_of_def)
  with assms(3) documented_refused [OF assms(1), of now "T j"]
  obtain i where i: "up PROCESSING_UPDATE (Some PROCESSING_CONDITION) [(''#s'', ''status'')] (processing_values now) (T j) = Some i"
    by (auto simp: job_state_complete)
  then have "table_step up tbl T (processing_request tbl j now, Returned PNone) (T(j \<mapsto> i))"
    unfolding processing_request_def by (rule table_step.update) (simp add: refuses_def)
  with documented_claim [OF assms(1) i] show ?thesis by (intro exI [of _ "T(j \<mapsto> i)"]) simp
qed

lemma accepted_finish:
  assumes "documented up"
  shows "\<exists>T'. table_step up tbl T (complete_request tbl j os ex w h f ms now, Returned PNone) T' \<and> job_state_of (T' j) = In COMPLETE"
proof -
  from documented_finish [OF assms, of os ex w h f ms now "T j"] obtain i where
    i: "up COMPLETE_UPDATE None [(''#s'', ''status''), (''#e'', ''error'')] (complete_values os ex w h f ms now) (T j) = Some i"
      "job_state_of (Some i) = In COMPLETE" by blast
  from i(1) have "table_step up tbl T (complete_request tbl j os ex w h f ms now, Returned PNone) (T(j \<mapsto> i))"
    unfolding complete_request_def by (rule table_step.update) (simp add: refuses_def)
  with i(2) show ?thesis by (intro exI [of _ "T(j \<mapsto> i)"]) simp
qed

lemma accepted_fail:
  assumes "documented up"
  shows "\<exists>T'. table_step up tbl T (failed_request tbl j reason now, Returned PNone) T' \<and> job_state_of (T' j) = In FAILED"
proof -
  from documented_fail [OF assms, of reason now "T j"] obtain i where
    i: "up FAILED_UPDATE None [(''#s'', ''status''), (''#e'', ''error'')] (failed_values reason now) (T j) = Some i"
      "job_state_of (Some i) = In FAILED" by blast
  from i(1) have "table_step up tbl T (failed_request tbl j reason now, Returned PNone) (T(j \<mapsto> i))"
    unfolding failed_request_def by (rule table_step.update) (simp add: refuses_def)
  with i(2) show ?thesis by (intro exI [of _ "T(j \<mapsto> i)"]) simp
qed

section \<open>The logs of the services\<close>

lemma delivery_system_logs:
  "logs (only (system_request (dynamodb_table cfg))) (handle_message env cfg (build_clients env cfg) wk m)"
  by (rule only_mono [OF confined_handle_message])
    (auto simp: confined_to_def split: sum.splits intro: delivery_system)

lemma delivery_system_log:
  "wp (handle_message env cfg (build_clients env cfg) wk m)
     (\<lambda>r s'. \<exists>tr. wire s' = wire s @ tr \<and> reqs (system_request (dynamodb_table cfg)) tr) s"
  by (rule wp_logs [OF delivery_system_logs]) (auto simp: only_def)

lemma upload_system_log:
  "wp (create_job env cfg (build_clients env cfg) data filename content_type)
     (\<lambda>r s'. \<exists>tr. wire s' = wire s @ tr \<and> reqs (system_request (dynamodb_table cfg)) tr) s"
  by (rule wp_mono [OF aws.create_job_outcome], erule upload_outcome_cases)
    (auto dest!: new_record_status dest: upload_system)

section \<open>Properties\<close>

text \<open>
  C2: The table implements the abstract life of a job. When the table serves a request of either service,
  a record changes only if the request is a write to it, and then by the move of that operation: a record is
  created as \<open>PENDING\<close> or \<open>FAILED\<close>, only an existing record that is not \<open>COMPLETE\<close> becomes \<open>PROCESSING\<close>,
  and no record is ever removed.
\<close>

theorem table_refines_job_life:
  assumes "documented up" "system_request tbl q" "table_step up tbl T (q, res) T'"
  shows "T' j = T j \<or>
    (\<exists>op. op_of q = Some op \<and> job_of q = Some j \<and> job_move op (job_state_of (T j)) (job_state_of (T' j)))"
  using assms by (rule table_step_move)

theorem table_refines_job_life_witness:
  "(\<exists>op. op_of (processing_request ''t'' ''j'' ''now'') = Some op \<and> job_of (processing_request ''t'' ''j'' ''now'') = Some ''j'' \<and>
     job_move op (In PENDING) (In PROCESSING))"
proof -
  let ?T = "[''j'' \<mapsto> [(''job_id'', PStr ''j''), (''status'', PStr ''PENDING'')]]"
  let ?q = "processing_request ''t'' ''j'' ''now''"
  let ?i = "assign [(''status'', '':processing''), (''started_at'', '':now''), (''updated_at'', '':now'')] []
      (processing_values ''now'') (?T ''j'')"
  have i: "reference_updater PROCESSING_UPDATE (Some PROCESSING_CONDITION) [(''#s'', ''status'')] (processing_values ''now'') (?T ''j'') = Some ?i"
    by (simp add: reference_updater_def parse_processing parse_processing_condition item_attr_def dict_get_def processing_values_def)
  then have step: "table_step reference_updater ''t'' ?T (?q, Returned PNone) (?T(''j'' \<mapsto> ?i))"
    unfolding processing_request_def by (intro table_step.update) (simp_all add: refuses_def)
  have "system_request ''t'' ?q"
    using table_writeI(1) [of "''t''" "''j''" "''now''"] by (simp add: processing_request_def)
  from table_refines_job_life [OF reference_documented this step, of "''j''"]
  have "(?T(''j'' \<mapsto> ?i)) ''j'' = ?T ''j'' \<or> (\<exists>op. op_of ?q = Some op \<and> job_of ?q = Some ''j'' \<and>
      job_move op (job_state_of (?T ''j'')) (job_state_of ((?T(''j'' \<mapsto> ?i)) ''j'')))" .
  moreover have "job_state_of (?T ''j'') = In PENDING"
    using job_state_written [of "[(''job_id'', PStr ''j''), (''status'', PStr ''PENDING'')]" PENDING] by (simp add: dict_get_def)
  moreover have "job_state_of (Some ?i) = In PROCESSING"
    by (rule documented_claim [OF reference_documented i])
  ultimately show ?thesis by fastforce
qed

text \<open>
  Both services keep to these requests: whatever AWS answers, every write that handling a message or
  creating a job sends to the table is an initial put or one of the three updates.
\<close>

theorem services_send_system_requests:
  "wp (handle_message env cfg (build_clients env cfg) wk m)
     (\<lambda>r s'. \<exists>tr. wire s' = wire s @ tr \<and> reqs (system_request (dynamodb_table cfg)) tr) s \<and>
   wp (create_job env cfg (build_clients env cfg) data filename content_type)
     (\<lambda>r s'. \<exists>tr. wire s' = wire s @ tr \<and> reqs (system_request (dynamodb_table cfg)) tr) s"
  using delivery_system_log upload_system_log by blast

text \<open>
  C11: A job that is \<open>COMPLETE\<close> stays so, whatever API and worker processes interleave on the table, as long as
  no process writes a failure for it and none puts its record anew; duplicate deliveries and repeated
  completions do not matter.
\<close>

theorem complete_is_stable:
  assumes "documented up" "served up tbl T tr T'" "reqs (system_request tbl) tr" "job_state_of (T j) = In COMPLETE"
    and "list_all (\<lambda>ev. \<not> (job_of (fst ev) = Some j \<and> (op_of (fst ev) = Some Fail \<or> op_of (fst ev) = Some Put))) tr"
  shows "job_state_of (T' j) = In COMPLETE"
  using assms by (rule served_stays_complete)

text \<open>
  C12: A late failure overwrites a completed job. The table accepts two claims of one \<open>PENDING\<close> job, then the
  completion by one worker, and then the failure written by the other: the job ends \<open>FAILED\<close>, since neither
  \<open>mark_complete\<close> nor \<open>mark_failed\<close> carries a condition.
\<close>

theorem late_failure_overwrites_complete:
  assumes "documented up" "job_state_of (T j) = In PENDING"
  shows "\<exists>T3 T4. served up tbl T [(processing_request tbl j n1, Returned PNone), (processing_request tbl j n2, Returned PNone),
        (complete_request tbl j os ex w h f ms n3, Returned PNone)] T3 \<and> job_state_of (T3 j) = In COMPLETE \<and>
      table_step up tbl T3 (failed_request tbl j reason n4, Returned PNone) T4 \<and> job_state_of (T4 j) = In FAILED"
proof -
  from accepted_claim [OF assms(1), of T j tbl n1] assms(2) obtain T1 where
    1: "table_step up tbl T (processing_request tbl j n1, Returned PNone) T1" "job_state_of (T1 j) = In PROCESSING" by auto
  from accepted_claim [OF assms(1), of T1 j tbl n2] 1(2) obtain T2 where
    2: "table_step up tbl T1 (processing_request tbl j n2, Returned PNone) T2" by auto
  from accepted_finish [OF assms(1)] obtain T3 where
    3: "table_step up tbl T2 (complete_request tbl j os ex w h f ms n3, Returned PNone) T3" "job_state_of (T3 j) = In COMPLETE" by blast
  from accepted_fail [OF assms(1)] obtain T4 where
    4: "table_step up tbl T3 (failed_request tbl j reason n4, Returned PNone) T4" "job_state_of (T4 j) = In FAILED" by blast
  from 1(1) 2 3(1) have "served up tbl T [(processing_request tbl j n1, Returned PNone), (processing_request tbl j n2, Returned PNone),
        (complete_request tbl j os ex w h f ms n3, Returned PNone)] T3" by (simp only: served_Cons served_Nil) blast
  with 3(2) 4 show ?thesis by blast
qed

text \<open>
  Deletion, seen from the table. However the requests of a delivery are interleaved with those of any
  other processes, by the time it attempts to delete its message the table has been in a state in which the
  job's record was missing, \<open>COMPLETE\<close> or \<open>FAILED\<close>.
\<close>

theorem deletion_needs_settled_record:
  assumes "documented up" "status_validated env"
  shows "wp (handle_message env cfg (build_clients env cfg) wk m)
     (\<lambda>r s'. \<exists>tr. wire s' = wire s @ tr \<and>
        (case parse_message env (opt_get [] (Body m)) of
           Inl e \<Rightarrow> True
         | Inr job \<Rightarrow> deletes_after_settled up (dynamodb_table cfg) (jm_job_id job) tr)) s"
proof (cases "parse_message env (opt_get [] (Body m))")
  case (Inl e)
  then show ?thesis by (intro wp_logs [OF aws.logs_handle_message]) auto
next
  case (Inr job)
  show ?thesis
    by (rule wp_logs [OF logs_conj [OF aws.logs_handle_message delivery_system_logs]])
      (auto simp: Inr delivery_trace_def job_trace_def closed_def only_def split: if_splits
        intro!: guarded_deletes [OF assms])
qed

text \<open>What pydantic promises of the messages this program sends: they parse back.\<close>

definition codec_ok :: "'w env \<Rightarrow> bool" where
  "codec_ok env \<longleftrightarrow>
     (\<forall>m. jm_schema_version m = MESSAGE_SCHEMA_VERSION \<longrightarrow> jm_extra m = [] \<longrightarrow> parse_message env (dump_message env m) = Inr m)"

text \<open>A message the worker will neither refuse nor leave alone, about a fresh record.\<close>

fun workable :: "'w env \<Rightarrow> config \<Rightarrow> bytes \<Rightarrow> string option \<Rightarrow> string option \<Rightarrow> request \<Rightarrow> bool" where
  "workable env cfg data filename content_type (SendMessage u body attrs) \<longleftrightarrow>
     (\<exists>rc job. fresh_record env data filename content_type rc \<and> parse_message env body = Inr job \<and>
        jm_job_id job = jr_job_id rc \<and> jm_input_key job = jr_input_key rc \<and> jm_bucket job = s3_bucket cfg \<and>
        jm_schema_version job \<le> MESSAGE_SCHEMA_VERSION)"
| "workable env cfg data filename content_type q \<longleftrightarrow> True"

lemma new_message_workable:
  assumes "codec_ok env" "fresh_record env data filename content_type rc"
  shows "workable env cfg data filename content_type (SendMessage u (dump_message env (new_message cfg rc)) attrs)"
proof -
  have "parse_message env (dump_message env (new_message cfg rc)) = Inr (new_message cfg rc)"
    using assms(1) by (simp add: codec_ok_def new_message_def)
  with assms(2) show ?thesis
    unfolding workable.simps
    by (intro exI [of _ rc] exI [of _ "new_message cfg rc"]) (simp add: new_message_def)
qed

lemma sends_workable:
  assumes "codec_ok env" "fresh_record env data filename content_type rc"
    and "upload_trace env cfg bucket url tbl data rc tr r"
  shows "reqs (workable env cfg data filename content_type) tr"
proof (rule reqs_mono [OF upload_trace_ordered(1) [OF assms(3)]])
  fix q
  assume "if is_send q then \<exists>u attrs. q = SendMessage u (dump_message env (new_message cfg rc)) attrs else True"
  with new_message_workable [OF assms(1,2)] show "workable env cfg data filename content_type q"
    by (cases q) auto
qed

text \<open>
  What the API sends, a worker with the same configuration can work on: every message that \<open>create_job\<close> sends
  parses to a job of the supported schema, for the configured bucket, with the id and the input key of the
  record that was stored for it.
\<close>

theorem queued_message_is_workable:
  assumes "codec_ok env"
  shows "wp (create_job env cfg (build_clients env cfg) data filename content_type)
     (\<lambda>r s'. \<exists>tr. wire s' = wire s @ tr \<and> reqs (workable env cfg data filename content_type) tr) s"
  by (rule wp_mono [OF aws.create_job_outcome], erule upload_outcome_cases) (auto dest: sends_workable [OF assms])

section \<open>Witnesses\<close>

text \<open>An environment whose parsers behave: statuses are validated, a dumped message parses back.\<close>

fun encode_field :: "string \<Rightarrow> string" where
  "encode_field [] = ''-''"
| "encode_field (c # s) = CHR ''+'' # c # encode_field s"

fun decode_field :: "string \<Rightarrow> string \<times> string" where
  "decode_field (k # r) =
     (if k = CHR ''+'' then (case r of [] \<Rightarrow> ([], []) | c # r' \<Rightarrow> (case decode_field r' of (s, t) \<Rightarrow> (c # s, t))) else ([], r))"
| "decode_field [] = ([], [])"

lemma decode_encode [simp]: "decode_field (encode_field s @ t) = (s, t)"
  by (induction s) auto

lemma decode_encode_last [simp]: "decode_field (encode_field s) = (s, [])"
  using decode_encode [of s "[]"] by simp

definition sample_dump :: "job_message \<Rightarrow> string" where
  "sample_dump m = encode_field (jm_job_id m) @ encode_field (jm_bucket m) @ encode_field (jm_input_key m) @
     encode_field (jm_content_type m) @ encode_field (jm_filename m) @ encode_field (jm_submitted_at m) @ []"

definition sample_parse :: "string \<Rightarrow> exn + job_message" where
  "sample_parse body =
     (case decode_field body of (j, r) \<Rightarrow> case decode_field r of (b, r) \<Rightarrow> case decode_field r of (k, r) \<Rightarrow>
      case decode_field r of (t, r) \<Rightarrow> case decode_field r of (f, r) \<Rightarrow> case decode_field r of (a, r) \<Rightarrow>
        Inr \<lparr>jm_schema_version = MESSAGE_SCHEMA_VERSION, jm_job_id = j, jm_bucket = b, jm_input_key = k,
             jm_content_type = t, jm_filename = f, jm_submitted_at = a, jm_extra = []\<rparr>)"

definition sample_validate :: "pyval dict \<Rightarrow> exn + job_record" where
  "sample_validate d = (case item_status (Some d) of
       None \<Rightarrow> Inl (ValidationError ''status'')
     | Some st \<Rightarrow> Inr (new_record ''j'' ''t'' ''t'' None [] None
           \<lparr>ip_format = ''JPEG'', ip_width = 1, ip_height = 1, ip_extension = ''.jpg''\<rparr> None\<lparr>jr_status := st\<rparr>))"

definition parsing :: "unit env" where
  "parsing = calm\<lparr>parse_message := sample_parse, dump_message := sample_dump, validate_record := sample_validate\<rparr>"

lemma item_status_value: "item_status (Some d) = Some st \<Longrightarrow> dict_get d ''status'' = Some (PStr (status_value st))"
  by (auto simp: item_status_def item_attr_def split: option.splits pyval.splits if_splits)

lemma parsing_status: "status_validated parsing"
  by (auto simp: status_validated_def parsing_def sample_validate_def split: option.splits dest: item_status_value)

lemma parsing_codec: "codec_ok parsing"
  by (simp add: codec_ok_def parsing_def sample_dump_def sample_parse_def)

theorem queued_message_is_workable_witness:
  "wp (create_job parsing sample_config (build_clients parsing sample_config) ''x'' None (Some ''image/png''))
     (\<lambda>r s'. \<exists>tr. wire s' = wire blank @ tr \<and> reqs (workable parsing sample_config ''x'' None (Some ''image/png'')) tr) blank"
  by (rule queued_message_is_workable [OF parsing_codec])

theorem complete_is_stable_witness:
  "\<exists>T'. served reference_updater ''t'' [''j'' \<mapsto> [(''job_id'', PStr ''j''), (''status'', PStr ''COMPLETE'')]]
      [(processing_request ''t'' ''j'' ''n'', Raised (ClientError (Some ''ConditionalCheckFailedException'') (Some 400))),
       (complete_request ''t'' ''j'' [] [] 1 1 ''JPEG'' 5 ''m'', Returned PNone)] T' \<and> job_state_of (T' ''j'') = In COMPLETE"
proof -
  let ?T = "[''j'' \<mapsto> [(''job_id'', PStr ''j''), (''status'', PStr ''COMPLETE'')]]"
  let ?p = "(processing_request ''t'' ''j'' ''n'', Raised (ClientError (Some ''ConditionalCheckFailedException'') (Some 400)))"
  let ?c = "(complete_request ''t'' ''j'' [] [] 1 1 ''JPEG'' 5 ''m'', Returned PNone)"
  have T: "job_state_of (?T ''j'') = In COMPLETE"
    by (simp add: job_state_complete item_attr_def dict_get_def)
  have "table_step reference_updater ''t'' ?T ?p ?T"
    unfolding processing_request_def
    by (rule table_step.update_refused)
      (simp_all add: reference_updater_def parse_processing parse_processing_condition processing_values_def item_attr_def dict_get_def refuses_def)
  moreover obtain T' where "table_step reference_updater ''t'' ?T ?c T'"
    using accepted_finish [OF reference_documented] by blast
  ultimately have served: "served reference_updater ''t'' ?T [?p, ?c] T'" by (simp only: served_Cons served_Nil) blast
  moreover have "reqs (system_request ''t'') [?p, ?c]"
    using table_writeI(1) [of "''t''" "''j''" "''n''"] table_writeI(2) [of "''t''" "''j''" "[]" "[]" 1 1 "''JPEG''" 5 "''m''"]
    by (simp add: processing_request_def complete_request_def)
  then have "job_state_of (T' ''j'') = In COMPLETE"
    by (rule complete_is_stable [OF reference_documented served]) (use T in simp_all)
  ultimately show ?thesis by blast
qed

theorem late_failure_overwrites_complete_witness:
  "\<exists>T3 T4. served reference_updater ''t'' [''j'' \<mapsto> [(''job_id'', PStr ''j''), (''status'', PStr ''PENDING'')]]
        [(processing_request ''t'' ''j'' ''1'', Returned PNone), (processing_request ''t'' ''j'' ''2'', Returned PNone),
         (complete_request ''t'' ''j'' [] [] 1 1 ''JPEG'' 5 ''3'', Returned PNone)] T3 \<and> job_state_of (T3 ''j'') = In COMPLETE \<and>
      table_step reference_updater ''t'' T3 (failed_request ''t'' ''j'' ''out of memory'' ''4'', Returned PNone) T4 \<and>
      job_state_of (T4 ''j'') = In FAILED"
proof (rule late_failure_overwrites_complete [OF reference_documented])
  show "job_state_of ([''j'' \<mapsto> [(''job_id'', PStr ''j''), (''status'', PStr ''PENDING'')]] ''j'') = In PENDING"
    using job_state_written [of "[(''job_id'', PStr ''j''), (''status'', PStr ''PENDING'')]" PENDING] by (simp add: dict_get_def)
qed

theorem deletion_needs_settled_record_witness:
  "wp (handle_message parsing sample_config (build_clients parsing sample_config) Worker (sample_sqs (sample_dump (sample_message ''j''))))
     (\<lambda>r s'. \<exists>tr. wire s' = wire blank @ tr \<and>
        (case parse_message parsing (opt_get [] (Body (sample_sqs (sample_dump (sample_message ''j''))))) of
           Inl e \<Rightarrow> True
         | Inr job \<Rightarrow> deletes_after_settled reference_updater (dynamodb_table sample_config) (jm_job_id job) tr)) blank"
  by (rule deletion_needs_settled_record [OF reference_documented parsing_status])

end
