(* ===== verification/Discipline.thy ===== *)
theory Discipline
  imports Lifecycle "HOL-Library.Sublist"
begin

text \<open>
  The discipline of the two services, request by request: what must already have happened when a
  request is sent. It is stated of the events seen so far, and more events before or between them do no harm, so that it survives the
  interleaving with other processes: a record is put after its object was stored, a message is sent after its record
  was put, a record is updated after it was read, it is declared \<open>COMPLETE\<close> after every thumbnail
  it lists was stored, and a message is deleted after its job was settled since it was received.
\<close>

section \<open>Logs that keep a discipline\<close>

fun paced :: "('e list \<Rightarrow> 'e \<Rightarrow> bool) \<Rightarrow> 'e list \<Rightarrow> 'e list \<Rightarrow> bool" where
  "paced P S [] \<longleftrightarrow> True"
| "paced P S (e # es) \<longleftrightarrow> P S e \<and> paced P (S @ [e]) es"

definition grows :: "('e list \<Rightarrow> 'e \<Rightarrow> bool) \<Rightarrow> bool" where
  "grows P \<longleftrightarrow> (\<forall>S S' e. subseq S S' \<longrightarrow> P S e \<longrightarrow> P S' e)"

lemma growsD: "grows P \<Longrightarrow> P S e \<Longrightarrow> subseq S S' \<Longrightarrow> P S' e"
  by (auto simp: grows_def)

lemma paced_append: "paced P S (a @ b) \<longleftrightarrow> paced P S a \<and> paced P (S @ a) b"
  by (induction a arbitrary: S) auto

lemma subseq_prefix: "subseq S (S @ a)"
  by (rule subseq_rev_drop_many) simp

lemma subseq_set: "subseq S S' \<Longrightarrow> set S \<subseteq> set S'"
  by (auto elim: list_emb_set)

lemma paced_mono: "grows P \<Longrightarrow> paced P S tr \<Longrightarrow> subseq S S' \<Longrightarrow> paced P S' tr"
proof (induction tr arbitrary: S S')
  case (Cons e tr)
  have "paced P (S' @ [e]) tr"
    by (rule Cons.IH [OF Cons.prems(1), of "S @ [e]"]) (use Cons.prems in simp_all)
  moreover have "P S' e"
    by (rule growsD [OF Cons.prems(1) _ Cons.prems(3)]) (use Cons.prems(2) in simp)
  ultimately show ?case by simp
qed simp

lemma paced_all: "grows P \<Longrightarrow> \<forall>ev \<in> set tr. P S ev \<Longrightarrow> paced P S tr"
proof (induction tr)
  case (Cons e tr)
  have "paced P (S @ [e]) tr"
    by (rule paced_mono [OF Cons.prems(1) Cons.IH subseq_prefix]) (use Cons.prems in auto)
  with Cons.prems(2) show ?case by simp
qed simp

lemma paced_conj: "paced P S tr \<Longrightarrow> paced Q S tr \<Longrightarrow> paced (\<lambda>S e. P S e \<and> Q S e) S tr"
  by (induction tr arbitrary: S) auto

text \<open>Interleaving keeps a discipline that only asks for more to have happened.\<close>

lemma paced_shuffles:
  "grows P \<Longrightarrow> zs \<in> shuffles xs ys \<Longrightarrow> paced P S xs \<Longrightarrow> paced P S ys \<Longrightarrow> paced P S zs"
proof (induction xs ys arbitrary: S zs rule: shuffles.induct)
  case (3 x xs y ys)
  from "3.prems"(2) consider
      (left) zs' where "zs = x # zs'" "zs' \<in> shuffles xs (y # ys)"
    | (right) zs' where "zs = y # zs'" "zs' \<in> shuffles (x # xs) ys" by auto
  then show ?case
  proof cases
    case left
    have "paced P (S @ [x]) (y # ys)" by (rule paced_mono [OF "3.prems"(1,4) subseq_prefix])
    with left "3.IH"(1) [OF "3.prems"(1) left(2)] "3.prems"(3) show ?thesis by simp
  next
    case right
    have "paced P (S @ [y]) (x # xs)" by (rule paced_mono [OF "3.prems"(1,3) subseq_prefix])
    with right "3.IH"(2) [OF "3.prems"(1) right(2)] "3.prems"(4) show ?thesis by simp
  qed
qed simp_all

section \<open>Disciplines are properties of logs that compose\<close>

lemma steady_paced:
  assumes "\<And>S S'. Q S \<Longrightarrow> subseq S S' \<Longrightarrow> Q S'"
  shows "steady (\<lambda>tr. \<forall>S. Q S \<longrightarrow> paced P S tr)"
  unfolding steady_def paced_append using assms by (meson subseq_prefix paced.simps(1))

lemma steady_only: "(\<And>tr. reqs P tr \<Longrightarrow> K tr) \<Longrightarrow> logs (only P) m \<Longrightarrow> logs (holds_of K) m"
  by (erule logs_mono) (simp add: only_def)

section \<open>What must precede a request\<close>

text \<open>The object was stored; the record was found, by a consistent read that returned it.\<close>

definition object_stored :: "event set \<Rightarrow> string \<Rightarrow> string \<Rightarrow> bool" where
  "object_stored seen b k \<longleftrightarrow> (\<exists>d t. (PutObject b k d t, Returned PNone) \<in> seen)"

fun found :: "string \<Rightarrow> string \<Rightarrow> event \<Rightarrow> bool" where
  "found tbl job (GetItem t j c, Returned (PDict i)) \<longleftrightarrow> t = tbl \<and> j = job \<and> c = Some True \<and> i \<noteq> []"
| "found tbl job ev \<longleftrightarrow> False"

definition results_ready :: "string \<Rightarrow> int list \<Rightarrow> string \<Rightarrow> event set \<Rightarrow> pyval dict \<Rightarrow> bool" where
  "results_ready bucket sizes job seen vs \<longleftrightarrow>
     (\<exists>po ms now tr. set tr \<subseteq> seen \<and> rendered bucket sizes job tr po \<and>
        vs = complete_values (po_outputs po) (po_exif po) (po_width po) (po_height po) (po_format po) ms now)"

definition message_ready :: "'w env \<Rightarrow> config \<Rightarrow> event set \<Rightarrow> string \<Rightarrow> bool" where
  "message_ready env cfg seen body \<longleftrightarrow>
     (\<exists>rc. body = dump_message env (new_message cfg rc) \<and> object_stored seen (s3_bucket cfg) (jr_input_key rc) \<and>
        (PutItem (dynamodb_table cfg) (to_dynamo_dict (to_item rc)), Returned PNone) \<in> seen)"

fun due_request :: "'w env \<Rightarrow> config \<Rightarrow> event set \<Rightarrow> request \<Rightarrow> bool" where
  "due_request env cfg seen (PutItem t item) \<longleftrightarrow>
     t = dynamodb_table cfg \<and> (\<exists>rc. initial_item item rc \<and> object_stored seen (s3_bucket cfg) (jr_input_key rc))"
| "due_request env cfg seen (UpdateItem t j u c ns vs) \<longleftrightarrow>
     table_write (dynamodb_table cfg) j (UpdateItem t j u c ns vs) \<and> (\<exists>ev \<in> seen. found (dynamodb_table cfg) j ev) \<and>
     (u = COMPLETE_UPDATE \<longrightarrow> results_ready (s3_bucket cfg) (thumbnail_sizes cfg) j seen vs)"
| "due_request env cfg seen (SendMessage u body attrs) \<longleftrightarrow> message_ready env cfg seen body"
| "due_request env cfg seen q \<longleftrightarrow> True"

definition due :: "'w env \<Rightarrow> config \<Rightarrow> event list \<Rightarrow> event \<Rightarrow> bool" where
  "due env cfg seen ev \<longleftrightarrow> due_request env cfg (set seen) (fst ev)"

lemma object_stored_mono: "object_stored S b k \<Longrightarrow> S \<subseteq> S' \<Longrightarrow> object_stored S' b k"
  unfolding object_stored_def by blast

lemma results_ready_mono: "results_ready bucket sizes job S vs \<Longrightarrow> S \<subseteq> S' \<Longrightarrow> results_ready bucket sizes job S' vs"
  unfolding results_ready_def by (elim exE, intro exI) auto

lemma message_ready_mono: "message_ready env cfg S body \<Longrightarrow> S \<subseteq> S' \<Longrightarrow> message_ready env cfg S' body"
  unfolding message_ready_def by (blast intro: object_stored_mono)

lemma due_grows: "grows (due env cfg)"
  unfolding grows_def due_def
proof (intro allI impI)
  fix S S' and ev :: event
  assume "subseq S S'" "due_request env cfg (set S) (fst ev)"
  then have a: "set S \<subseteq> set S'" "due_request env cfg (set S) (fst ev)" by (simp_all add: subseq_set)
  show "due_request env cfg (set S') (fst ev)"
  proof (cases "fst ev")
    case (PutItem t item)
    with a show ?thesis by (auto intro: object_stored_mono)
  next
    case (UpdateItem t j u c ns vs)
    with a show ?thesis by (auto intro: results_ready_mono)
  next
    case (SendMessage u body attrs)
    with a show ?thesis by (auto intro: message_ready_mono)
  qed simp_all
qed

lemma due_system: "due env cfg S ev \<Longrightarrow> system_request (dynamodb_table cfg) (fst ev)"
  unfolding due_def by (cases "fst ev") (auto dest: table_write_update)

section \<open>Deliveries keep the discipline\<close>

text \<open>The requests of a delivery that only need the record to have been found.\<close>

fun plain :: "string \<Rightarrow> string \<Rightarrow> request \<Rightarrow> bool" where
  "plain tbl job (PutItem t item) \<longleftrightarrow> False"
| "plain tbl job (UpdateItem t j u c ns vs) \<longleftrightarrow> j = job \<and> table_write tbl job (UpdateItem t j u c ns vs) \<and> u \<noteq> COMPLETE_UPDATE"
| "plain tbl job (SendMessage u body attrs) \<longleftrightarrow> False"
| "plain tbl job q \<longleftrightarrow> True"

definition worked :: "'w env \<Rightarrow> config \<Rightarrow> string \<Rightarrow> event list \<Rightarrow> bool" where
  "worked env cfg job tr \<longleftrightarrow>
     (\<forall>S. (\<exists>ev \<in> set S. found (dynamodb_table cfg) job ev) \<longrightarrow> paced (due env cfg) S tr)"

text \<open>Between the render and the end, the same with the results stored.\<close>

definition worked_with :: "'w env \<Rightarrow> config \<Rightarrow> string \<Rightarrow> processed_outputs \<Rightarrow> event list \<Rightarrow> bool" where
  "worked_with env cfg job po tr \<longleftrightarrow>
     (\<forall>S. (\<exists>ev \<in> set S. found (dynamodb_table cfg) job ev) \<and>
        (\<exists>t1. set t1 \<subseteq> set S \<and> rendered (s3_bucket cfg) (thumbnail_sizes cfg) job t1 po) \<longrightarrow> paced (due env cfg) S tr)"

lemma worked_steady: "steady (worked env cfg job)"
  unfolding worked_def by (rule steady_paced) (blast dest: subseq_set)

lemma worked_with_steady: "steady (worked_with env cfg job po)"
  unfolding worked_with_def by (rule steady_paced) (meson order_trans subsetD subseq_set)

lemma plain_due: "plain (dynamodb_table cfg) job (fst ev) \<Longrightarrow> \<exists>x \<in> set S. found (dynamodb_table cfg) job x \<Longrightarrow> due env cfg S ev"
  unfolding due_def by (cases "fst ev") auto

lemma plain_worked: "reqs (plain (dynamodb_table cfg) job) tr \<Longrightarrow> worked env cfg job tr"
  unfolding worked_def by (auto intro!: paced_all due_grows plain_due dest: reqsD)

lemma worked_worked_with: "worked env cfg job tr \<Longrightarrow> worked_with env cfg job po tr"
  by (auto simp: worked_def worked_with_def)

lemma complete_worked_with:
  assumes "reqs (\<lambda>q. \<exists>ms now. q = complete_request (dynamodb_table cfg) job (po_outputs po) (po_exif po) (po_width po)
      (po_height po) (po_format po) ms now) tr"
  shows "worked_with env cfg job po tr"
  unfolding worked_with_def
proof (intro allI impI, rule paced_all [OF due_grows], rule)
  fix S ev
  assume "(\<exists>ev \<in> set S. found (dynamodb_table cfg) job ev) \<and>
      (\<exists>t1. set t1 \<subseteq> set S \<and> rendered (s3_bucket cfg) (thumbnail_sizes cfg) job t1 po)"
  then obtain t1 where S: "\<exists>ev \<in> set S. found (dynamodb_table cfg) job ev" "set t1 \<subseteq> set S"
      "rendered (s3_bucket cfg) (thumbnail_sizes cfg) job t1 po" by blast
  assume ev: "ev \<in> set tr"
  from reqsD [OF assms ev] obtain ms now where q: "fst ev = complete_request (dynamodb_table cfg) job (po_outputs po) (po_exif po)
      (po_width po) (po_height po) (po_format po) ms now" by blast
  have "results_ready (s3_bucket cfg) (thumbnail_sizes cfg) job (set S)
      (complete_values (po_outputs po) (po_exif po) (po_width po) (po_height po) (po_format po) ms now)"
    unfolding results_ready_def using S(2,3) by blast
  with S(1) table_writeI(2) [of "dynamodb_table cfg" job "po_outputs po" "po_exif po" "po_width po" "po_height po" "po_format po" ms now]
  show "due env cfg S ev" by (simp add: due_def q complete_request_def)
qed

lemma plain_requests [simp]:
  "plain tbl job (processing_request tbl job now)" "plain tbl job (failed_request tbl job reason now)"
  "plain tbl job (DeleteMessage url rh)" "plain tbl job (GetItem t j c)"
  using table_writeI(1) [of tbl job now] table_writeI(3) [of tbl job reason now]
  by (simp_all add: processing_request_def failed_request_def)

lemma render_plain: "render_request bucket url rh job q \<Longrightarrow> plain tbl (jm_job_id job) q"
  by (cases q) auto

lemma plain_logs: "logs (only (plain (dynamodb_table cfg) job)) m \<Longrightarrow> logs (holds_of (worked env cfg job)) m"
  by (rule steady_only [OF plain_worked])

lemma worked_render_and_complete:
  "logs (holds_of (worked env cfg (jm_job_id job))) (render_and_complete env cfg (build_clients env cfg) wk job rh started)"
proof -
  let ?C = "build_clients env cfg" and ?j = "jm_job_id job"
  let ?R = "\<lambda>tr r. only (render_request (s3_bucket cfg) (sqs_queue_url cfg) rh job) tr r \<and>
      (\<forall>po. r = Inr po \<longrightarrow> rendered (s3_bucket cfg) (thumbnail_sizes cfg) ?j tr po)"
  have render: "logs ?R (render_job env ?C (worker_tick env ?C wk rh) (thumbnail_sizes cfg) job)"
    by (rule aws.logs_render_job [OF aws.logs_worker_tick])
  have complete: "logs (holds_of (worked_with env cfg ?j po))
      (table_mark_complete ?C ?j (po_outputs po) (po_exif po) (po_width po) (po_height po) (po_format po) ms)" for po ms
    by (rule logs_mono [OF talks_logs [OF aws.mark_complete]]) (auto intro!: complete_worked_with elim!: call_trace_reqs)
  have plain: "logs (holds_of (worked_with env cfg ?j po)) m" if "logs (only (plain (dynamodb_table cfg) ?j)) m"
    for po and m :: "('a, 'b) prog"
    by (rule logs_mono [OF plain_logs [OF that]]) (rule worked_worked_with)
  have del: "logs (holds_of (worked_with env cfg ?j po)) (queue_delete ?C rh)" for po
    by (rule plain, rule logs_mono [OF talks_logs [OF aws.delete]]) (auto simp: only_def intro: call_trace_reqs)
  have tail: "logs (holds_of (worked_with env cfg ?j po)) (bind (ask (clock env)) (\<lambda>ended.
       bind (table_mark_complete ?C ?j (po_outputs po) (po_exif po) (po_width po) (po_height po) (po_format po)
              (py_trunc ((ended - started) * 1000))) (\<lambda>_.
       bind (queue_delete ?C rh) (\<lambda>_. bind (count_job ''complete'') (\<lambda>_. bind (observe_job (ended - started)) (\<lambda>_. return COMPLETED))))))" for po
    by (intro steady_bind [OF worked_with_steady] steady_basic [OF worked_with_steady] complete del plain [OF aws.only_count(1)] plain [OF aws.only_count(2)])
  show ?thesis
    unfolding render_and_complete_def Let_def
  proof (rule logs_mono [OF logs_bind [OF render tail]])
    fix tr and r :: "exn + outcome_kind"
    assume "seq_trace ?R (\<lambda>po. holds_of (worked_with env cfg ?j po)) tr r"
    then show "worked env cfg ?j tr"
    proof (cases rule: seq_traceE)
      case (left e)
      then show ?thesis by (auto simp: only_def intro!: plain_worked elim!: reqs_mono dest: render_plain)
    next
      case (right t1 po t2)
      then have t1: "worked env cfg ?j t1" "rendered (s3_bucket cfg) (thumbnail_sizes cfg) ?j t1 po"
        by (auto simp: only_def intro!: plain_worked elim!: reqs_mono dest: render_plain)
      show ?thesis
        unfolding worked_def
      proof (intro allI impI)
        fix S
        assume S: "\<exists>ev \<in> set S. found (dynamodb_table cfg) ?j ev"
        with t1(2) have "(\<exists>ev \<in> set (S @ t1). found (dynamodb_table cfg) ?j ev) \<and>
            (\<exists>tr. set tr \<subseteq> set (S @ t1) \<and> rendered (s3_bucket cfg) (thumbnail_sizes cfg) ?j tr po)" by auto
        with right(3) have "paced (due env cfg) (S @ t1) t2" unfolding worked_with_def by blast
        with S t1(1) right(1) show "paced (due env cfg) S tr" by (simp add: paced_append worked_def)
      qed
    qed
  qed
qed

lemma worked_work: "logs (holds_of (worked env cfg (jm_job_id job))) (work env cfg (build_clients env cfg) wk job rh)"
proof -
  let ?C = "build_clients env cfg"
  let ?K = "worked env cfg (jm_job_id job)"
  have "logs (holds_of ?K) (fail_job ?C (jm_job_id job) rh reason)" for reason
    by (rule plain_logs, rule aws.only_fail_job) simp_all
  then have settle: "logs (holds_of ?K) (settle_failure env ?C job rh started e)" for started e
    unfolding settle_failure_def
    by (auto intro!: steady_bind steady_basic worked_steady plain_logs [OF aws.only_count(2)])
  have quiet: "logs (silent (\<lambda>r. r = Inr ())) (modify (\<lambda>s. s\<lparr>jobs_inflight := g (jobs_inflight s)\<rparr>))" for g
    by (rule logs_modify) simp
  show ?thesis
    unfolding work_def
    by (intro steady_bind [OF worked_steady] steady_finalize steady_attempt steady_basic [OF worked_steady]
        steady_silent [OF worked_steady quiet] worked_render_and_complete quiet)
      (auto intro: settle steady_basic [OF worked_steady] split: sum.split)
qed

lemma worked_claim: "logs (holds_of (worked env cfg (jm_job_id job))) (claim_and_work env cfg (build_clients env cfg) wk job rh)"
proof -
  let ?K = "worked env cfg (jm_job_id job)"
  have claim: "logs (holds_of ?K) (table_mark_processing (build_clients env cfg) (jm_job_id job))"
    by (rule plain_logs, rule aws.only_mark_processing) simp
  have drop: "logs (holds_of ?K) (delete_quietly (build_clients env cfg) rh)"
    by (rule plain_logs, rule aws.only_delete_quietly) simp
  show ?thesis
    unfolding claim_and_work_def
    by (intro steady_bind [OF worked_steady steady_attempt [OF claim]])
      (auto intro!: steady_bind [OF worked_steady drop] worked_work steady_basic [OF worked_steady] split: sum.split)
qed

text \<open>Requests that are always in order.\<close>

fun harmless :: "request \<Rightarrow> bool" where
  "harmless (PutItem t item) = False"
| "harmless (UpdateItem t j u c ns vs) = False"
| "harmless (SendMessage u body attrs) = False"
| "harmless q = True"

lemma harmless_paced: "reqs harmless tr \<Longrightarrow> paced (due env cfg) S tr"
proof (rule paced_all [OF due_grows], rule)
  fix ev
  assume "reqs harmless tr" "ev \<in> set tr"
  then have "harmless (fst ev)" by (rule reqsD)
  then show "due env cfg S ev"
    unfolding due_def by (cases "fst ev") auto
qed

text \<open>What follows the read of the record, by its answer.\<close>

definition after_read :: "'w env \<Rightarrow> config \<Rightarrow> string \<Rightarrow> exn + job_record option \<Rightarrow> event list \<Rightarrow> bool" where
  "after_read env cfg job r tr \<longleftrightarrow> (case r of Inr (Some rc) \<Rightarrow> worked env cfg job tr | _ \<Rightarrow> reqs harmless tr)"

lemma worked_after_read:
  fixes env :: "'w env" and cfg :: config
  defines "C \<equiv> build_clients env cfg"
  shows "logs (holds_of (after_read env cfg (jm_job_id job) r))
    (case r of Inl e \<Rightarrow> if is_infra e then return RETRY else raise e
       | Inr None \<Rightarrow> bind (count_job ''failed'') (\<lambda>_. bind (delete_quietly C rh) (\<lambda>_. return JOB_FAILED))
       | Inr (Some rc) \<Rightarrow>
           if jr_status rc = COMPLETE then bind (delete_quietly C rh) (\<lambda>_. return SKIPPED_DUPLICATE)
           else if jm_bucket job \<noteq> s3_bucket cfg
           then fail_job C (jm_job_id job) rh (''message references unexpected bucket '' @ py_repr (jm_bucket job))
           else claim_and_work env cfg C wk job rh)"
proof -
  let ?K = "worked env cfg (jm_job_id job)"
  have drop: "logs (only P) (delete_quietly C rh)" if "P (DeleteMessage (sqs_queue_url cfg) rh)" for P
    unfolding C_def by (rule aws.only_delete_quietly) (rule that)
  have fail: "logs (holds_of ?K) (fail_job C (jm_job_id job) rh reason)" for reason
    unfolding C_def by (rule plain_logs, rule aws.only_fail_job) simp_all
  have no: "logs (holds_of (reqs harmless)) m" if "logs (only harmless) m" for m :: "('w, outcome_kind) prog"
    by (rule logs_mono [OF that]) (simp add: only_def)
  show ?thesis
  proof (cases r)
    case (Inl e)
    then show ?thesis by (auto simp: after_read_def intro!: no only_basic)
  next
    case (Inr x)
    show ?thesis
    proof (cases x)
      case None
      with Inr show ?thesis by (auto simp: after_read_def intro!: no only_bind only_basic aws.only_count drop)
    next
      case (Some rc)
      have "logs (holds_of ?K) (bind (delete_quietly C rh) (\<lambda>_. return SKIPPED_DUPLICATE))"
        by (rule plain_logs) (auto intro!: only_bind only_basic drop)
      with Inr Some show ?thesis by (simp add: after_read_def fail worked_claim [of env cfg, folded C_def])
    qed
  qed
qed

text \<open>The whole delivery: the first thing it does is to read the record.\<close>

lemma paced_process_job:
  "logs (holds_of (paced (due env cfg) [])) (process_job env cfg (build_clients env cfg) wk job rh)"
proof -
  let ?j = "jm_job_id job" and ?tbl = "dynamodb_table cfg"
  let ?B = "\<lambda>r. holds_of (after_read env cfg ?j r) :: event list \<Rightarrow> exn + outcome_kind \<Rightarrow> bool"
  show ?thesis
    unfolding process_job_def
  proof (rule logs_mono [OF logs_bind [OF logs_attempt [OF talks_logs [OF aws.get_job]] worked_after_read]])
    fix tr and r :: "exn + outcome_kind"
    assume "seq_trace (\<lambda>tr r. \<exists>r'. r = Inr r' \<and> get_trace (decode_item env) (GetItem ?tbl ?j (Some True)) tr r') ?B tr r"
    then obtain t1 t2 r1 where t: "tr = t1 @ t2" "get_trace (decode_item env) (GetItem ?tbl ?j (Some True)) t1 r1" "after_read env cfg ?j r1 t2"
      by (rule attempt_seqE)
    then have t1: "paced (due env cfg) [] t1" by (intro harmless_paced) (auto simp: reqs_def get_trace_def)
    show "paced (due env cfg) [] tr"
    proof (cases "\<exists>rc. r1 = Inr (Some rc)")
      case True
      then obtain rc where r1: "r1 = Inr (Some rc)" by blast
      with t(2) obtain i where i: "(GetItem ?tbl ?j (Some True), Returned (PDict i)) \<in> set t1" "i \<noteq> []"
        by (auto simp: get_trace_def)
      then have "\<exists>ev \<in> set t1. found ?tbl ?j ev"
        by (intro bexI [OF _ i(1)]) simp
      with t(3) r1 have "paced (due env cfg) t1 t2" by (simp add: worked_def after_read_def)
      with t(1) t1 show ?thesis by (simp add: paced_append)
    next
      case False
      with t(3) have "reqs harmless t2" by (auto simp: after_read_def split: sum.splits option.splits)
      with t(1) t1 harmless_paced [of t2 env cfg t1] show ?thesis by (simp add: paced_append)
    qed
  qed
qed

lemma paced_handle_message:
  "logs (holds_of (paced (due env cfg) [])) (handle_message env cfg (build_clients env cfg) wk m)"
proof (cases "parse_message env (opt_get [] (Body m))")
  case (Inl e)
  have "paced (due env cfg) [] tr" if "reqs (\<lambda>q. q = DeleteMessage (sqs_queue_url cfg) (receipt m)) tr" for tr
    by (rule paced_all [OF due_grows]) (auto simp: due_def dest: reqsD [OF that])
  then show ?thesis
    by (intro logs_mono [OF aws.logs_handle_message]) (auto simp: delivery_trace_def Inl split: if_splits)
next
  case (Inr job)
  have quiet: "logs (silent (\<lambda>r. r = Inr ())) (modify (\<lambda>s. s\<lparr>log_context := g (log_context s)\<rparr>))" for g
    by (rule logs_modify) simp
  have nil: "logs (holds_of (paced (due env cfg) [])) (return RETRY :: ('a, outcome_kind) prog)"
    by (rule logs_mono [OF logs_return]) (simp add: silent_def)
  have "logs (holds_of (paced (due env cfg) [])) (bind (bind_job_context (jm_job_id job))
      (\<lambda>_. finalize (process_job env cfg (build_clients env cfg) wk job (receipt m)) clear_job_context))"
    unfolding bind_job_context_def clear_job_context_def
    by (rule logs_mono [OF logs_bind [OF quiet logs_finalize [OF paced_process_job quiet]]]) (auto simp: seq_silent)
  with nil show ?thesis by (simp add: handle_message_def Inr)
qed

section \<open>Uploads keep the discipline\<close>

lemma initial_due:
  assumes "jr_status rc = PENDING \<or> jr_status rc = FAILED" "object_stored (set S) (s3_bucket cfg) (jr_input_key rc)"
  shows "due env cfg S (PutItem (dynamodb_table cfg) (to_dynamo_dict (to_item rc)), res)"
  using assms by (auto simp: due_def initial_item_def)

lemma requests_due:
  "\<forall>ev \<in> set tr. fst ev = q \<Longrightarrow> (\<And>res. due env cfg S (q, res)) \<Longrightarrow> paced (due env cfg) S tr"
  by (rule paced_all [OF due_grows]) (metis prod.collapse)

lemma paced_enqueue:
  assumes "enqueue_trace env cfg url (dynamodb_table cfg) rc attributes tr r"
    and "object_stored (set S) (s3_bucket cfg) (jr_input_key rc)"
    and "(PutItem (dynamodb_table cfg) (to_dynamo_dict (to_item rc)), Returned PNone) \<in> set S"
  shows "paced (due env cfg) S tr"
proof -
  have send: "due env cfg S (SendMessage u (dump_message env (new_message cfg rc)) attrs, res)" for u attrs res
    using assms(2,3) by (auto simp: due_def message_ready_def)
  from assms(1) show ?thesis
  proof (cases rule: enqueue_traceE)
    case (sent m)
    then show ?thesis by (auto intro!: requests_due send dest: call_trace_request)
  next
    case (unsent e t1 t2)
    have "paced (due env cfg) S t1"
      using unsent(3) by (auto intro!: requests_due send dest: call_trace_request)
    moreover from unsent(4) obtain updated completed and r2 :: "exn + unit" where
      c: "call_trace (PutItem (dynamodb_table cfg) (to_dynamo_dict (to_item (unqueueable rc e updated completed)))) no_answer t2 r2"
      unfolding requeue_trace_def by auto
    have "object_stored (set (S @ t1)) (s3_bucket cfg) (jr_input_key (unqueueable rc e updated completed))"
      using assms(2) by (auto simp: unqueueable_def intro: object_stored_mono)
    then have "paced (due env cfg) (S @ t1) t2"
      using c by (auto intro!: requests_due initial_due dest: call_trace_request simp: unqueueable_def)
    ultimately show ?thesis by (simp add: unsent(1) paced_append)
  qed
qed

lemma paced_upload:
  assumes "upload_trace env cfg (s3_bucket cfg) url (dynamodb_table cfg) data rc tr r" "jr_status rc = PENDING"
  shows "paced (due env cfg) [] tr"
proof -
  have put: "paced (due env cfg) S t"
    if "\<forall>ev \<in> set t. fst ev = PutObject (s3_bucket cfg) (jr_input_key rc) data (jr_content_type rc)" for S t
    using that by (rule requests_due) (simp add: due_def)
  have stored: "object_stored (set t) (s3_bucket cfg) (jr_input_key rc)"
    if "(PutObject (s3_bucket cfg) (jr_input_key rc) data (jr_content_type rc), Returned PNone) \<in> set t" for t
    using that by (auto simp: object_stored_def)
  have item: "paced (due env cfg) t1 t2"
    if "\<forall>ev \<in> set t2. fst ev = PutItem (dynamodb_table cfg) (to_dynamo_dict (to_item rc))"
      "(PutObject (s3_bucket cfg) (jr_input_key rc) data (jr_content_type rc), Returned PNone) \<in> set t1" for t1 t2
    by (rule requests_due [OF that(1)]) (rule initial_due, simp_all add: assms(2) stored [OF that(2)])
  from assms(1) show ?thesis
  proof (cases rule: upload_traceE)
    case no_object
    then show ?thesis by (intro put)
  next
    case (no_record t1 t2)
    then show ?thesis by (simp add: paced_append put item)
  next
    case (enqueued t1 t2 t3 carrier)
    have "paced (due env cfg) (t1 @ t2) t3"
      by (rule paced_enqueue [OF enqueued(6)])
        (use enqueued(5) in \<open>auto intro: object_stored_mono [OF stored [OF enqueued(3)]]\<close>)
    with enqueued show ?thesis by (simp add: paced_append put item)
  qed
qed

lemma paced_create_job:
  assumes "create_job env cfg (build_clients env cfg) data filename content_type s = (r, s')"
  shows "\<exists>tr. wire s' = wire s @ tr \<and> paced (due env cfg) [] tr"
  using upload_outcome_trace [OF assms]
  by (rule upload_outcome_cases) (auto dest!: new_record_status dest: paced_upload)

section \<open>Deletions keep the discipline\<close>

text \<open>The queue handed out a message with this handle and this body.\<close>

fun hands :: "string \<Rightarrow> string \<Rightarrow> string \<Rightarrow> event \<Rightarrow> bool" where
  "hands url rh body (ReceiveMessage u n w names atts v, Returned (PList xs)) \<longleftrightarrow> u = url \<and> PTuple [PStr rh, PStr body] \<in> set xs"
| "hands url rh body ev \<longleftrightarrow> False"

text \<open>After it was handed out, the job of the message was settled, if its body stands for a job.\<close>

definition delete_ready :: "'w env \<Rightarrow> config \<Rightarrow> event list \<Rightarrow> string \<Rightarrow> bool" where
  "delete_ready env cfg seen rh \<longleftrightarrow>
     (\<exists>body a rv b. seen = a @ rv # b \<and> hands (sqs_queue_url cfg) rh body rv \<and>
        (case parse_message env body of Inl e \<Rightarrow> True
         | Inr job \<Rightarrow> \<exists>x \<in> set b. settles (dynamodb_table cfg) (decode_item env) (jm_job_id job) x))"

definition delete_due :: "'w env \<Rightarrow> config \<Rightarrow> event list \<Rightarrow> event \<Rightarrow> bool" where
  "delete_due env cfg seen ev \<longleftrightarrow> (case fst ev of DeleteMessage u rh \<Rightarrow> delete_ready env cfg seen rh | _ \<Rightarrow> True)"

definition in_order :: "'w env \<Rightarrow> config \<Rightarrow> event list \<Rightarrow> event \<Rightarrow> bool" where
  "in_order env cfg = (\<lambda>seen ev. due env cfg seen ev \<and> delete_due env cfg seen ev)"

lemma subseq_split:
  assumes "subseq (a @ x # b) S"
  shows "\<exists>a' b'. S = a' @ x # b' \<and> subseq b b'"
proof -
  from assms obtain us vs where "S = us @ vs" "subseq (x # b) vs" by (auto dest: list_emb_appendD)
  moreover from this(2) obtain ws b' where "vs = ws @ x # b'" "subseq b b'" by (auto dest: list_emb_ConsD)
  ultimately show ?thesis by (intro exI [of _ "us @ ws"] exI [of _ b']) simp
qed

lemma delete_ready_mono:
  assumes "delete_ready env cfg S rh" "subseq S S'"
  shows "delete_ready env cfg S' rh"
proof -
  from assms(1) obtain body a rv b where s: "S = a @ rv # b" "hands (sqs_queue_url cfg) rh body rv"
      "case parse_message env body of Inl e \<Rightarrow> True
         | Inr job \<Rightarrow> \<exists>x \<in> set b. settles (dynamodb_table cfg) (decode_item env) (jm_job_id job) x"
    unfolding delete_ready_def by blast
  from subseq_split [OF assms(2) [unfolded s(1)]] obtain a' b' where t: "S' = a' @ rv # b'" "subseq b b'" by blast
  with s(2,3) subseq_set [OF t(2)] show ?thesis
    unfolding delete_ready_def
    by (intro exI [of _ body] exI [of _ a'] exI [of _ rv] exI [of _ b']) (auto split: sum.splits)
qed

lemma in_order_grows: "grows (in_order env cfg)"
  using due_grows [of env cfg] delete_ready_mono
  unfolding grows_def in_order_def delete_due_def by (auto split: request.splits)

lemma pacedI: "(\<And>a ev b. tr = a @ ev # b \<Longrightarrow> P (S @ a) ev) \<Longrightarrow> paced P S tr"
proof (induction tr arbitrary: S)
  case (Cons e tr)
  have "P S e" using Cons.prems [of "[]" e tr] by simp
  moreover have "paced P (S @ [e]) tr"
  proof (rule Cons.IH)
    fix a ev b
    assume "tr = a @ ev # b"
    with Cons.prems [of "e # a" ev b] show "P ((S @ [e]) @ a) ev" by simp
  qed
  ultimately show ?case by simp
qed simp

lemma in_order_handle_message:
  "logs (\<lambda>tr r. \<forall>S. (\<exists>rv \<in> set S. hands (sqs_queue_url cfg) (receipt m) (opt_get [] (Body m)) rv) \<longrightarrow>
      paced (in_order env cfg) S tr)
     (handle_message env cfg (build_clients env cfg) wk m)"
proof (rule logs_mono [OF logs_conj [OF paced_handle_message logs_conj [OF aws.logs_handle_message confined_handle_message]]], intro allI impI)
  let ?parsed = "parse_message env (opt_get [] (Body m))"
  fix tr r S
  assume l: "paced (due env cfg) [] tr \<and>
      delivery_trace env (s3_bucket cfg) (sqs_queue_url cfg) (dynamodb_table cfg) (decode_item env) (thumbnail_sizes cfg) m tr r \<and>
      only (confined_to env cfg m) tr r"
    and S: "\<exists>rv \<in> set S. hands (sqs_queue_url cfg) (receipt m) (opt_get [] (Body m)) rv"
  from S obtain a0 rv b0 where S': "S = a0 @ rv # b0" "hands (sqs_queue_url cfg) (receipt m) (opt_get [] (Body m)) rv"
    by (metis split_list)
  have guard: "guarded is_delete (settles (dynamodb_table cfg) (decode_item env) (jm_job_id job)) tr" if "?parsed = Inr job" for job
    using l that by (auto simp: delivery_trace_def job_trace_def closed_def split: if_splits)
  have "paced (delete_due env cfg) S tr"
  proof (rule pacedI)
    fix a ev b
    assume tr: "tr = a @ ev # b"
    show "delete_due env cfg (S @ a) ev"
    proof (cases "is_delete (fst ev)")
      case False
      then show ?thesis by (cases "fst ev") (simp_all add: delete_due_def)
    next
      case True
      then obtain u rh where q: "fst ev = DeleteMessage u rh" by (cases "fst ev") auto
      have "confined_to env cfg m (fst ev)" using l tr by (auto simp: only_def)
      then have rh: "rh = receipt m" by (auto simp: confined_to_def q split: sum.splits)
      have "case ?parsed of Inl e \<Rightarrow> True
         | Inr job \<Rightarrow> \<exists>x \<in> set (b0 @ a). settles (dynamodb_table cfg) (decode_item env) (jm_job_id job) x"
        using guarded_split [OF guard tr True] by (auto split: sum.split)
      with S' show ?thesis
        unfolding delete_due_def delete_ready_def q rh request.case
        by (intro exI [of _ "opt_get [] (Body m)"] exI [of _ a0] exI [of _ rv] exI [of _ "b0 @ a"]) simp
    qed
  qed
  moreover have "paced (due env cfg) S tr"
    by (rule paced_mono [OF due_grows]) (use l in auto)
  ultimately show "paced (in_order env cfg) S tr"
    unfolding in_order_def by (rule paced_conj [rotated])
qed

text \<open>One iteration of the poll loop.\<close>

definition handed_all :: "config \<Rightarrow> sqs_message list \<Rightarrow> event list \<Rightarrow> bool" where
  "handed_all cfg ms S \<longleftrightarrow> (\<forall>m \<in> set ms. \<exists>rv \<in> set S. hands (sqs_queue_url cfg) (receipt m) (opt_get [] (Body m)) rv)"

lemma handed_all_mono: "handed_all cfg ms S \<Longrightarrow> subseq S S' \<Longrightarrow> handed_all cfg ms S'"
  unfolding handed_all_def by (blast dest: subseq_set)

lemma in_order_handle_all:
  assumes "set ms' \<subseteq> set ms"
  shows "logs (\<lambda>tr r. \<forall>S. handed_all cfg ms S \<longrightarrow> paced (in_order env cfg) S tr)
     (handle_all env cfg (build_clients env cfg) wk ms')"
  using assms
proof (induction ms')
  case Nil
  show ?case by (simp, rule logs_mono [OF logs_return]) (simp add: silent_def)
next
  case (Cons m ms')
  have st: "steady (\<lambda>tr. \<forall>S. handed_all cfg ms S \<longrightarrow> paced (in_order env cfg) S tr)"
    by (rule steady_paced) (rule handed_all_mono)
  have "logs (\<lambda>tr r. \<forall>S. handed_all cfg ms S \<longrightarrow> paced (in_order env cfg) S tr)
      (handle_message env cfg (build_clients env cfg) wk m)"
    by (rule logs_mono [OF in_order_handle_message]) (use Cons.prems in \<open>auto simp: handed_all_def\<close>)
  with st Cons show ?case by (simp add: steady_bind [OF st])
qed

lemma receive_in_order:
  "\<forall>ev \<in> set tr. fst ev = ReceiveMessage u n w names atts v \<Longrightarrow> paced (in_order env cfg) S tr"
  by (rule paced_all [OF in_order_grows]) (auto simp: in_order_def due_def delete_due_def)

lemma receive_hands:
  assumes "call_trace (ReceiveMessage url n w names atts v) (\<lambda>ms. receive_answer (Some ms)) tr (Inr ms)" "url = sqs_queue_url cfg"
  shows "handed_all cfg ms tr"
  using call_trace_ok [OF assms(1)] unfolding handed_all_def
  by (auto simp: receive_answer_def assms(2) intro!: bexI [rotated])

lemma in_order_run_once:
  "logs (holds_of (paced (in_order env cfg) [])) (run_once env cfg (build_clients env cfg) wk)"
proof -
  let ?C = "build_clients env cfg"
  let ?q = "receive_request (sqs_queue_url cfg) 1 (wk_poll_wait wk) None"
  let ?R = "call_trace ?q (\<lambda>ms. receive_answer (Some ms))"
  let ?B = "\<lambda>(r :: exn + sqs_message list) tr (r' :: exn + int). case r of Inl e \<Rightarrow> tr = []
      | Inr ms \<Rightarrow> \<forall>S. handed_all cfg ms S \<longrightarrow> paced (in_order env cfg) S tr"
  have retreat: "logs (\<lambda>tr r. tr = []) (bind (sleep RECEIVE_BACKOFF_SECONDS) (\<lambda>_. return 0) :: ('a, int) prog)"
    unfolding sleep_def
    by (rule logs_mono [OF logs_bind [OF logs_modify logs_return]]) (auto simp: seq_silent silent_def)
  have fail: "logs (\<lambda>tr r. tr = []) (raise e :: ('a, int) prog)" for e
    by (rule logs_mono [OF logs_raise]) (simp add: silent_def)
  have all: "logs (\<lambda>tr r. \<forall>S. handed_all cfg ms S \<longrightarrow> paced (in_order env cfg) S tr)
      (bind (handle_all env cfg ?C wk ms) (\<lambda>_. return (int (length ms))))" for ms
  proof (rule steady_bind [OF steady_paced in_order_handle_all [OF subset_refl]])
    show "logs (\<lambda>tr r. \<forall>S. handed_all cfg ms S \<longrightarrow> paced (in_order env cfg) S tr) (return (int (length ms)) :: ('a, int) prog)"
      by (rule logs_mono [OF logs_return]) (simp add: silent_def)
  qed (rule handed_all_mono)
  have two: "logs (?B r) (case r of Inl e \<Rightarrow> if is_infra e then bind (sleep RECEIVE_BACKOFF_SECONDS) (\<lambda>_. return 0) else raise e
       | Inr messages \<Rightarrow> bind (handle_all env cfg ?C wk messages) (\<lambda>_. return (int (length messages))))" for r
    using retreat fail all by (cases r) simp_all
  show ?thesis
    unfolding run_once_def
  proof (rule logs_mono [OF logs_bind [OF logs_attempt [OF talks_logs [OF aws.receive]] two]])
    fix tr and r :: "exn + int"
    assume "seq_trace (\<lambda>tr r. \<exists>r'. r = Inr r' \<and> ?R tr r') ?B tr r"
    then obtain t1 t2 r1 where t: "tr = t1 @ t2" "?R t1 r1" "?B r1 t2 r" by (rule attempt_seqE)
    have t1: "paced (in_order env cfg) [] t1"
      using t(2) by (intro receive_in_order) (auto dest: call_trace_request)
    show "paced (in_order env cfg) [] tr"
    proof (cases r1)
      case (Inl e)
      with t t1 show ?thesis by simp
    next
      case (Inr ms)
      with t(2) have "handed_all cfg ms t1" by (auto intro: receive_hands)
      with Inr t(3) have "paced (in_order env cfg) t1 t2" by simp
      with t1 t(1) show ?thesis by (simp add: paced_append)
    qed
  qed
qed

text \<open>An upload deletes nothing.\<close>

lemma enqueue_no_delete:
  assumes "enqueue_trace env cfg url tbl rc attributes tr r"
  shows "reqs (\<lambda>q. \<not> is_delete q) tr"
  using assms
proof (cases rule: enqueue_traceE)
  case (sent m)
  then show ?thesis by (auto intro: call_trace_reqs)
next
  case (unsent e t1 t2)
  have "reqs (\<lambda>q. \<not> is_delete q) t2"
    unfolding reqs_def by (rule ballI, drule requeue_trace_request [OF unsent(4)]) auto
  with unsent show ?thesis by (auto intro: call_trace_reqs)
qed

lemma upload_no_delete: "upload_trace env cfg bucket url tbl data rc tr r \<Longrightarrow> reqs (\<lambda>q. \<not> is_delete q) tr"
  by (erule upload_traceE) (auto simp: reqs_def dest: enqueue_no_delete [unfolded reqs_def])

lemma in_order_create_job:
  assumes "create_job env cfg (build_clients env cfg) data filename content_type s = (r, s')"
  shows "\<exists>tr. wire s' = wire s @ tr \<and> paced (in_order env cfg) [] tr"
proof -
  have none: "paced (delete_due env cfg) [] tr" if "upload_trace env cfg bucket url tbl data rc tr r1" for bucket url tbl rc tr r1
  proof (rule pacedI)
    fix a ev b
    assume "tr = a @ ev # b"
    then have "ev \<in> set tr" by simp
    with reqsD [OF upload_no_delete [OF that]] have "\<not> is_delete (fst ev)" by blast
    then show "delete_due env cfg ([] @ a) ev" by (cases "fst ev") (simp_all add: delete_due_def)
  qed
  show ?thesis
    using upload_outcome_trace [OF assms]
    by (rule upload_outcome_cases)
      (auto simp: in_order_def dest!: new_record_status intro!: paced_conj dest: paced_upload none)
qed

end
