(* ===== verification/Readiness.thy ===== *)
theory Readiness
  imports Clients
begin

text \<open>
  \<open>ReadinessProbe\<close>, \<open>_summarise\<close> and \<open>wait_for_dependencies\<close> of \<open>shared/aws.py\<close>: the three probes
  behind \<open>/readyz\<close>, and the startup loop of the worker.
\<close>

fun summarise :: "exn \<Rightarrow> string" where
  "summarise (ClientError code status) = opt_get ''ClientError'' code"
| "summarise e = exn_name e"

text \<open>The loop of \<open>run\<close>: a failed probe is recorded and the next one still runs.\<close>

fun run_probes :: "(string \<times> ('w, unit) prog) list \<Rightarrow> string dict \<Rightarrow> bool \<Rightarrow> ('w, bool \<times> string dict) prog" where
  "run_probes [] checks ready = return (ready, checks)"
| "run_probes ((name, probe) # probes) checks ready =
     bind (attempt probe) (\<lambda>r. case r of
         Inr _ \<Rightarrow> run_probes probes (dict_set name ''ok'' checks) ready
       | Inl e \<Rightarrow> run_probes probes (dict_set name (''error: '' @ summarise e) checks) False)"

definition readiness_run :: "'w clients \<Rightarrow> ('w, bool \<times> string dict) prog" where
  "readiness_run C =
     run_probes [(''s3'', store_check C), (''sqs'', queue_check C), (''dynamodb'', table_check C)] [] True"

definition failures_of :: "string dict \<Rightarrow> string list" where
  "failures_of checks = map (\<lambda>(name, result). name @ ''='' @ result) (filter (\<lambda>(name, result). result \<noteq> ''ok'') checks)"

function wait_from ::
  "('w, bool \<times> string dict) prog \<Rightarrow> int \<Rightarrow> rat \<Rightarrow> rat \<Rightarrow> int \<Rightarrow> string list \<Rightarrow> ('w, unit) prog" where
  "wait_from probe n base_dl max_dl k failures =
     (if n < k
      then raise (TransientDependencyError
             (''dependencies unavailable after startup retries: '' @ py_join '', '' failures) None)
      else bind probe (\<lambda>(ready, checks).
        if ready then return ()
        else if k < n
        then bind (sleep (min max_dl (base_dl * 2 ^ nat (k - 1))))
               (\<lambda>_. wait_from probe n base_dl max_dl (k + 1) (failures_of checks))
        else wait_from probe n base_dl max_dl (k + 1) (failures_of checks)))"
  by pat_completeness auto
termination
  by (relation "measure (\<lambda>(probe, n, base_dl, max_dl, k, failures). nat (n + 1 - k))") auto

declare wait_from.simps [simp del]

definition wait_for_dependencies :: "'w clients \<Rightarrow> int \<Rightarrow> rat \<Rightarrow> rat \<Rightarrow> ('w, unit) prog" where
  "wait_for_dependencies C n base_dl max_dl = wait_from (readiness_run C) n base_dl max_dl 1 []"

section \<open>The probe never raises and reports every dependency\<close>

lemma wp_probe:
  "(\<And>r s'. Q (Inr r) s') \<Longrightarrow> wp (attempt (m :: ('w, 'a) prog)) Q s"
  by (simp add: wp_def attempt_def split: prod.split)

lemma error_not_ok [simp]: "''error: '' @ e \<noteq> ''ok''" "''ok'' \<noteq> ''error: '' @ e"
  by simp_all

text \<open>\<open>readiness_report\<close>: what \<open>/readyz\<close> may say.\<close>

definition readiness_report :: "bool \<Rightarrow> string dict \<Rightarrow> bool" where
  "readiness_report ready checks \<longleftrightarrow>
     dict_keys checks = [''s3'', ''sqs'', ''dynamodb''] \<and>
     ready = (\<forall>(name, result) \<in> set checks. result = ''ok'') \<and>
     (\<forall>(name, result) \<in> set checks. result = ''ok'' \<or> py_startswith result ''error: '')"

lemma readiness_run_report:
  "wp (readiness_run C) (\<lambda>r s'. \<exists>ready checks. r = Inr (ready, checks) \<and> readiness_report ready checks) s"
  unfolding readiness_run_def
  by (auto simp: wp_bind wp_return readiness_report_def dict_keys_def py_startswith_def
      intro!: wp_probe split: sum.split)

text \<open>
  The loop is left without an exception only from a round that found everything ready; otherwise it
  is left by \<open>TransientDependencyError\<close>, whose text lists what the last round found wanting.
\<close>

definition waited :: "('w, bool \<times> string dict) prog \<Rightarrow> int \<Rightarrow> string list \<Rightarrow> 'w st \<Rightarrow> exn + unit \<Rightarrow> 'w st \<Rightarrow> bool" where
  "waited probe rounds failures s r s' \<longleftrightarrow>
     (case r of
        Inr _ \<Rightarrow> \<exists>s1 checks. probe s1 = (Inr (True, checks), s')
      | Inl e \<Rightarrow> \<exists>fs. e = TransientDependencyError
            (''dependencies unavailable after startup retries: '' @ py_join '', '' fs) None \<and>
            (if 0 < rounds then \<exists>s1 checks. probe s1 = (Inr (False, checks), s') \<and> fs = failures_of checks
             else fs = failures \<and> s' = s))"

lemma wait_from_waited:
  fixes probe :: "('w, bool \<times> string dict) prog" and s :: "'w st"
  assumes probe: "\<And>t. wp probe (\<lambda>r s'. \<exists>ready checks. r = Inr (ready, checks)) t"
  shows "wp (wait_from probe n base_dl max_dl k failures) (waited probe (n + 1 - k) failures s) s"
proof (induction "nat (n + 1 - k)" arbitrary: k failures s)
  case (0 k failures s)
  then show ?case
    by (subst wait_from.simps) (simp add: wp_simps waited_def)
next
  case (Suc m k failures s)
  then have k: "\<not> n < k" and m: "m = nat (n + 1 - (k + 1))" by simp_all
  obtain ready checks s1 where run: "probe s = (Inr (ready, checks), s1)"
    using probe [of s] by (auto simp: wp_def split: prod.splits)
  have again: "wp (wait_from probe n base_dl max_dl (k + 1) (failures_of checks)) (waited probe (n + 1 - k) failures s) s2"
    if "\<not> ready" "k < n \<or> s2 = s1" for s2
    by (rule wp_mono [OF Suc.hyps(1) [OF m]])
      (use run that k in \<open>auto simp: waited_def split: sum.splits if_splits\<close>)
  have "wp probe (\<lambda>r s'. r = Inr (ready, checks) \<and> s' = s1) s"
    using run by (simp add: wp_def)
  then have step: "wp probe Q s" if "Q (Inr (ready, checks)) s1" for Q
    by (rule wp_mono) (use that in simp)
  have ready: "waited probe (n + 1 - k) failures s (Inr ()) s1" if ready
    unfolding waited_def using run that by (simp only: sum.case) blast
  have "wp (wait_from probe n base_dl max_dl k failures) (waited probe (n + 1 - k) failures s) s"
    unfolding wait_from.simps [of probe n base_dl max_dl k failures]
    using k ready again by (cases ready) (auto simp: wp_simps intro!: step)
  then show ?case .
qed

lemma wait_for_dependencies_spec:
  "wp (wait_for_dependencies C n base_dl max_dl)
     (\<lambda>r s'. case r of
        Inr u \<Rightarrow> \<exists>s1 checks. readiness_run C s1 = (Inr (True, checks), s')
      | Inl e \<Rightarrow> \<exists>fs. e = TransientDependencyError
            (''dependencies unavailable after startup retries: '' @ py_join '', '' fs) None \<and>
            (if 0 < n then \<exists>s1 checks. readiness_run C s1 = (Inr (False, checks), s') \<and> fs = failures_of checks
             else fs = [] \<and> s' = s)) s"
proof -
  have "wp (readiness_run C) (\<lambda>r s'. \<exists>ready checks. r = Inr (ready, checks)) t" for t :: "'a st"
    by (rule wp_mono [OF readiness_run_report]) blast
  from wait_from_waited [OF this, of n base_dl max_dl 1 "[]" s]
  show ?thesis
    unfolding wait_for_dependencies_def waited_def by (simp only: add_diff_cancel_right')
qed

section \<open>Properties\<close>

text \<open>
  The readiness probe never raises. It probes all three dependencies, reports each under its name
  as \<open>ok\<close> or \<open>error: ...\<close>, and says \<open>ready\<close> exactly when all three are \<open>ok\<close>.
\<close>

theorem readiness_reports_every_dependency:
  "wp (readiness_run C) (\<lambda>r s'. \<exists>ready checks. r = Inr (ready, checks) \<and>
     dict_keys checks = [''s3'', ''sqs'', ''dynamodb''] \<and>
     ready = list_all (\<lambda>(name, result). result = ''ok'') checks \<and>
     list_all (\<lambda>(name, result). result = ''ok'' \<or> py_startswith result ''error: '') checks) s"
  by (rule wp_mono [OF readiness_run_report]) (auto simp: readiness_report_def list_all_iff)

text \<open>
  C36: \<open>wait_for_dependencies\<close> returns only from a probe round that found everything ready, and
  otherwise ends, after all its rounds, in a \<open>TransientDependencyError\<close> whose text names what the
  last round found wanting; it always ends.
\<close>

theorem wait_returns_only_when_ready:
  "wp (wait_for_dependencies C n base_dl max_dl)
     (\<lambda>r s'. case r of
        Inr u \<Rightarrow> \<exists>s1 checks. readiness_run C s1 = (Inr (True, checks), s')
      | Inl e \<Rightarrow> \<exists>fs. e = TransientDependencyError
            (''dependencies unavailable after startup retries: '' @ py_join '', '' fs) None \<and>
            (if 0 < n then \<exists>s1 checks. readiness_run C s1 = (Inr (False, checks), s') \<and> fs = failures_of checks
             else fs = [] \<and> s' = s)) s"
  by (rule wait_for_dependencies_spec)

end
