(* ===== verification/Api.thy ===== *)
theory Api
  imports Service Readiness
begin

text \<open>
  The HTTP side of the API: \<open>api/chaos.py\<close>, \<open>api/routes/\<close>, the exception handlers and the router
  set-up of \<open>api/main.py\<close>, and \<open>api/middleware.py\<close>. What Starlette and FastAPI do before a handler
  runs (routing, parsing, validation) arrives as a value of \<open>route\<close>; the order handlers,
  dependencies and middleware run in is the framework's documented one.
\<close>

section \<open>ChaosController\<close>

definition chaos_apply :: "chaos_request \<Rightarrow> chaos_state \<Rightarrow> chaos_state" where
  "chaos_apply request ch =
     \<lparr>fail_readiness = opt_get (fail_readiness ch) (cr_fail_readiness request),
      latency_ms = opt_get (latency_ms ch) (cr_latency_ms request),
      error_rate = opt_get (error_rate ch) (cr_error_rate request)\<rparr>"

definition chaos_reset :: "chaos_state \<Rightarrow> chaos_state" where
  "chaos_reset ch = ChaosState"

definition latency_seconds :: "chaos_state \<Rightarrow> rat" where
  "latency_seconds ch = of_int (latency_ms ch) / 1000"

definition should_fail_request :: "'w env \<Rightarrow> chaos_state \<Rightarrow> ('w, bool) prog" where
  "should_fail_request env ch =
     (if error_rate ch \<le> 0 then return False
      else if 1 \<le> error_rate ch then return True
      else bind (ask (random01 env)) (\<lambda>u. return (u < error_rate ch)))"

definition apply_chaos :: "'w env \<Rightarrow> chaos_state \<Rightarrow> ('w, unit) prog" where
  "apply_chaos env ch =
     bind (if 0 < latency_seconds ch then sleep (latency_seconds ch) else return ()) (\<lambda>_.
     bind (should_fail_request env ch) (\<lambda>fail.
       if fail then raise (ChaosInjectedError ''injected failure'') else return ()))"

definition chaos_dump :: "chaos_state \<Rightarrow> pyval" where
  "chaos_dump ch = PDict [(''fail_readiness'', PBool (fail_readiness ch)), (''latency_ms'', PInt (latency_ms ch)),
     (''error_rate'', PFloat (error_rate ch))]"

section \<open>Reading an upload\<close>

definition CHUNK_BYTES :: nat where "CHUNK_BYTES = 2 ^ 20"
definition MULTIPART_OVERHEAD_BYTES :: int where "MULTIPART_OVERHEAD_BYTES = 8192"

text \<open>What successive calls of \<open>upload.read(n)\<close> return, up to the empty one at the end.\<close>

function upload_reads :: "nat \<Rightarrow> bytes \<Rightarrow> bytes list" where
  "upload_reads n data = (if data = [] \<or> n = 0 then [[]] else take n data # upload_reads n (drop n data))"
  by pat_completeness auto
termination by (relation "measure (\<lambda>(n, data). length data)") auto

declare upload_reads.simps [simp del]

definition too_large :: "int \<Rightarrow> exn" where
  "too_large max_bytes =
     UploadRejectedError (''file exceeds the '' @ show_int max_bytes @ '' byte limit'') 413 ''payload_too_large''
       REJECTED_TOO_LARGE"

fun read_limited :: "int \<Rightarrow> bytes list \<Rightarrow> bytes list \<Rightarrow> int \<Rightarrow> exn + bytes" where
  "read_limited max_bytes [] chunks got = Inr (concat chunks)"
| "read_limited max_bytes (chunk # reads) chunks got =
     (if chunk = [] then Inr (concat chunks)
      else if got + int (length chunk) > max_bytes then Inl (too_large max_bytes)
      else read_limited max_bytes reads (chunks @ [chunk]) (got + int (length chunk)))"

text \<open>
  The early check of \<open>Content-Length\<close>: \<open>isdigit\<close> holds of characters that \<open>int\<close> does not accept, and
  \<open>int\<close> refuses more than 4300 digits; its \<open>ValueError\<close> is then not caught.
\<close>

definition check_declared_length :: "config \<Rightarrow> string option \<Rightarrow> exn + unit" where
  "check_declared_length cfg declared =
     (case declared of
        None \<Rightarrow> Inr ()
      | Some d \<Rightarrow>
          if d \<noteq> [] \<and> (\<forall>c \<in> set d. is_digit_char c)
          then (case py_int d of
                  None \<Rightarrow> Inl (ValueError (''invalid literal for int() with base 10: '' @ py_repr d))
                | Some n \<Rightarrow> if n > max_upload_bytes cfg + MULTIPART_OVERHEAD_BYTES
                           then Inl (too_large (max_upload_bytes cfg)) else Inr ())
          else Inr ())"

section \<open>Routes\<close>

record response =
  rs_status :: int
  rs_body :: pyval

definition respond :: "int \<Rightarrow> pyval dict \<Rightarrow> response" where
  "respond status body = \<lparr>rs_status = status, rs_body = PDict body\<rparr>"

fun is_rejection :: "exn \<Rightarrow> bool" where
  "is_rejection (UploadRejectedError d st c m) = True"
| "is_rejection e = False"

definition count_upload :: "string \<Rightarrow> ('w, unit) prog" where
  "count_upload result = modify (\<lambda>s. s\<lparr>uploads_total := inc result (uploads_total s)\<rparr>)"

definition route_create_job ::
  "'w env \<Rightarrow> config \<Rightarrow> 'w clients \<Rightarrow> string option \<Rightarrow> bytes \<Rightarrow> string option \<Rightarrow> string option \<Rightarrow> ('w, response) prog" where
  "route_create_job env cfg C declared payload filename content_type =
     bind (of_sum (check_declared_length cfg declared)) (\<lambda>_.
     bind (attempt
       (bind (of_sum (read_limited (max_upload_bytes cfg) (upload_reads CHUNK_BYTES payload) [] 0)) (\<lambda>data.
          create_job env cfg C data filename content_type))) (\<lambda>r. case r of
         Inr rc \<Rightarrow> return (respond 202 [(''job_id'', PStr (jr_job_id rc)), (''status'', PStr (status_value (jr_status rc)))])
       | Inl e \<Rightarrow>
           if is_rejection e then raise e
           else bind (count_upload UPLOAD_ERROR) (\<lambda>_. raise e)))"

definition route_get_job :: "'w clients \<Rightarrow> string \<Rightarrow> ('w, response) prog" where
  "route_get_job C job_id =
     bind (service_get_job C job_id) (\<lambda>found. return (case found of
         None \<Rightarrow> respond 404 [(''detail'', PStr (''no job with id '' @ job_id)), (''code'', PStr ''job_not_found'')]
       | Some rc \<Rightarrow> respond 200 (public_view rc)))"

definition healthz :: "('w, response) prog" where
  "healthz = return (respond 200 [(''status'', PStr ''ok''), (''service'', PStr ''api'')])"

definition readiness_body :: "string \<Rightarrow> string dict \<Rightarrow> pyval dict" where
  "readiness_body status checks =
     [(''status'', PStr status), (''checks'', PDict (map (\<lambda>(k, v). (k, PStr v)) checks))]"

definition readyz :: "'w clients \<Rightarrow> chaos_state \<Rightarrow> ('w, response) prog" where
  "readyz C ch =
     (if fail_readiness ch
      then return (respond 503 (readiness_body ''not_ready'' [(''chaos'', ''readiness failure forced'')]))
      else bind (readiness_run C) (\<lambda>(ready, checks).
        return (respond (if ready then 200 else 503)
                  (readiness_body (if ready then ''ready'' else ''not_ready'') checks))))"

section \<open>Exception handlers\<close>

text \<open>A pydantic error: its location (strings or indices, already as text) and its message.\<close>

record validation_item =
  vi_loc :: "string list"
  vi_msg :: "string option"

definition first_validation_message :: "validation_item list \<Rightarrow> string" where
  "first_validation_message errors =
     (case errors of
        [] \<Rightarrow> ''request validation failed''
      | first # _ \<Rightarrow>
          let location = py_join ''.'' (filter (\<lambda>part. part \<noteq> ''body'') (vi_loc first));
              message = opt_get ''invalid value'' (vi_msg first)
          in if location \<noteq> [] then location @ '': '' @ message else message)"

definition error_body :: "string \<Rightarrow> string \<Rightarrow> pyval dict" where
  "error_body detail code_name = [(''detail'', PStr detail), (''code'', PStr code_name)]"

text \<open>An exception without a handler passes on to the middleware and the server.\<close>

fun handle_exception :: "exn \<Rightarrow> ('w, response) prog" where
  "handle_exception (UploadRejectedError detail status code_name metric) =
     bind (count_upload metric) (\<lambda>_. return (respond status (error_body detail code_name)))"
| "handle_exception (EnqueueFailedError m) =
     return (respond 503 (error_body ''job could not be queued for processing; retry'' ''enqueue_failed''))"
| "handle_exception (TransientDependencyError m op) =
     return (respond 503 (error_body ''a required dependency is unavailable; retry'' ''dependency_unavailable''))"
| "handle_exception (ChaosInjectedError m) =
     return (respond 500 (error_body ''chaos: injected failure'' ''chaos_injected_error''))"
| "handle_exception e = raise e"

definition with_handlers :: "('w, response) prog \<Rightarrow> ('w, response) prog" where
  "with_handlers m = bind (attempt m) (\<lambda>r. case r of Inr resp \<Rightarrow> return resp | Inl e \<Rightarrow> handle_exception e)"

section \<open>The application\<close>

text \<open>The result of routing and parsing one request; \<open>InvalidRequest\<close> is a request
  that matched the route with this path template and failed validation.\<close>

datatype route =
    CreateJob "string option" bytes "string option" "string option"
  | GetJob string
  | InvalidRequest string "validation_item list"
  | Healthz
  | Readyz
  | Metrics
  | SetChaos chaos_request
  | NoRoute

record http_request =
  rq_method :: string
  rq_route :: route

text \<open>The admin router is mounted only if the flag is set; otherwise its path matches no route.\<close>

definition mounted :: "config \<Rightarrow> route \<Rightarrow> route" where
  "mounted cfg rt = (case rt of
       SetChaos body \<Rightarrow> if enable_chaos_endpoint cfg then rt else NoRoute
     | InvalidRequest path errors \<Rightarrow> if path = ''/admin/chaos'' \<and> \<not> enable_chaos_endpoint cfg then NoRoute else rt
     | _ \<Rightarrow> rt)"

definition resolve_endpoint :: "route \<Rightarrow> string" where
  "resolve_endpoint rt = (case rt of
       CreateJob d p f t \<Rightarrow> ''/api/v1/jobs''
     | GetJob j \<Rightarrow> ''/api/v1/jobs/{job_id}''
     | InvalidRequest path errs \<Rightarrow> path
     | Healthz \<Rightarrow> ''/healthz''
     | Readyz \<Rightarrow> ''/readyz''
     | Metrics \<Rightarrow> ''/metrics''
     | SetChaos b \<Rightarrow> ''/admin/chaos''
     | NoRoute \<Rightarrow> ''unmatched'')"

text \<open>\<open>generate_latest\<close> is the library's; the route hands its bytes on.\<close>

definition run_route ::
  "'w env \<Rightarrow> config \<Rightarrow> 'w clients \<Rightarrow> (unit \<Rightarrow> pyval) \<Rightarrow> chaos_state \<Rightarrow> route \<Rightarrow> ('w, response) prog" where
  "run_route env cfg C metrics_page ch rt = (case rt of
       CreateJob declared payload filename content_type \<Rightarrow>
         bind (apply_chaos env ch) (\<lambda>_. route_create_job env cfg C declared payload filename content_type)
     | GetJob job_id \<Rightarrow> bind (apply_chaos env ch) (\<lambda>_. route_get_job C job_id)
     | InvalidRequest path errors \<Rightarrow>
         bind (if py_startswith path ''/api/v1/'' then apply_chaos env ch else return ()) (\<lambda>_.
           return (respond 422 (error_body (first_validation_message errors) ''validation_error'')))
     | Healthz \<Rightarrow> healthz
     | Readyz \<Rightarrow> readyz C ch
     | Metrics \<Rightarrow> return \<lparr>rs_status = 200, rs_body = metrics_page ()\<rparr>
     | SetChaos body \<Rightarrow> return \<lparr>rs_status = 200, rs_body = chaos_dump (chaos_apply body ch)\<rparr>
     | NoRoute \<Rightarrow> return (respond 404 [(''detail'', PStr ''Not Found'')]))"

definition chaos_after :: "config \<Rightarrow> chaos_state \<Rightarrow> route \<Rightarrow> chaos_state" where
  "chaos_after cfg ch rt = (case mounted cfg rt of SetChaos body \<Rightarrow> chaos_apply body ch | _ \<Rightarrow> ch)"

text \<open>\<open>ObservabilityMiddleware.dispatch\<close>.\<close>

definition record_http :: "string \<Rightarrow> string \<Rightarrow> int \<Rightarrow> rat \<Rightarrow> ('w, unit) prog" where
  "record_http http_method endpoint status_code elapsed = modify (\<lambda>s. s\<lparr>
     http_durations := http_durations s @ [(endpoint, elapsed)],
     http_requests_total := inc (http_method, endpoint, show_int status_code) (http_requests_total s)\<rparr>)"

definition dispatch :: "'w env \<Rightarrow> string \<Rightarrow> string \<Rightarrow> ('w, response) prog \<Rightarrow> ('w, response) prog" where
  "dispatch env http_method endpoint call_next =
     bind (ask (clock env)) (\<lambda>started.
     bind (attempt call_next) (\<lambda>r.
       let status_code = (case r of Inr resp \<Rightarrow> rs_status resp | Inl e \<Rightarrow> 500) in
     bind (ask (clock env)) (\<lambda>ended.
     bind (record_http http_method endpoint status_code (ended - started)) (\<lambda>_.
     bind (ask (span_ids env)) (\<lambda>ids. of_sum r)))))"

definition serve ::
  "'w env \<Rightarrow> config \<Rightarrow> 'w clients \<Rightarrow> (unit \<Rightarrow> pyval) \<Rightarrow> chaos_state \<Rightarrow> http_request \<Rightarrow> ('w, response) prog" where
  "serve env cfg C metrics_page ch rq =
     (let rt = mounted cfg (rq_route rq) in
      dispatch env (rq_method rq) (resolve_endpoint rt) (with_handlers (run_route env cfg C metrics_page ch rt)))"

section \<open>The upload is read chunk by chunk\<close>

lemma read_limited_acc:
  "n \<noteq> 0 \<Longrightarrow> got = int (length (concat chunks)) \<Longrightarrow> got \<le> max_bytes \<Longrightarrow>
   read_limited max_bytes (upload_reads n payload) chunks got =
     (if got + int (length payload) \<le> max_bytes then Inr (concat chunks @ payload) else Inl (too_large max_bytes))"
proof (induction n payload arbitrary: chunks got rule: upload_reads.induct)
  case (1 n payload)
  show ?case
  proof (cases "payload = []")
    case True
    with 1 show ?thesis by (simp add: upload_reads.simps [of n "[]"])
  next
    case False
    have reads: "upload_reads n payload = take n payload # upload_reads n (drop n payload)"
      using 1(2) False by (subst upload_reads.simps) simp
    have len: "int (length payload) = int (length (take n payload)) + int (length (drop n payload))"
      by simp
    show ?thesis
    proof (cases "got + int (length (take n payload)) > max_bytes")
      case True
      with False 1(2) show ?thesis unfolding reads by simp
    next
      case less: False
      have "read_limited max_bytes (upload_reads n (drop n payload)) (chunks @ [take n payload])
          (got + int (length (take n payload))) =
        (if got + int (length (take n payload)) + int (length (drop n payload)) \<le> max_bytes
         then Inr (concat (chunks @ [take n payload]) @ drop n payload) else Inl (too_large max_bytes))"
        by (rule 1(1)) (use False 1 less in simp_all)
      moreover have "concat (chunks @ [take n payload]) @ drop n payload = concat chunks @ payload"
        by simp
      ultimately show ?thesis
        using False 1(2) less len unfolding reads by (simp del: length_take length_drop)
    qed
  qed
qed

section \<open>What the routes leave alone\<close>

lemma keeps_create_job:
  assumes f: "book_view f" "\<And>s u n. f (s\<lparr>uploads_total := u, upload_sizes := n\<rparr>) = f s"
  shows "keeps f (create_job env cfg (build_clients env cfg) payload filename content_type)"
  unfolding create_job_def count_accepted_def
  by (intro keeps_intros keeps_talks [OF f(1) talks_prepare_job] keeps_talks [OF f(1) aws.talks_store_and_enqueue] f)

lemma keeps_route_create_job:
  assumes f: "book_view f" "\<And>s u n. f (s\<lparr>uploads_total := u, upload_sizes := n\<rparr>) = f s" "\<And>s u. f (s\<lparr>uploads_total := u\<rparr>) = f s"
  shows "keeps f (route_create_job env cfg (build_clients env cfg) declared payload filename content_type)"
  unfolding route_create_job_def count_upload_def
  by (intro keeps_bind keeps_attempt keeps_basic keeps_create_job f)
    (auto intro!: keeps_intros f split: sum.split)

lemma keeps_apply_chaos:
  assumes "book_view f"
  shows "keeps f (apply_chaos env ch)"
proof -
  have "keeps f (sleep d)" for d
    by (simp add: sleep_def keeps_modify book_view_simps [OF assms])
  then show ?thesis
    unfolding apply_chaos_def should_fail_request_def by (intro keeps_intros assms)
qed

lemma keeps_readiness: "book_view f \<Longrightarrow> keeps f (readiness_run (build_clients env cfg))"
  unfolding readiness_run_def run_probes.simps
  by (intro keeps_bind keeps_attempt keeps_talks [OF _ aws.store_probe] keeps_talks [OF _ aws.queue_probe]
      keeps_talks [OF _ aws.table_probe])
    (auto intro!: keeps_bind keeps_attempt keeps_basic keeps_talks [OF _ aws.queue_probe] keeps_talks [OF _ aws.table_probe]
      split: sum.split)

lemma keeps_service_get_job: "book_view f \<Longrightarrow> keeps f (service_get_job (build_clients env cfg) job_id)"
  by (simp add: service_get_job_def keeps_basic keeps_talks [OF _ aws.get_job])

lemma keeps_run_route:
  assumes f: "book_view f" "\<And>s u n. f (s\<lparr>uploads_total := u, upload_sizes := n\<rparr>) = f s" "\<And>s u. f (s\<lparr>uploads_total := u\<rparr>) = f s"
  shows "keeps f (with_handlers (run_route env cfg (build_clients env cfg) page ch rt))"
proof -
  have handler: "keeps f (handle_exception e)" for e
    by (cases e) (auto simp: count_upload_def intro!: keeps_intros f)
  have route: "keeps f (run_route env cfg (build_clients env cfg) page ch rt)"
    by (cases rt)
      (auto simp: run_route_def healthz_def readyz_def route_get_job_def
        intro!: keeps_bind keeps_basic keeps_apply_chaos keeps_route_create_job keeps_readiness keeps_service_get_job f)
  show ?thesis
    unfolding with_handlers_def
    by (intro keeps_bind keeps_attempt route) (auto intro: handler keeps_basic split: sum.split)
qed

section \<open>Properties of the HTTP interface\<close>

lemma read_limited_whole:
  "read_limited max_bytes (upload_reads CHUNK_BYTES payload) [] 0 =
     (if payload = [] \<or> int (length payload) \<le> max_bytes then Inr payload else Inl (too_large max_bytes))"
proof (cases "0 \<le> max_bytes")
  case True
  have "read_limited max_bytes (upload_reads CHUNK_BYTES payload) [] 0 =
      (if 0 + int (length payload) \<le> max_bytes then Inr (concat [] @ payload) else Inl (too_large max_bytes))"
    by (rule read_limited_acc) (use True in \<open>simp_all add: CHUNK_BYTES_def\<close>)
  with True show ?thesis by (cases "payload = []") auto
next
  case False
  then show ?thesis
    by (subst upload_reads.simps) (auto simp: CHUNK_BYTES_def upload_reads.simps [of _ "[]"])
qed

text \<open>
  C33: Reading an upload in chunks of one megabyte with the running limit is the same as reading it
  whole and comparing its length with the limit: nothing is lost, reordered or accepted above it.
\<close>

theorem chunked_read_is_bounded_read:
  "read_limited max_bytes (upload_reads CHUNK_BYTES payload) [] 0 =
     (if payload = [] \<or> int (length payload) \<le> max_bytes then Inr payload else Inl (too_large max_bytes))"
  by (rule read_limited_whole)

text \<open>
  The label a response of the upload route stands for. \<open>foreign_rejection\<close>: AWS or Pillow themselves raised the
  API's own \<open>UploadRejectedError\<close>, which no library does.
\<close>

definition status_label :: "int \<Rightarrow> string" where
  "status_label status =
     (if status = 202 then ACCEPTED else if status = 413 then REJECTED_TOO_LARGE
      else if status = 415 then REJECTED_CONTENT_TYPE else if status = 400 then REJECTED_INVALID_IMAGE else UPLOAD_ERROR)"

definition foreign_rejection :: "'w env \<Rightarrow> bytes \<Rightarrow> event list \<Rightarrow> bool" where
  "foreign_rejection env payload tr \<longleftrightarrow>
     (case probe_image (pil env) (lib_str env) payload of Inl e \<Rightarrow> is_rejection e | Inr _ \<Rightarrow> False) \<or>
     list_ex (\<lambda>ev. case snd ev of Raised e \<Rightarrow> is_rejection e | Returned v \<Rightarrow> False) tr"

definition fair_rejection :: "exn \<Rightarrow> bool" where
  "fair_rejection e \<longleftrightarrow> (case e of UploadRejectedError d st c metric \<Rightarrow> metric = status_label st \<and> st \<noteq> 202 | _ \<Rightarrow> True)"

lemma upload_trace_foreign:
  assumes "upload_trace env cfg bucket url tbl data rc tr (Inl e)" "is_rejection e"
  shows "foreign_rejection env payload tr"
proof -
  have blamed: "foreign_rejection env payload (a @ t @ b)" if "call_trace q no_answer t (Inl e :: exn + unit)" for a t b q
  proof -
    from that assms(2) obtain ev where "ev \<in> set t" "snd ev = Raised e"
      by (cases e) (auto simp: call_trace_def blames_def list_ex_iff)
    with assms(2) show ?thesis unfolding foreign_rejection_def list_ex_iff by (intro disjI2 bexI [of _ ev]) auto
  qed
  from assms(1) show ?thesis
    unfolding upload_trace_def
  proof (cases rule: seq_traceE)
    case (left e')
    with blamed [of _ tr "[]" "[]"] show ?thesis by simp
  next
    case (right t1 x t23)
    from right(3) show ?thesis
    proof (cases rule: seq_traceE)
      case (left e')
      with right(1) blamed [of _ t23 t1 "[]"] show ?thesis by simp
    next
      case (right t2 y t3)
      then show ?thesis using assms(2) by (auto elim!: enqueue_traceE)
    qed
  qed
qed

lemma upload_refusal_fair:
  "upload_refusal env cfg payload content_type = Some e \<Longrightarrow> foreign_rejection env payload tr \<or> fair_rejection e"
  by (auto simp: upload_refusal_def validate_upload_def probe_upload_def foreign_rejection_def fair_rejection_def status_label_def
      split: sum.splits if_splits exn.splits)

lemma too_large_fair: "fair_rejection (too_large n)"
  by (simp add: fair_rejection_def too_large_def status_label_def)

text \<open>What is known when the body of the route has run.\<close>

definition body_outcome :: "'w env \<Rightarrow> bytes \<Rightarrow> 'w st \<Rightarrow> exn + job_record \<Rightarrow> 'w st \<Rightarrow> bool" where
  "body_outcome env payload s r s' \<longleftrightarrow>
     (\<exists>tr. wire s' = wire s @ tr \<and>
        (case r of
           Inl e \<Rightarrow> uploads_total s' = uploads_total s \<and> upload_sizes s' = upload_sizes s \<and>
             (foreign_rejection env payload tr \<or> fair_rejection e)
         | Inr rc \<Rightarrow> uploads_total s' = inc ACCEPTED (uploads_total s)))"

lemma upload_body_outcome:
  "wp (bind (of_sum (read_limited (max_upload_bytes cfg) (upload_reads CHUNK_BYTES payload) [] 0))
        (\<lambda>data. create_job env cfg (build_clients env cfg) data filename content_type)) (body_outcome env payload s) s"
proof (cases "read_limited (max_upload_bytes cfg) (upload_reads CHUNK_BYTES payload) [] 0")
  case (Inl e)
  then have "e = too_large (max_upload_bytes cfg)" by (simp add: read_limited_whole split: if_splits)
  with Inl show ?thesis by (simp add: wp_simps body_outcome_def too_large_fair)
next
  case (Inr data)
  then have "data = payload" by (simp add: read_limited_whole split: if_splits)
  have "wp (create_job env cfg (build_clients env cfg) payload filename content_type) (body_outcome env payload s) s"
  proof (rule wp_mono [OF aws.create_job_outcome], erule upload_outcome_cases)
    fix r :: "exn + job_record" and s' :: "'a st" and e
    assume "upload_refusal env cfg payload content_type = Some e" "r = Inl e" "wire s' = wire s" "same_books s s'"
    then show "body_outcome env payload s r s'"
      using upload_refusal_fair [of env cfg payload content_type e "[]"] by (auto simp: body_outcome_def same_books_def)
  next
    fix r :: "exn + job_record" and s' :: "'a st" and e rc tr
    assume a: "wire s' = wire s @ tr" "upload_trace env cfg (s3_bucket cfg) (sqs_queue_url cfg) (dynamodb_table cfg) payload rc tr (Inl e)"
      "r = Inl e" "same_books s s'"
    have "foreign_rejection env payload tr \<or> fair_rejection e"
      using upload_trace_foreign [OF a(2), of payload] by (cases e) (auto simp: fair_rejection_def)
    with a show "body_outcome env payload s r s'"
      by (auto simp: body_outcome_def same_books_def)
  qed (auto simp: body_outcome_def accepted_books_def same_books_def)
  with Inr \<open>data = payload\<close> show ?thesis by (simp add: wp_simps)
qed

text \<open>
  C25: Every upload attempt lands in the right bucket of \<open>uploads_total\<close>, once: whatever AWS and Pillow answer, the
  route and the exception handlers together add one to exactly one label, and the label is the one of the answer:
  \<open>accepted\<close> for 202 and only then, the rejection's own label for 413, 415 and 400, \<open>error\<close> for every other status
  and for an exception that leaves the handlers. (Only if a library raised the API's own \<open>UploadRejectedError\<close> could the
  label of a rejection be another.) A size is observed only with \<open>accepted\<close>. The exemption is a
  \<open>Content-Length\<close> that \<open>int\<close> refuses, which is counted nowhere.
\<close>

theorem upload_counted_once:
  "wp (with_handlers (route_create_job env cfg (build_clients env cfg) declared payload filename content_type))
     (\<lambda>r s'. if \<exists>m. check_declared_length cfg declared = Inl (ValueError m) then uploads_total s' = uploads_total s
       else \<exists>tr. wire s' = wire s @ tr \<and> (\<exists>label. uploads_total s' = inc label (uploads_total s) \<and>
         (case r of Inl e \<Rightarrow> label = UPLOAD_ERROR
          | Inr resp \<Rightarrow> (upload_sizes s' = upload_sizes s \<or> label = ACCEPTED) \<and>
              (if foreign_rejection env payload tr then True else label = status_label (rs_status resp))))) s"
proof -
  let ?Q = "\<lambda>r s'. \<exists>tr. wire s' = wire s @ tr \<and> (\<exists>label. uploads_total s' = inc label (uploads_total s) \<and>
         (case r of Inl e \<Rightarrow> label = UPLOAD_ERROR
          | Inr resp \<Rightarrow> (upload_sizes s' = upload_sizes s \<or> label = ACCEPTED) \<and>
              (if foreign_rejection env payload tr then True else label = status_label (rs_status resp))))"
  have caught: "wp (if is_rejection e then raise e else bind (count_upload UPLOAD_ERROR) (\<lambda>_. raise e))
      (\<lambda>r s'. wp (case r of Inr resp \<Rightarrow> return resp | Inl e \<Rightarrow> handle_exception e) ?Q s') t"
    if "body_outcome env payload s (Inl e) t" for e and t :: "'a st"
    using that by (cases e) (auto simp: wp_simps count_upload_def body_outcome_def fair_rejection_def status_label_def respond_def)
  have declared: "check_declared_length cfg declared = Inl e \<Longrightarrow> (\<exists>m. e = ValueError m) \<or> e = too_large (max_upload_bytes cfg)" for e
    by (auto simp: check_declared_length_def split: option.splits if_splits)
  show ?thesis
  proof (cases "check_declared_length cfg declared")
    case (Inl e)
    with declared [OF Inl] show ?thesis
      by (auto simp: with_handlers_def route_create_job_def wp_simps too_large_def count_upload_def status_label_def respond_def)
  next
    case (Inr u)
    have "wp (with_handlers (route_create_job env cfg (build_clients env cfg) declared payload filename content_type)) ?Q s"
      unfolding with_handlers_def route_create_job_def Inr
    proof (rule wp_bind_attempt, unfold wp_bind_of_sum, rule wp_bind_attempt, rule wp_mono [OF upload_body_outcome])
      fix r :: "exn + job_record" and t :: "'a st"
      assume t: "body_outcome env payload s r t"
      show "wp (case r of
           Inr rc \<Rightarrow> return (respond 202 [(''job_id'', PStr (jr_job_id rc)), (''status'', PStr (status_value (jr_status rc)))])
         | Inl e \<Rightarrow> if is_rejection e then raise e else bind (count_upload UPLOAD_ERROR) (\<lambda>_. raise e))
        (\<lambda>r s'. wp (case r of Inr resp \<Rightarrow> return resp | Inl e \<Rightarrow> handle_exception e) ?Q s') t"
      proof (cases r)
        case (Inl e)
        from caught [OF t [unfolded Inl]] show ?thesis unfolding Inl sum.case .
      next
        case (Inr rc)
        with t show ?thesis by (auto simp: wp_return body_outcome_def respond_def status_label_def)
      qed
    qed
    then show ?thesis by (simp add: Inr)
  qed
qed

text \<open>
  A \<open>Content-Length\<close> consisting of a superscript digit passes \<open>isdigit\<close> and makes \<open>int\<close> raise:
  the request ends in an unhandled \<open>ValueError\<close>, before the \<open>try\<close> that counts failures, and nothing
  at all is recorded for it.
\<close>

theorem superscript_length_is_unhandled:
  "\<exists>m. with_handlers (route_create_job env cfg C (Some [CHR 0xB2]) payload filename content_type) s = (Inl (ValueError m), s)"
  by (simp add: with_handlers_def route_create_job_def check_declared_length_def is_digit_char_def is_dec_def py_ord_def
      py_int_def is_int_space_def Let_def run_simps)

lemma request_counted:
  "wp (serve env cfg (build_clients env cfg) page ch rq)
     (\<lambda>r s'. http_requests_total s' =
          inc (rq_method rq, resolve_endpoint (mounted cfg (rq_route rq)),
               show_int (case r of Inr resp \<Rightarrow> rs_status resp | Inl e \<Rightarrow> 500)) (http_requests_total s) \<and>
        (\<exists>elapsed. http_durations s' = http_durations s @ [(resolve_endpoint (mounted cfg (rq_route rq)), elapsed)])) s"
proof -
  let ?f = "\<lambda>s :: 'a st. (http_requests_total s, http_durations s)"
  have view: "book_view ?f" by (simp add: book_view_def same_books_def)
  have route: "keeps ?f (with_handlers (run_route env cfg (build_clients env cfg) page ch rt))" for rt
    by (rule keeps_run_route [OF view]) simp_all
  note ask = tallies_ask [OF view]
  show ?thesis
    unfolding serve_def dispatch_def Let_def wp_bind
    by (rule wp_tallies [OF ask], elim conjE exE, simp only: sum.case wp_attempt, rule wp_tallies [OF route], simp only: sum.case,
        rule wp_tallies [OF ask], elim conjE exE, simp only: sum.case record_http_def wp_modify,
        rule wp_tallies [OF ask]) (auto simp: wp_of_sum)
qed

text \<open>
  The middleware records every request exactly once, under its route template and the status the
  client gets (500 if an exception passes through), and observes its duration exactly once.
\<close>

theorem request_counted_once:
  "wp (serve env cfg (build_clients env cfg) page ch rq)
     (\<lambda>r s'. http_requests_total s' =
          inc (rq_method rq, resolve_endpoint (mounted cfg (rq_route rq)),
               show_int (case r of Inr resp \<Rightarrow> rs_status resp | Inl e \<Rightarrow> 500)) (http_requests_total s) \<and>
        (\<exists>elapsed. http_durations s' = http_durations s @ [(resolve_endpoint (mounted cfg (rq_route rq)), elapsed)])) s"
  by (rule request_counted)

text \<open>What the settings may become over any sequence of requests to one replica.\<close>

definition chaos_ok :: "chaos_state \<Rightarrow> bool" where
  "chaos_ok ch \<longleftrightarrow> 0 \<le> latency_ms ch \<and> latency_ms ch \<le> 60000 \<and> 0 \<le> error_rate ch \<and> error_rate ch \<le> 1"

fun parsed_route :: "route \<Rightarrow> bool" where
  "parsed_route (SetChaos body) = chaos_request_ok body"
| "parsed_route rt = True"

definition chaos_history :: "config \<Rightarrow> route list \<Rightarrow> chaos_state" where
  "chaos_history cfg rts = foldl (chaos_after cfg) ChaosState rts"

lemma chaos_apply_ok: "chaos_request_ok body \<Longrightarrow> chaos_ok ch \<Longrightarrow> chaos_ok (chaos_apply body ch)"
  by (auto simp: chaos_ok_def chaos_apply_def chaos_request_ok_def opt_get_def split: option.splits)

lemma chaos_after_ok: "parsed_route rt \<Longrightarrow> chaos_ok ch \<Longrightarrow> chaos_ok (chaos_after cfg ch rt)"
  by (cases rt) (auto simp: chaos_after_def mounted_def chaos_apply_ok)

lemma chaos_after_disabled: "\<not> enable_chaos_endpoint cfg \<Longrightarrow> chaos_after cfg ch rt = ch"
  by (cases rt) (auto simp: chaos_after_def mounted_def)

lemma apply_chaos_inert: "apply_chaos env ChaosState s = (Inr (), s)"
  by (simp add: apply_chaos_def should_fail_request_def latency_seconds_def ChaosState_def run_simps)

text \<open>
  However many chaos requests a replica has served, its latency stays within 0 and 60 seconds and
  its error rate within 0 and 1.
\<close>

theorem chaos_stays_in_range:
  assumes "list_all parsed_route rts"
  shows "chaos_ok (chaos_history cfg rts)"
  unfolding chaos_history_def
  using assms by (induction rts rule: rev_induct) (auto simp: chaos_after_ok, simp add: chaos_ok_def ChaosState_def)

theorem chaos_stays_in_range_witness:
  "chaos_ok (chaos_history (sample_config\<lparr>enable_chaos_endpoint := True\<rparr>)
     [SetChaos \<lparr>cr_fail_readiness = None, cr_latency_ms = Some 60000, cr_error_rate = Some 1\<rparr>, Healthz])"
  by (rule chaos_stays_in_range) (simp add: chaos_request_ok_def)

text \<open>
  With the endpoint disabled there is no way to trip it: after any sequence of requests the chaos
  dependency of the job API does nothing and readiness is not forced.
\<close>

theorem chaos_disabled_is_inert:
  assumes "\<not> enable_chaos_endpoint cfg"
  shows "apply_chaos env (chaos_history cfg rts) s = (Inr (), s) \<and> \<not> fail_readiness (chaos_history cfg rts)"
proof -
  have "chaos_history cfg rts = ChaosState"
    unfolding chaos_history_def by (induction rts rule: rev_induct) (simp_all add: chaos_after_disabled assms)
  then show ?thesis by (simp add: apply_chaos_inert) (simp add: ChaosState_def)
qed

theorem chaos_disabled_is_inert_witness:
  "apply_chaos calm (chaos_history sample_config
      [SetChaos \<lparr>cr_fail_readiness = Some True, cr_latency_ms = None, cr_error_rate = Some 1\<rparr>]) blank = (Inr (), blank)"
  using chaos_disabled_is_inert [of sample_config calm
      "[SetChaos \<lparr>cr_fail_readiness = Some True, cr_latency_ms = None, cr_error_rate = Some 1\<rparr>]" blank]
  by (simp add: sample_config_def)

text \<open>
  Liveness, readiness and metrics stay honest under chaos: injected latency and errors do not
  change what \<open>/healthz\<close>, \<open>/readyz\<close> and \<open>/metrics\<close> do, and readiness never raises: it answers 503 at
  once when forced, otherwise 200 exactly when all three probes said \<open>ok\<close>.
\<close>

theorem operations_routes_honest:
  "list_all (\<lambda>rt. run_route env cfg C page ch rt = run_route env cfg C page (ch\<lparr>latency_ms := l, error_rate := p\<rparr>) rt)
      [Healthz, Readyz, Metrics] \<and>
   wp (readyz C ch) (\<lambda>r s'. \<exists>ready checks. r = Inr (respond (if ready then 200 else 503)
         (readiness_body (if ready then ''ready'' else ''not_ready'') checks)) \<and>
      (if fail_readiness ch then \<not> ready \<and> s' = s else readiness_report ready checks)) s"
proof
  show "list_all (\<lambda>rt. run_route env cfg C page ch rt = run_route env cfg C page (ch\<lparr>latency_ms := l, error_rate := p\<rparr>) rt)
      [Healthz, Readyz, Metrics]"
    by (simp add: run_route_def readyz_def)
  have "wp (readiness_run C) (\<lambda>r s'. case r of Inl e \<Rightarrow> False
      | Inr x \<Rightarrow> \<exists>ready checks. x = (ready, checks) \<and> readiness_report ready checks) s"
    by (rule wp_mono [OF readiness_run_report]) auto
  then have run: "wp (readiness_run C) (\<lambda>r s'. case r of Inl e \<Rightarrow> Q (Inl e) s' | Inr x \<Rightarrow> wp (g x) Q s') s"
    if "\<And>ready checks s'. readiness_report ready checks \<Longrightarrow> wp (g (ready, checks)) Q s'" for g and Q :: "exn + response \<Rightarrow> _"
    by (rule wp_mono) (use that in \<open>auto split: sum.splits\<close>)
  show "wp (readyz C ch) (\<lambda>r s'. \<exists>ready checks. r = Inr (respond (if ready then 200 else 503)
         (readiness_body (if ready then ''ready'' else ''not_ready'') checks)) \<and>
      (if fail_readiness ch then \<not> ready \<and> s' = s else readiness_report ready checks)) s"
  proof (cases "fail_readiness ch")
    case True
    then show ?thesis
      unfolding readyz_def
      by (simp only: if_True wp_return simp_thms, intro exI [of _ False]) auto
  next
    case False
    show ?thesis
      unfolding readyz_def
      by (simp only: False if_False wp_bind, rule run, simp only: prod.case wp_return, intro exI conjI, rule refl, assumption)
  qed
qed

end
