(* ===== verification/Tracing.thy ===== *)
theory Tracing
  imports Sample Consumer Service
begin

text \<open>
  \<open>shared/tracing.py\<close>. The OpenTelemetry packages are a parameter, the record \<open>otel\<close>: whether they could
  be imported, what installing an exporter does, which headers the W3C propagator sets on a
  carrier, what it reads from one, and the current span. The services see tracing through two
  fields of their environment; \<open>traced\<close> fills these with the module's functions. The models of
  the services do not open spans: \<open>logs_within_span\<close> shows that a span adds nothing to what its body promises.
  The round trip is stated from the injection in the API to the extraction in the worker, through the attributes of
  \<open>SendMessage\<close> and those the request \<open>ReceiveMessage\<close> asks for.
\<close>

definition TRACEPARENT_HEADER :: string where "TRACEPARENT_HEADER = ''traceparent''"
definition TRACESTATE_HEADER :: string where "TRACESTATE_HEADER = ''tracestate''"

record span_context =
  sc_trace_id :: nat
  sc_span_id :: nat
  sc_is_valid :: bool

text \<open>
  \<open>otel_install service url\<close> is the construction of resource, provider and exporter and its
  installation; \<open>otel_sets\<close> lists the assignments \<open>inject\<close> makes on the carrier it is given;
  \<open>otel_enter\<close> and \<open>otel_exit\<close> are the two ends of a tracer's \<open>start_as_current_span\<close>, which hands out a span
  and does not swallow the exception of the body.
\<close>

record ('w, 'c) otel =
  otel_available :: bool
  otel_install :: "string \<Rightarrow> string \<Rightarrow> 'w \<Rightarrow> (exn + unit) \<times> 'w"
  otel_sets :: "'w \<Rightarrow> (string \<times> string) list \<times> 'w"
  otel_extract :: "string dict \<Rightarrow> exn + 'c"
  otel_current :: "'w \<Rightarrow> (exn + span_context option) \<times> 'w"
  otel_enter :: "string \<Rightarrow> string \<Rightarrow> 'c option \<Rightarrow> (string \<times> pyval) list \<Rightarrow> 'w \<Rightarrow> nat \<times> 'w"
  otel_exit :: "nat \<Rightarrow> exn option \<Rightarrow> 'w \<Rightarrow> unit \<times> 'w"
  otel_attribute :: "nat \<Rightarrow> string \<Rightarrow> pyval \<Rightarrow> 'w \<Rightarrow> unit \<times> 'w"

section \<open>The module's functions\<close>

text \<open>\<open>configure_tracing\<close> on the module's flag \<open>_CONFIGURED\<close>: the result, the flag, the world.\<close>

definition configure_tracing ::
  "('w, 'c) otel \<Rightarrow> string \<Rightarrow> string option \<Rightarrow> bool \<Rightarrow> 'w \<Rightarrow> bool \<times> bool \<times> 'w" where
  "configure_tracing T service_name endpoint configured w =
     (if opt_get [] endpoint = [] \<or> \<not> otel_available T then (False, configured, w)
      else if configured then (True, configured, w)
      else (case otel_install T service_name (py_rstrip_char (CHR ''/'') (opt_get [] endpoint) @ ''/v1/traces'') w of
              (Inr _, w') \<Rightarrow> (True, True, w')
            | (Inl _, w') \<Rightarrow> (False, configured, w')))"

definition carrier_of :: "(string \<times> string) list \<Rightarrow> string dict" where
  "carrier_of calls = foldl (\<lambda>carrier (key, value). dict_set key value carrier) [] calls"

definition propagated :: "('w, 'c) otel \<Rightarrow> 'w \<Rightarrow> string dict \<times> 'w" where
  "propagated T w =
     (if \<not> otel_available T then ([], w)
      else (case otel_sets T w of (calls, w') \<Rightarrow> (carrier_of calls, w')))"

definition inject_trace_context :: "('w, 'c) otel \<Rightarrow> ('w, string dict) prog" where
  "inject_trace_context T =
     bind (ask (propagated T)) (\<lambda>carrier. return (filter (\<lambda>(key, value). value \<noteq> []) carrier))"

definition extract_trace_context :: "('w, 'c) otel \<Rightarrow> string dict option \<Rightarrow> 'c option" where
  "extract_trace_context T carrier =
     (if \<not> otel_available T \<or> opt_get [] carrier = [] then None
      else if dict_get (opt_get [] carrier) TRACEPARENT_HEADER = None then None
      else (case otel_extract T (opt_get [] carrier) of Inl _ \<Rightarrow> None | Inr context \<Rightarrow> Some context))"

text \<open>\<open>format(n, "0<width>x")\<close> for a number that is not negative.\<close>

fun show_hex :: "nat \<Rightarrow> string" where
  "show_hex n = (if n < 16 then [hex_digit n] else show_hex (n div 16) @ [hex_digit (n mod 16)])"

declare show_hex.simps [simp del]

definition format_hex :: "nat \<Rightarrow> nat \<Rightarrow> string" where
  "format_hex width n = replicate (width - length (show_hex n)) (CHR ''0'') @ show_hex n"

definition current_span_ids :: "('w, 'c) otel \<Rightarrow> 'w \<Rightarrow> (string option \<times> string option) \<times> 'w" where
  "current_span_ids T w =
     (if \<not> otel_available T then ((None, None), w)
      else (case otel_current T w of
              (Inl _, w') \<Rightarrow> ((None, None), w')
            | (Inr None, w') \<Rightarrow> ((None, None), w')
            | (Inr (Some context), w') \<Rightarrow>
                (if \<not> sc_is_valid context then ((None, None), w')
                 else ((Some (format_hex 32 (sc_trace_id context)), Some (format_hex 16 (sc_span_id context))), w'))))"

text \<open>
  A span is the library's (with its handle) or \<open>_NoopSpan\<close>, a tracer the library's (with its name) or
  \<open>_NoopTracer\<close>.
\<close>

datatype tracer = LibraryTracer string | NoopTracer
datatype span = LibrarySpan nat | NoopSpan

definition get_tracer :: "('w, 'c) otel \<Rightarrow> string \<Rightarrow> tracer" where
  "get_tracer T name = (if \<not> otel_available T then NoopTracer else LibraryTracer name)"

text \<open>\<open>start_as_current_span\<close>, \<open>__exit__\<close> and \<open>set_attribute\<close> of both.\<close>

definition start_span ::
  "('w, 'c) otel \<Rightarrow> tracer \<Rightarrow> string \<Rightarrow> 'c option \<Rightarrow> (string \<times> pyval) list \<Rightarrow> ('w, span) prog" where
  "start_span T tracer name context attributes =
     (case tracer of
        NoopTracer \<Rightarrow> return NoopSpan
      | LibraryTracer tracer_name \<Rightarrow>
          bind (ask (otel_enter T tracer_name name context attributes)) (\<lambda>handle. return (LibrarySpan handle)))"

definition end_span :: "('w, 'c) otel \<Rightarrow> span \<Rightarrow> exn option \<Rightarrow> ('w, unit) prog" where
  "end_span T sp e = (case sp of NoopSpan \<Rightarrow> return () | LibrarySpan handle \<Rightarrow> ask (otel_exit T handle e))"

definition set_attribute :: "('w, 'c) otel \<Rightarrow> span \<Rightarrow> string \<Rightarrow> pyval \<Rightarrow> ('w, unit) prog" where
  "set_attribute T sp key v =
     (case sp of NoopSpan \<Rightarrow> return () | LibrarySpan handle \<Rightarrow> ask (otel_attribute T handle key v))"

text \<open>\<open>with span(name, context=..., attributes=...) as current: body\<close>.\<close>

definition within_span ::
  "('w, 'c) otel \<Rightarrow> string \<Rightarrow> 'c option \<Rightarrow> (string \<times> pyval) list option \<Rightarrow> (span \<Rightarrow> ('w, 'a) prog) \<Rightarrow> ('w, 'a) prog" where
  "within_span T name context attributes body =
     bind (start_span T (get_tracer T ''pixelforge'') name context (opt_get [] attributes)) (\<lambda>current.
     bind (attempt (body current)) (\<lambda>r.
     bind (end_span T current (case r of Inl e \<Rightarrow> Some e | Inr _ \<Rightarrow> None)) (\<lambda>_. of_sum r)))"

text \<open>The environment of a service whose tracing is this module.\<close>

definition traced :: "('w, 'c) otel \<Rightarrow> 'w env \<Rightarrow> 'w env" where
  "traced T env = env\<lparr>trace_carrier_now := propagated T, span_ids := current_span_ids T\<rparr>"

section \<open>Spans do not influence what they surround\<close>

text \<open>Without OpenTelemetry, a span and its attributes are nothing at all.\<close>

lemma within_noop_span: "\<not> otel_available T \<Longrightarrow> within_span T name context attributes body = body NoopSpan"
  by (rule ext) (auto simp: within_span_def get_tracer_def start_span_def end_span_def bind_def return_def attempt_def of_sum_def
      split: prod.split)

lemma set_attribute_noop: "set_attribute T NoopSpan key v = return ()"
  by (simp add: set_attribute_def)

text \<open>With it, whatever the body promises of its log and its outcome, the span promises too.\<close>

lemma logs_within_span:
  assumes "\<And>sp. logs K (body sp)"
  shows "logs K (within_span T name context attributes body)"
proof -
  have start: "logs (silent (\<lambda>r. \<exists>x. r = Inr x)) (start_span T tracer name context attrs)" for tracer attrs
    unfolding start_span_def
    by (cases tracer)
      (auto intro!: logs_mono [OF logs_bind [OF logs_ask logs_return]] logs_mono [OF logs_return] simp: seq_silent silent_def)
  have stop: "logs (silent (\<lambda>r. \<exists>x. r = Inr x)) (end_span T sp e)" for sp e
    unfolding end_span_def by (cases sp) (auto intro!: logs_mono [OF logs_return] logs_mono [OF logs_ask] simp: silent_def)
  show ?thesis
    unfolding within_span_def
    by (rule logs_mono [OF logs_bind [OF start logs_bind [OF logs_attempt [OF assms] logs_bind [OF stop logs_of_sum]]]])
      (auto simp: seq_silent silent_def elim!: seq_traceE)
qed

section \<open>Configuration\<close>

text \<open>Once an exporter is installed, later calls answer \<open>True\<close> without installing another.\<close>

lemma configure_tracing_once:
  "configure_tracing T service endpoint configured w = (True, configured', w') \<Longrightarrow>
   configured' \<and> configure_tracing T service2 endpoint configured' w'' = (True, True, w'')"
  by (auto simp: configure_tracing_def split: if_splits prod.splits sum.splits)

lemma configure_tracing_off:
  "configure_tracing T service None configured w = (False, configured, w)"
  "configure_tracing T service (Some '''') configured w = (False, configured, w)"
  by (simp_all add: configure_tracing_def)

section \<open>Hexadecimal identifiers\<close>

definition lower_hex :: "char \<Rightarrow> bool" where
  "lower_hex c \<longleftrightarrow> 48 \<le> py_ord c \<and> py_ord c \<le> 57 \<or> 97 \<le> py_ord c \<and> py_ord c \<le> 102"

definition digit_of_hex :: "char \<Rightarrow> nat" where
  "digit_of_hex c = (if py_ord c \<le> 57 then py_ord c - 48 else py_ord c - 87)"

text \<open>\<open>int(s, 16)\<close> on lower-case hexadecimal digits.\<close>

definition hex_value :: "string \<Rightarrow> nat" where
  "hex_value s = foldl (\<lambda>a c. a * 16 + digit_of_hex c) 0 s"

lemma hex_value_snoc: "hex_value (s @ [c]) = hex_value s * 16 + digit_of_hex c"
  by (simp add: hex_value_def)

lemma digit_of_hex_digit: "n < 16 \<Longrightarrow> digit_of_hex (hex_digit n) = n"
  by (simp add: digit_of_hex_def hex_digit_def ord_char_of)

lemma lower_hex_digit: "n < 16 \<Longrightarrow> lower_hex (hex_digit n)"
  by (simp add: lower_hex_def hex_digit_def ord_char_of)

lemma hex_value_show [simp]: "hex_value (show_hex n) = n"
proof (induction n rule: show_hex.induct)
  case (1 n)
  then show ?case
    by (cases "n < 16"; subst show_hex.simps) (simp_all add: hex_value_snoc digit_of_hex_digit hex_value_def)
qed

lemma hex_value_zeros: "hex_value (replicate k (CHR ''0'') @ s) = hex_value s"
  by (induction k) (simp_all add: hex_value_def digit_of_hex_def py_ord_def)

lemma show_hex_lower: "list_all lower_hex (show_hex n)"
proof (induction n rule: show_hex.induct)
  case (1 n)
  then show ?case
    by (cases "n < 16"; subst show_hex.simps) (simp_all add: lower_hex_digit)
qed

lemma length_show_hex: "n < 16 ^ k \<Longrightarrow> 0 < k \<Longrightarrow> length (show_hex n) \<le> k"
proof (induction n arbitrary: k rule: show_hex.induct)
  case (1 n)
  show ?case
  proof (cases "n < 16")
    case True
    with "1.prems" show ?thesis by (subst show_hex.simps) simp
  next
    case False
    obtain k' where k: "k = Suc k'" using "1.prems" by (cases k) auto
    have "0 < k'" using "1.prems" False k by (cases k') auto
    moreover have "n div 16 < 16 ^ k'"
      using "1.prems" k by (simp add: less_mult_imp_div_less mult.commute)
    ultimately show ?thesis using 1 False k by (subst show_hex.simps) simp
  qed
qed

text \<open>A number of at most \<open>k\<close> hexadecimal digits is printed with exactly \<open>k\<close>.\<close>

lemma format_hex_exact:
  assumes "n < 16 ^ k" "0 < k"
  shows "length (format_hex k n) = k \<and> list_all lower_hex (format_hex k n) \<and> hex_value (format_hex k n) = n"
  using length_show_hex [OF assms] show_hex_lower [of n]
  by (auto simp: format_hex_def hex_value_zeros list_all_iff lower_hex_def py_ord_def)

section \<open>The carrier across the queue\<close>

lemma distinct_carrier_of: "distinct (dict_keys (carrier_of calls))"
proof -
  have "distinct (dict_keys d) \<Longrightarrow> distinct (dict_keys (foldl (\<lambda>carrier (key, value). dict_set key value carrier) d calls))"
    for d :: "string dict"
    by (induction calls arbitrary: d) (auto simp: distinct_dict_set)
  then show ?thesis by (simp add: carrier_of_def dict_keys_def)
qed

lemma map_of_filter_distinct:
  "distinct (map fst d) \<Longrightarrow>
   map_of (filter (\<lambda>(k, v). P v) d) k = (case map_of d k of None \<Rightarrow> None | Some v \<Rightarrow> if P v then Some v else None)"
proof (induction d)
  case Nil
  then show ?case by simp
next
  case (Cons a d)
  have "fst a \<notin> fst ` set (filter (\<lambda>(k, v). P v) d)" using Cons.prems by auto
  then have "map_of (filter (\<lambda>(k, v). P v) d) (fst a) = None" by (simp add: map_of_eq_None_iff)
  with Cons show ?case by (cases a) auto
qed

lemma job_attributes_inject:
  "job_attributes (traced T env) job_id = bind (inject_trace_context T) (\<lambda>c. return (dict_set ''job_id'' job_id c))"
  by (rule ext) (simp add: job_attributes_def inject_trace_context_def traced_def bind_def ask_def return_def split: prod.split)

text \<open>
  What SQS documents of \<open>MessageAttributes\<close>: of the attributes a message was sent with, it hands over those the
  \<open>ReceiveMessage\<close> request asks for by name, or all if it asks for \<open>All\<close>, each a mapping with its \<open>StringValue\<close>, in
  some order; without a name in the request it hands over none.
\<close>

fun asks_for :: "request \<Rightarrow> string \<Rightarrow> bool" where
  "asks_for (ReceiveMessage u n w names atts v) name \<longleftrightarrow> ''All'' \<in> set names \<or> name \<in> set names"
| "asks_for q name \<longleftrightarrow> False"

fun delivers :: "request \<Rightarrow> request \<Rightarrow> sqs_message \<Rightarrow> bool" where
  "delivers (SendMessage url body attrs) q m \<longleftrightarrow>
     Body m = Some body \<and> distinct (map fst (opt_get [] (MessageAttributes m))) \<and>
     set (opt_get [] (MessageAttributes m)) = (\<lambda>(name, v). (name, AttrMap (Some v))) ` set (filter (\<lambda>(name, v). asks_for q name) attrs)"
| "delivers p q m \<longleftrightarrow> False"

text \<open>What the specification of trace context says of a propagator: it reads two headers.\<close>

definition reads_w3c_headers :: "('w, 'c) otel \<Rightarrow> bool" where
  "reads_w3c_headers T \<longleftrightarrow>
     (\<forall>c d. dict_get c TRACEPARENT_HEADER = dict_get d TRACEPARENT_HEADER \<and>
        dict_get c TRACESTATE_HEADER = dict_get d TRACESTATE_HEADER \<longrightarrow> otel_extract T c = otel_extract T d)"

lemma set_trace_carrier:
  assumes "delivers (SendMessage url body (filter (\<lambda>(name, v). v \<noteq> []) attrs)) (receive_request url' n w vis) m"
  shows "set (trace_carrier m) = set (filter (\<lambda>(name, v). v \<noteq> []) attrs)"
  using assms by (fastforce simp: trace_carrier_def)

lemma trace_carrier_keys: "map fst (trace_carrier m) = map fst (filter (\<lambda>(name, a).
    case a of AttrMap (Some v) \<Rightarrow> v \<noteq> [] | _ \<Rightarrow> False) (opt_get [] (MessageAttributes m)))"
proof -
  have "map fst (concat (map (\<lambda>(name, a). case a of AttrMap (Some v) \<Rightarrow> if v = [] then [] else [(name, v)] | _ \<Rightarrow> []) l)) =
      map fst (filter (\<lambda>(name, a). case a of AttrMap (Some v) \<Rightarrow> v \<noteq> [] | _ \<Rightarrow> False) l)" for l :: "(string \<times> msg_attr) list"
    by (induction l) (auto split: msg_attr.splits option.splits)
  then show ?thesis by (simp add: trace_carrier_def)
qed

lemma distinct_map_filter: "distinct (map fst l) \<Longrightarrow> distinct (map fst (filter P l))"
  by (induction l) auto

lemma delivered_lookup:
  assumes m: "delivers (SendMessage url body (filter (\<lambda>(name, v). v \<noteq> []) attrs)) (receive_request url' n w vis) m"
    and d: "distinct (map fst attrs)"
  shows "dict_get (trace_carrier m) k = map_of (filter (\<lambda>(name, v). v \<noteq> []) attrs) k"
proof -
  have "distinct (map fst (trace_carrier m))"
    unfolding trace_carrier_keys
    by (rule distinct_map_filter) (use m in simp)
  moreover have "distinct (map fst (filter (\<lambda>(name, v). v \<noteq> []) attrs))"
    using d by (rule distinct_map_filter)
  ultimately have "map_of (trace_carrier m) = map_of (filter (\<lambda>(name, v). v \<noteq> []) attrs)"
    using set_trace_carrier [OF m] by (simp add: map_of_inject_set)
  then show ?thesis by (simp add: dict_get_def)
qed

text \<open>The decisive request of a call that returned.\<close>

lemma last_request:
  assumes "talks (call_trace q sh) m" "m s = (Inr x, s')"
  shows "fst (last (wire s')) = q"
proof -
  from assms obtain tr where "wire s' = wire s @ tr" "call_trace q sh tr (Inr x)"
    unfolding talks_def by (blast dest: wpD)
  then show ?thesis by (auto simp: call_trace_def)
qed

lemma inject_carrier:
  assumes "inject_trace_context T s = (Inr c, s')"
  shows "distinct (map fst c) \<and> (\<forall>(k, v) \<in> set c. v \<noteq> [])"
  using assms distinct_carrier_of
  by (auto simp: inject_trace_context_def bind_def ask_def return_def propagated_def dict_keys_def distinct_map_filter
      split: if_splits prod.splits)

lemma extract_Some:
  "extract_trace_context T (Some c) =
     (if \<not> otel_available T \<or> dict_get c TRACEPARENT_HEADER = None then None
      else (case otel_extract T c of Inl _ \<Rightarrow> None | Inr context \<Rightarrow> Some context))"
  by (cases c) (simp_all add: extract_trace_context_def dict_get_def)

lemma extract_cong:
  assumes T: "reads_w3c_headers T"
    and p: "dict_get c TRACEPARENT_HEADER = dict_get d TRACEPARENT_HEADER"
    and s: "dict_get c TRACESTATE_HEADER = dict_get d TRACESTATE_HEADER"
  shows "extract_trace_context T (Some c) = extract_trace_context T (Some d)"
proof -
  have "otel_extract T c = otel_extract T d"
    by (rule T [unfolded reads_w3c_headers_def, rule_format]) (simp add: p s)
  then show ?thesis by (simp only: extract_Some p)
qed

section \<open>Properties\<close>

lemma extract_injected:
  assumes "inject_trace_context T s = (Inr c, s')"
  shows "extract_trace_context T (Some c) =
    (case dict_get c ''traceparent'' of None \<Rightarrow> None
     | Some v \<Rightarrow> (case otel_extract T c of Inl e \<Rightarrow> None | Inr context \<Rightarrow> Some context))"
proof -
  have "c = []" if "\<not> otel_available T"
    using assms that by (simp add: inject_trace_context_def propagated_def run_simps)
  then show ?thesis by (auto simp: extract_Some TRACEPARENT_HEADER_def dict_get_def split: option.splits)
qed

text \<open>
  C24: The trace survives the queue hop. The API injects its carrier, adds the job id and sends the attributes with the
  message; the worker receives a message. With a propagator that reads the two W3C headers, and a queue that hands
  over those attributes of the accepted \<open>SendMessage\<close> that the answered \<open>ReceiveMessage\<close> asked for, the context the
  worker extracts from the message is the one the propagator reads from the very carrier the API injected, whenever
  that has a \<open>traceparent\<close>, and none otherwise, although the attributes also carry the job id and empty
  headers are dropped on the way.
\<close>

theorem trace_context_survives_the_queue:
  assumes T: "reads_w3c_headers T"
    and attrs: "job_attributes (traced T env) job_id s = (Inr attrs, s1)"
    and sent: "queue_send_job (build_clients env cfg) body attrs s2 = (Inr message_id, s3)"
    and received: "queue_receive (build_clients env cfg) max_messages wait_seconds visibility s4 = (Inr ms, s5)"
    and m: "delivers (fst (last (wire s3))) (fst (last (wire s5))) m"
  shows "\<exists>carrier. inject_trace_context T s = (Inr carrier, s1) \<and>
    extract_trace_context T (Some (trace_carrier m)) =
      (case dict_get carrier ''traceparent'' of None \<Rightarrow> None
       | Some v \<Rightarrow> (case otel_extract T carrier of Inl e \<Rightarrow> None | Inr context \<Rightarrow> Some context))"
proof -
  obtain c where c: "inject_trace_context T s = (Inr c, s1)" and eq: "attrs = dict_set ''job_id'' job_id c"
    using attrs by (auto simp: job_attributes_inject bind_def return_def split: prod.splits sum.splits)
  note wf = inject_carrier [OF c]
  have d: "distinct (map fst attrs)"
    using distinct_dict_set [of c] wf by (simp add: eq dict_keys_def)
  have m': "delivers (SendMessage (sqs_queue_url cfg) body (filter (\<lambda>(name, v). v \<noteq> []) attrs))
      (receive_request (sqs_queue_url cfg) max_messages wait_seconds visibility) m"
    using m unfolding last_request [OF aws.send_job sent] last_request [OF aws.receive received] .
  have lookup: "dict_get (trace_carrier m) k = dict_get c k" if "k \<noteq> ''job_id''" for k
  proof -
    have "map_of attrs k = map_of c k"
      using dict_get_set [of "''job_id''" job_id c k] that by (simp add: eq dict_get_def)
    moreover have "v \<noteq> []" if "map_of c k = Some v" for v
      using wf that by (blast dest: map_of_SomeD)
    ultimately show ?thesis
      using map_of_filter_distinct [OF d, of "\<lambda>v. v \<noteq> []" k]
      by (simp add: delivered_lookup [OF m' d]) (simp add: dict_get_def split: option.splits)
  qed
  have "extract_trace_context T (Some (trace_carrier m)) = extract_trace_context T (Some c)"
    by (rule extract_cong [OF T lookup lookup]) (simp_all add: TRACEPARENT_HEADER_def TRACESTATE_HEADER_def)
  with c extract_injected [OF c] show ?thesis by simp
qed

definition sample_otel :: "(unit, string option) otel" where
  "sample_otel =
     \<lparr>otel_available = True, otel_install = (\<lambda>_ _ w. (Inr (), w)),
      otel_sets = (\<lambda>w. ([(''traceparent'', ''00-1-2-01''), (''tracestate'', '''')], w)),
      otel_extract = (\<lambda>c. Inr (dict_get c ''traceparent'')),
      otel_current = (\<lambda>w. (Inr (Some \<lparr>sc_trace_id = 1, sc_span_id = 2, sc_is_valid = True\<rparr>), w)),
      otel_enter = (\<lambda>_ _ _ _ w. (0, w)), otel_exit = (\<lambda>_ _ w. ((), w)), otel_attribute = (\<lambda>_ _ _ w. ((), w))\<rparr>"

text \<open>A message with a \<open>traceparent\<close> and a dropped empty \<open>tracestate\<close>: the context arrives.\<close>

definition sample_delivery :: sqs_message where
  "sample_delivery = (sample_sqs ''j'')\<lparr>MessageAttributes :=
     Some [(''job_id'', AttrMap (Some ''j'')), (''traceparent'', AttrMap (Some ''00-1-2-01''))]\<rparr>"

definition sample_hop :: "unit env" where
  "sample_hop = calm\<lparr>receive_message := \<lambda>_ _ _ _ _ _ w. (Inr (Some [sample_delivery]), w)\<rparr>"

theorem trace_context_survives_the_queue_witness:
  "extract_trace_context sample_otel (Some (trace_carrier sample_delivery)) = Some (Some ''00-1-2-01'')"
proof -
  let ?attrs = "[(''traceparent'', ''00-1-2-01''), (''job_id'', ''j'')]"
  let ?C = "build_clients sample_hop sample_config"
  have attrs: "job_attributes (traced sample_otel sample_hop) ''j'' blank = (Inr ?attrs, blank)"
    by (simp add: job_attributes_def traced_def propagated_def sample_otel_def carrier_of_def run_simps blank_def)
  have "\<exists>s. queue_send_job ?C ''j'' ?attrs blank = (Inr ''id'', s) \<and> fst (last (wire s)) = SendMessage ''q'' ''j'' ?attrs"
    by (simp add: build_clients_def Let_def jq_send_job_def jq_call_def run_simps retry_first on_wire_def sample_hop_def)
  then obtain s3 where sent: "queue_send_job ?C ''j'' ?attrs blank = (Inr ''id'', s3)" "fst (last (wire s3)) = SendMessage ''q'' ''j'' ?attrs"
    by blast
  have "\<exists>s. queue_receive ?C 1 20 None blank = (Inr [sample_delivery], s) \<and> fst (last (wire s)) = receive_request ''q'' 1 20 None"
    by (simp add: build_clients_def Let_def jq_receive_def jq_call_def run_simps retry_first on_wire_def sample_hop_def)
  then obtain s5 where received: "queue_receive ?C 1 20 None blank = (Inr [sample_delivery], s5)"
      "fst (last (wire s5)) = receive_request ''q'' 1 20 None"
    by blast
  have "\<exists>carrier. inject_trace_context sample_otel blank = (Inr carrier, blank) \<and>
    extract_trace_context sample_otel (Some (trace_carrier sample_delivery)) =
      (case dict_get carrier ''traceparent'' of None \<Rightarrow> None
       | Some v \<Rightarrow> (case otel_extract sample_otel carrier of Inl e \<Rightarrow> None | Inr context \<Rightarrow> Some context))"
  proof (rule trace_context_survives_the_queue [OF _ attrs sent(1) received(1)])
    show "reads_w3c_headers sample_otel"
      by (simp add: reads_w3c_headers_def sample_otel_def TRACEPARENT_HEADER_def)
    show "delivers (fst (last (wire s3))) (fst (last (wire s5))) sample_delivery"
      unfolding sent(2) received(2) by (auto simp: sample_delivery_def)
  qed
  then show ?thesis
    by (auto simp: inject_trace_context_def propagated_def sample_otel_def carrier_of_def run_simps blank_def dict_get_def)
qed

text \<open>
  The identifiers written into every log line are \<open>(None, None)\<close>, or 32 and 16 lower-case
  hexadecimal digits from which the numbers of the current span can be read back, given that the
  library's identifiers have the 128 and 64 bits it documents.
\<close>

theorem span_ids_are_w3c:
  assumes "\<And>context w'. otel_current T w = (Inr (Some context), w') \<Longrightarrow> sc_is_valid context \<Longrightarrow>
    sc_trace_id context < 2 ^ 128 \<and> sc_span_id context < 2 ^ 64"
  shows "case fst (current_span_ids T w) of
      (None, None) \<Rightarrow> True
    | (Some trace_id, Some span_id) \<Rightarrow>
        length trace_id = 32 \<and> list_all lower_hex trace_id \<and> length span_id = 16 \<and> list_all lower_hex span_id \<and>
        (\<exists>context w'. otel_current T w = (Inr (Some context), w') \<and>
           sc_trace_id context = hex_value trace_id \<and> sc_span_id context = hex_value span_id)
    | _ \<Rightarrow> False"
proof -
  have ex: "n < 2 ^ 128 \<Longrightarrow> length (format_hex 32 n) = 32 \<and> list_all lower_hex (format_hex 32 n) \<and> hex_value (format_hex 32 n) = n"
    "n < 2 ^ 64 \<Longrightarrow> length (format_hex 16 n) = 16 \<and> list_all lower_hex (format_hex 16 n) \<and> hex_value (format_hex 16 n) = n" for n
    using format_hex_exact [of n 32] format_hex_exact [of n 16] by simp_all
  show ?thesis
    using assms ex by (auto simp: current_span_ids_def split: prod.splits sum.splits option.splits)
qed

theorem span_ids_are_w3c_witness:
  "case fst (current_span_ids sample_otel ()) of
      (None, None) \<Rightarrow> True
    | (Some trace_id, Some span_id) \<Rightarrow>
        length trace_id = 32 \<and> list_all lower_hex trace_id \<and> length span_id = 16 \<and> list_all lower_hex span_id \<and>
        (\<exists>context w'. otel_current sample_otel () = (Inr (Some context), w') \<and>
           sc_trace_id context = hex_value trace_id \<and> sc_span_id context = hex_value span_id)
    | _ \<Rightarrow> False"
  by (rule span_ids_are_w3c) (auto simp: sample_otel_def)

end
