(* ===== verification/Application.thy ===== *)
theory Application
  imports Api Tracing
begin

text \<open>
  The API process over its life: \<open>create_app\<close> and its lifespan in \<open>api/main.py\<close>, the accessors of
  \<open>api/deps.py\<close> on the application state, and a session, the requests of one replica in the order in which their
  handlers run. The attributes of \<open>app.state\<close> that only the lifespan sets are options. The lifespan is a
  program, since boto3 may refuse the clients it builds.
\<close>

record 'w app =
  app_config :: config
  app_chaos :: chaos_state
  app_clients :: "'w clients option"
  app_service :: "(config \<times> 'w clients) option"
  app_probe :: "'w clients option"
  app_admin_router :: bool

text \<open>
  The arguments of \<open>create_app\<close> but \<open>clients\<close>, which only the lifespan uses. The objects have no truth value of
  their own, so \<open>or\<close> tests for \<open>None\<close>.
\<close>

definition create_app :: "environ \<Rightarrow> config option \<Rightarrow> chaos_state option \<Rightarrow> exn + 'w app" where
  "create_app source cfg chaos =
     sum_bind (case cfg of Some c \<Rightarrow> Inr c | None \<Rightarrow> load_config source) (\<lambda>resolved_config.
       Inr \<lparr>app_config = resolved_config, app_chaos = opt_get ChaosState chaos, app_clients = None,
            app_service = None, app_probe = None, app_admin_router = enable_chaos_endpoint resolved_config\<rparr>)"

text \<open>Before the \<open>yield\<close>; without clients they are built, which boto3 may refuse, and then the server does not start.\<close>

definition lifespan_start :: "'w env \<Rightarrow> 'w clients option \<Rightarrow> 'w app \<Rightarrow> ('w, 'w app) prog" where
  "lifespan_start env clients app =
     bind (case clients of Some c \<Rightarrow> return c | None \<Rightarrow> aws_build env (app_config app)) (\<lambda>C.
       return (app\<lparr>app_clients := Some C, app_service := Some (app_config app, C), app_probe := Some C\<rparr>))"

text \<open>\<open>api/deps.py\<close>: reading an attribute that was never set raises \<open>AttributeError\<close>.\<close>

definition state_attr :: "string \<Rightarrow> 'a option \<Rightarrow> exn + 'a" where
  "state_attr name x =
     (case x of Some v \<Rightarrow> Inr v
      | None \<Rightarrow> Inl (OtherError ''AttributeError'' (py_repr ''State'' @ '' object has no attribute '' @ py_repr name)))"

definition get_config :: "'w app \<Rightarrow> exn + config" where
  "get_config app = Inr (app_config app)"

definition get_service :: "'w app \<Rightarrow> exn + config \<times> 'w clients" where
  "get_service app = state_attr ''service'' (app_service app)"

definition get_chaos :: "'w app \<Rightarrow> exn + chaos_state" where
  "get_chaos app = Inr (app_chaos app)"

definition get_probe :: "'w app \<Rightarrow> exn + 'w clients" where
  "get_probe app = state_attr ''probe'' (app_probe app)"

section \<open>A session\<close>

text \<open>
  Requests one after another; the answers and escaped exceptions are the result. The chaos settings are the
  only state of the application that a request changes.
\<close>

fun session ::
  "'w env \<Rightarrow> config \<Rightarrow> 'w clients \<Rightarrow> (unit \<Rightarrow> pyval) \<Rightarrow> chaos_state \<Rightarrow> http_request list \<Rightarrow> ('w, (exn + response) list) prog" where
  "session env cfg C page ch [] = return []"
| "session env cfg C page ch (rq # rqs) =
     bind (attempt (serve env cfg C page ch rq)) (\<lambda>r.
     bind (session env cfg C page (chaos_after cfg ch (rq_route rq)) rqs) (\<lambda>rs.
       return (r # rs)))"

definition app_session ::
  "'w env \<Rightarrow> 'w clients option \<Rightarrow> (unit \<Rightarrow> pyval) \<Rightarrow> 'w app \<Rightarrow> http_request list \<Rightarrow> ('w, (exn + response) list) prog" where
  "app_session env clients page app rqs =
     bind (lifespan_start env clients app) (\<lambda>started.
     bind (of_sum (get_service started)) (\<lambda>(cfg, C).
     bind (of_sum (get_chaos started)) (\<lambda>ch.
       session env cfg C page ch rqs)))"

lemma lifespan_started:
  "lifespan_start env None app = bind (connect_clients env (app_config app)) (\<lambda>_.
     let C = build_clients env (app_config app) in
     return (app\<lparr>app_clients := Some C, app_service := Some (app_config app, C), app_probe := Some C\<rparr>))"
  by (simp add: lifespan_start_def aws_build_bind Let_def)

lemma app_session_started:
  "app_session env None page app rqs = bind (connect_clients env (app_config app)) (\<lambda>_.
     session env (app_config app) (build_clients env (app_config app)) page (app_chaos app) rqs)"
  by (rule ext) (simp add: app_session_def lifespan_started get_service_def get_chaos_def state_attr_def Let_def bind_def of_sum_def
      return_def split: prod.split sum.split)

text \<open>The status the client gets, and the line of the books one request adds.\<close>

definition status_of :: "exn + response \<Rightarrow> int" where
  "status_of r = (case r of Inr resp \<Rightarrow> rs_status resp | Inl e \<Rightarrow> 500)"

definition booked :: "config \<Rightarrow> http_request \<times> (exn + response) \<Rightarrow> string \<times> string \<times> string" where
  "booked cfg = (\<lambda>(rq, r). (rq_method rq, resolve_endpoint (mounted cfg (rq_route rq)), show_int (status_of r)))"

definition session_books ::
  "config \<Rightarrow> http_request list \<Rightarrow> (exn + response) list \<Rightarrow> 'w st \<Rightarrow> 'w st \<Rightarrow> bool" where
  "session_books cfg rqs rs s s' \<longleftrightarrow> length rs = length rqs \<and>
     http_requests_total s' = fold inc (map (booked cfg) (zip rqs rs)) (http_requests_total s) \<and>
     map fst (http_durations s') = map fst (http_durations s) @ map (\<lambda>rq. resolve_endpoint (mounted cfg (rq_route rq))) rqs"

lemma session_counted:
  "wp (session env cfg (build_clients env cfg) page ch rqs) (\<lambda>r s'. \<exists>rs. r = Inr rs \<and> session_books cfg rqs rs s s') s"
proof (induction rqs arbitrary: ch s)
  case Nil
  show ?case by (simp add: wp_return session_books_def)
next
  case (Cons rq rqs)
  show ?case
    unfolding session.simps wp_bind wp_attempt
  proof (rule wp_mono [OF request_counted])
    fix r :: "exn + response" and s1 :: "'a st"
    assume one: "http_requests_total s1 =
          inc (rq_method rq, resolve_endpoint (mounted cfg (rq_route rq)),
               show_int (case r of Inr resp \<Rightarrow> rs_status resp | Inl e \<Rightarrow> 500)) (http_requests_total s) \<and>
        (\<exists>elapsed. http_durations s1 = http_durations s @ [(resolve_endpoint (mounted cfg (rq_route rq)), elapsed)])"
    have rest: "wp (session env cfg (build_clients env cfg) page (chaos_after cfg ch (rq_route rq)) rqs)
        (\<lambda>r2 s'. case r2 of Inl e \<Rightarrow> False
           | Inr rs \<Rightarrow> session_books cfg (rq # rqs) (r # rs) s s') s1"
      by (rule wp_mono [OF Cons.IH])
        (use one in \<open>auto simp: session_books_def booked_def status_of_def\<close>)
    show "case Inr r of Inl e \<Rightarrow> \<exists>rs. Inl e = Inr rs \<and> session_books cfg (rq # rqs) rs s s1
        | Inr x \<Rightarrow> wp (session env cfg (build_clients env cfg) page (chaos_after cfg ch (rq_route rq)) rqs)
            (\<lambda>r2 s'. case r2 of Inl e \<Rightarrow> \<exists>rs. Inl e = Inr rs \<and> session_books cfg (rq # rqs) rs s s'
               | Inr rs \<Rightarrow> wp (return (x # rs)) (\<lambda>r3 s''. \<exists>rs. r3 = Inr rs \<and> session_books cfg (rq # rqs) rs s s'') s') s1"
      by (simp, rule wp_mono [OF rest]) (auto simp: wp_return split: sum.splits)
  qed
qed

text \<open>
  C26: A replica's books list its requests. However its requests end, and whatever the chaos settings do in between, a
  started application answers each of them or lets its exception through, adds one to the counter of exactly
  its method, route template and status, and observes one duration per request under its route template. If boto3
  refuses the clients, the application does not start, serves nothing and counts nothing.
\<close>

theorem session_counts_every_request:
  assumes "create_app source cfg chaos = Inr app"
  shows "wp (app_session env None page app rqs)
     (\<lambda>r s'. case fst (lifespan_start env None app s) of
        Inl e \<Rightarrow> r = Inl e \<and> s' = s\<lparr>world := world s'\<rparr>
      | Inr started \<Rightarrow> \<exists>rs. r = Inr rs \<and> session_books (app_config app) rqs rs s s') s"
proof -
  let ?cfg = "app_config app"
  obtain r w where c: "connect_clients env ?cfg s = (r, s\<lparr>world := w\<rparr>)"
  proof -
    have "wp (connect_clients env ?cfg) (\<lambda>r s'. \<exists>w. s' = s\<lparr>world := w\<rparr>) s" by (rule wp_connect_clients) blast+
    with that show thesis by (cases "connect_clients env ?cfg s") (auto simp: wp_def)
  qed
  show ?thesis
  proof (cases r)
    case (Inl e)
    with c show ?thesis by (simp add: app_session_started lifespan_started wp_def bind_def)
  next
    case (Inr u)
    have books: "session_books ?cfg rqs rs (s\<lparr>world := w\<rparr>) = session_books ?cfg rqs rs s" for rs
      by (rule ext) (simp add: session_books_def)
    have "wp (session env ?cfg (build_clients env ?cfg) page (app_chaos app) rqs)
        (\<lambda>r s'. \<exists>rs. r = Inr rs \<and> session_books ?cfg rqs rs s s') (s\<lparr>world := w\<rparr>)"
      using session_counted [of env ?cfg page "app_chaos app" rqs "s\<lparr>world := w\<rparr>"] unfolding books .
    with c Inr show ?thesis
      by (simp add: app_session_started lifespan_started wp_def bind_def return_def Let_def)
  qed
qed

lemma calm_starts:
  "lifespan_start calm None app s = (Inr (app\<lparr>app_clients := Some (build_clients calm (app_config app)),
     app_service := Some (app_config app, build_clients calm (app_config app)), app_probe := Some (build_clients calm (app_config app))\<rparr>), s)"
  by (simp add: lifespan_started connect_clients_def run_simps Let_def)

theorem session_counts_every_request_witness:
  "\<exists>app. wp (app_session calm None (\<lambda>_. PNone) app [\<lparr>rq_method = ''GET'', rq_route = Healthz\<rparr>, \<lparr>rq_method = ''GET'', rq_route = NoRoute\<rparr>])
     (\<lambda>r s'. \<exists>rs. r = Inr rs \<and> session_books (app_config app)
        [\<lparr>rq_method = ''GET'', rq_route = Healthz\<rparr>, \<lparr>rq_method = ''GET'', rq_route = NoRoute\<rparr>] rs blank s') blank"
proof -
  obtain app :: "unit app" where "create_app (\<lambda>_. None) (Some sample_config) None = Inr app"
    by (simp add: create_app_def)
  from session_counts_every_request [OF this, of calm _ _ blank] show ?thesis by (auto simp: calm_starts)
qed

text \<open>Everything a started application uses is built from one configuration.\<close>

theorem started_app_is_wired:
  assumes "create_app source cfg chaos = Inr app" "lifespan_start env None app s = (Inr started, s')"
  shows "get_config started = Inr (app_config app) \<and>
    get_service started = Inr (app_config app, build_clients env (app_config app)) \<and>
    get_probe started = Inr (build_clients env (app_config app)) \<and>
    (case cfg of Some c \<Rightarrow> app_config app = c | None \<Rightarrow> load_config source = Inr (app_config app)) \<and>
    app_admin_router app = enable_chaos_endpoint (app_config app)"
proof -
  have "started = app\<lparr>app_clients := Some (build_clients env (app_config app)),
      app_service := Some (app_config app, build_clients env (app_config app)), app_probe := Some (build_clients env (app_config app))\<rparr>"
    using assms(2) by (auto simp: lifespan_started bind_def return_def Let_def split: prod.splits sum.splits)
  with assms(1) show ?thesis
    by (auto simp: create_app_def sum_bind_def get_config_def get_service_def get_probe_def state_attr_def split: sum.splits option.splits)
qed

theorem started_app_is_wired_witness:
  "\<exists>app started s'. lifespan_start calm None app blank = (Inr started, s') \<and>
     get_service started = Inr (app_config app, build_clients calm (app_config app)) \<and> app_config app = sample_config"
proof -
  obtain app :: "unit app" where app: "create_app (\<lambda>_. None) (Some sample_config) None = Inr app"
    by (simp add: create_app_def)
  obtain started s' where st: "lifespan_start calm None app blank = (Inr started, s')" by (simp add: calm_starts)
  from started_app_is_wired [OF app st] st show ?thesis by auto
qed

end
