(* ===== verification/Startup.thy ===== *)
theory Startup
  imports Deliveries Readiness Tracing
begin

text \<open>
  How the two processes start and stop: \<open>worker/main.py\<close>, \<open>run\<close> and \<open>main\<close> of \<open>api/main.py\<close>. The
  metrics listener, uvicorn, boto3 and the OpenTelemetry packages are parameters; what a process prints is left out. An
  uncaught exception is an outcome \<open>Inl\<close> (the interpreter then prints it and exits with 1 as well), an exit code an outcome
  \<open>Inr\<close>. \<open>worker_main\<close> is the return value of \<open>main\<close>; \<open>worker_process\<close> is the exit of the process, which the watchdog can end
  before \<open>main\<close> returns.
\<close>

section \<open>The worker process\<close>

text \<open>No long poll of the worker is cut off by its own socket.\<close>

lemma sqs_socket_outlives_poll:
  "c \<in> set (boto_clients cfg) \<Longrightarrow> bo_service c = ''sqs'' \<Longrightarrow>
   wk_poll_wait Worker + CONNECT_TIMEOUT < bc_read_timeout (bo_config c)"
  by (auto simp: boto_clients_def build_client_def build_dynamodb_resource_def build_boto_config_def
      SQS_READ_TIMEOUT_def CONNECT_TIMEOUT_def Worker_def POLL_WAIT_SECONDS_def)

definition WORKER_NAME :: string where "WORKER_NAME = ''worker''"
definition METRICS_PORT :: int where "METRICS_PORT = 9090"
definition EXIT_GRACE_EXCEEDED :: int where "EXIT_GRACE_EXCEEDED = 1"
definition EXIT_CONFIG :: int where "EXIT_CONFIG = 78"

definition build_worker :: "'w env \<Rightarrow> config \<Rightarrow> ('w, worker) prog" where
  "build_worker env cfg =
     bind (aws_build env cfg) (\<lambda>C.
     bind (wait_for_dependencies C 10 (1 / 2) 15) (\<lambda>_. return Worker))"

text \<open>The call of \<open>configure_tracing\<close>, whose result both services ignore.\<close>

definition start_tracing :: "('w, 'c) otel \<Rightarrow> string \<Rightarrow> config \<Rightarrow> ('w, unit) prog" where
  "start_tracing T service cfg =
     ask (\<lambda>w. ((), snd (snd (configure_tracing T service (otel_exporter_otlp_endpoint cfg) False w))))"

text \<open>\<open>start_http_server\<close> binds a socket, so it returns or raises an \<open>OSError\<close> with some text.\<close>

definition serve_metrics :: "(int \<Rightarrow> 'w \<Rightarrow> string option \<times> 'w) \<Rightarrow> ('w, unit) prog" where
  "serve_metrics listen =
     bind (ask (listen METRICS_PORT)) (\<lambda>failure.
       case failure of None \<Rightarrow> return () | Some text \<Rightarrow> raise (OSError text))"

text \<open>\<open>run\<close>, up to the installation of the signal handlers: an exit code, or the worker.\<close>

definition start_worker ::
  "('w, 'c) otel \<Rightarrow> (int \<Rightarrow> 'w \<Rightarrow> string option \<times> 'w) \<Rightarrow> 'w env \<Rightarrow> config \<Rightarrow> ('w, int + worker) prog" where
  "start_worker T listen env cfg =
     bind (start_tracing T WORKER_NAME cfg) (\<lambda>_.
     bind (serve_metrics listen) (\<lambda>_.
     bind (attempt (build_worker env cfg)) (\<lambda>r. case r of
         Inr wk \<Rightarrow> return (Inr wk)
       | Inl (TransientDependencyError m op) \<Rightarrow> return (Inl EXIT_GRACE_EXCEEDED)
       | Inl e \<Rightarrow> raise e)))"

definition worker_run ::
  "nat \<Rightarrow> ('w st \<Rightarrow> bool) \<Rightarrow> ('w, 'c) otel \<Rightarrow> (int \<Rightarrow> 'w \<Rightarrow> string option \<times> 'w) \<Rightarrow> environ \<Rightarrow> 'w env \<Rightarrow> 'w st \<Rightarrow>
   ((exn + int) \<times> 'w st) option" where
  "worker_run fuel stopping T listen source env s =
     (case load_config source of
        Inl e \<Rightarrow> Some (Inl e, s)
      | Inr cfg \<Rightarrow>
          (case start_worker T listen env cfg s of
             (Inl e, s') \<Rightarrow> Some (Inl e, s')
           | (Inr (Inl exit_code), s') \<Rightarrow> Some (Inr exit_code, s')
           | (Inr (Inr wk), s') \<Rightarrow>
               (case run_worker fuel stopping env cfg (build_clients env cfg) wk s' of
                  None \<Rightarrow> None
                | Some (Inl e, s'') \<Rightarrow> Some (Inl e, s'')
                | Some (Inr _, s'') \<Rightarrow> Some (Inr 0, s''))))"

fun exit_code :: "exn + int \<Rightarrow> exn + int" where
  "exit_code (Inl (ConfigError m)) = Inr EXIT_CONFIG"
| "exit_code r = r"

definition worker_main ::
  "nat \<Rightarrow> ('w st \<Rightarrow> bool) \<Rightarrow> ('w, 'c) otel \<Rightarrow> (int \<Rightarrow> 'w \<Rightarrow> string option \<times> 'w) \<Rightarrow> environ \<Rightarrow> 'w env \<Rightarrow> 'w st \<Rightarrow>
   ((exn + int) \<times> 'w st) option" where
  "worker_main fuel stopping T listen source env s =
     (case worker_run fuel stopping T listen source env s of
        None \<Rightarrow> None
      | Some (r, s') \<Rightarrow> Some (exit_code r, s'))"

section \<open>Signals and the watchdog\<close>

text \<open>The worker's stop flag and the deadlines of the watchdog timers that have been started.\<close>

record shutdown =
  sd_flag :: stop_flag
  sd_watchdogs :: "rat list"

definition running :: shutdown where
  "running = \<lparr>sd_flag = \<lparr>sf_stopping = False, sf_reason = None\<rparr>, sd_watchdogs = []\<rparr>"

text \<open>The body of \<open>handle\<close> for the signal \<open>name\<close> that arrives at time \<open>now\<close>.\<close>

definition handle_signal :: "int \<Rightarrow> string \<times> rat \<Rightarrow> shutdown \<Rightarrow> shutdown" where
  "handle_signal grace_seconds = (\<lambda>(name, now) d.
     d\<lparr>sd_flag := request_stop name (sd_flag d), sd_watchdogs := sd_watchdogs d @ [now + of_int grace_seconds]\<rparr>)"

fun handle_signals :: "int \<Rightarrow> (string \<times> rat) list \<Rightarrow> shutdown \<Rightarrow> shutdown" where
  "handle_signals grace [] d = d"
| "handle_signals grace (sig # sigs) d = handle_signals grace sigs (handle_signal grace sig d)"

text \<open>
  When and with which code the process ends, given when \<open>run\<close> returns, if it does: the first
  watchdog that fires before that is \<open>_force_exit\<close>. The timers are daemons and die with the process.
\<close>

definition process_end :: "shutdown \<Rightarrow> rat option \<Rightarrow> (rat \<times> int) option" where
  "process_end d finish =
     (case filter (\<lambda>t. case finish of None \<Rightarrow> True | Some f \<Rightarrow> t < f) (sd_watchdogs d) of
        [] \<Rightarrow> map_option (\<lambda>f. (f, 0)) finish
      | t # ts \<Rightarrow> Some (fold min ts t, EXIT_GRACE_EXCEEDED))"

section \<open>The API process\<close>

definition API_PORT :: int where "API_PORT = 8000"
definition API_HOST :: string where "API_HOST = ''0.0.0.0''"
definition API_NAME :: string where "API_NAME = ''api''"

record serve_args =
  sa_host :: string
  sa_port :: int
  sa_access_log :: bool
  sa_timeout_graceful_shutdown :: int

definition api_run ::
  "('w, 'c) otel \<Rightarrow> (config \<Rightarrow> serve_args \<Rightarrow> 'w \<Rightarrow> (exn + unit) \<times> 'w) \<Rightarrow> environ \<Rightarrow> ('w, unit) prog" where
  "api_run T uvicorn source =
     bind (of_sum (load_config source)) (\<lambda>cfg.
     bind (start_tracing T API_NAME cfg) (\<lambda>_.
       ask_io (uvicorn cfg \<lparr>sa_host = API_HOST, sa_port = API_PORT, sa_access_log = False,
                            sa_timeout_graceful_shutdown = shutdown_grace_seconds cfg\<rparr>)))"

definition api_main ::
  "('w, 'c) otel \<Rightarrow> (config \<Rightarrow> serve_args \<Rightarrow> 'w \<Rightarrow> (exn + unit) \<times> 'w) \<Rightarrow> environ \<Rightarrow> ('w, int) prog" where
  "api_main T uvicorn source =
     bind (attempt (api_run T uvicorn source)) (\<lambda>r. of_sum (exit_code (map_sum id (\<lambda>_. 0) r)))"

section \<open>Starting\<close>

lemma wp_start_tracing: "(\<And>w. Q (Inr ()) (s\<lparr>world := w\<rparr>)) \<Longrightarrow> wp (start_tracing T service cfg) Q s"
  unfolding start_tracing_def by (rule wp_ask) simp

lemma wp_serve_metrics:
  "(\<And>w. Q (Inr ()) (s\<lparr>world := w\<rparr>)) \<Longrightarrow> (\<And>w m. Q (Inl (OSError m)) (s\<lparr>world := w\<rparr>)) \<Longrightarrow> wp (serve_metrics listen) Q s"
  unfolding serve_metrics_def wp_bind
  by (rule wp_ask) (simp add: wp_simps split: option.split)

text \<open>
  What a library may raise: neither of the two exceptions by which the service itself says that its dependencies or its
  configuration are bad.
\<close>

definition boto_raises_its_own :: "'w env \<Rightarrow> bool" where
  "boto_raises_its_own env \<longleftrightarrow>
     (\<forall>b w. case fst (boto_connect env b w) of
        Inl (TransientDependencyError m op) \<Rightarrow> False | Inl (ConfigError m) \<Rightarrow> False | r \<Rightarrow> True)"

definition refused_client :: "'w env \<Rightarrow> config \<Rightarrow> exn \<Rightarrow> bool" where
  "refused_client env cfg e \<longleftrightarrow> (\<exists>b w. b \<in> set (boto_clients cfg) \<and> fst (boto_connect env b w) = Inl e)"

lemma refused_not_own:
  "boto_raises_its_own env \<Longrightarrow> refused_client env cfg e \<Longrightarrow>
   (\<forall>m op. e \<noteq> TransientDependencyError m op) \<and> (\<forall>m. e \<noteq> ConfigError m)"
proof -
  assume own: "boto_raises_its_own env" and "refused_client env cfg e"
  then obtain b w where "fst (boto_connect env b w) = Inl e" by (auto simp: refused_client_def)
  with own [unfolded boto_raises_its_own_def, rule_format, of b w] show ?thesis by (cases e) simp_all
qed

text \<open>
  How \<open>start_worker\<close> can end: no socket or no boto3 client, dependencies that never became ready, or a ready worker.
\<close>

definition started :: "'w env \<Rightarrow> config \<Rightarrow> 'w st \<Rightarrow> exn + (int + worker) \<Rightarrow> 'w st \<Rightarrow> bool" where
  "started env cfg s r s' \<longleftrightarrow>
     (case r of
        Inl e \<Rightarrow> ((\<exists>m. e = OSError m) \<or> refused_client env cfg e) \<and> wire s' = wire s
      | Inr (Inl c) \<Rightarrow> c = EXIT_GRACE_EXCEEDED \<and>
          (\<exists>s1 checks. readiness_run (build_clients env cfg) s1 = (Inr (False, checks), s'))
      | Inr (Inr wk) \<Rightarrow> wk = Worker \<and>
          (\<exists>s1 checks. readiness_run (build_clients env cfg) s1 = (Inr (True, checks), s')))"

lemma start_worker_started:
  fixes s :: "'w st"
  assumes own: "boto_raises_its_own env"
  shows "wp (start_worker T listen env cfg) (started env cfg s) s"
proof -
  let ?C = "build_clients env cfg"
  let ?f = "\<lambda>r. case r of Inr wk \<Rightarrow> return (Inr wk)
      | Inl (TransientDependencyError m op) \<Rightarrow> return (Inl EXIT_GRACE_EXCEEDED) | Inl e \<Rightarrow> raise e"
  have ready: "wp (bind (wait_for_dependencies ?C 10 (1 / 2) 15) (\<lambda>_. return Worker)) (\<lambda>r. wp (?f r) (started env cfg s)) t" for t
    unfolding wp_bind
    by (rule wp_mono [OF wait_for_dependencies_spec])
      (auto simp: started_def wp_simps split: sum.splits, blast)
  have refused: "wp (?f (Inl e)) (started env cfg s) (t\<lparr>world := w\<rparr>)"
    if "refused_client env cfg e" "wire t = wire s" for e t w
    using that refused_not_own [OF own that(1)] by (cases e) (auto simp: started_def wp_simps)
  have wait: "wp (bind (attempt (build_worker env cfg)) ?f) (started env cfg s) t" if t: "wire t = wire s" for t
    unfolding build_worker_def aws_build_bind wp_bind [of "attempt _"] wp_attempt wp_bind [of "connect_clients env cfg"]
  proof (rule wp_connect_clients)
    fix b e w0 w
    assume "b \<in> set (boto_clients cfg)" "fst (boto_connect env b w0) = Inl e"
    then have "refused_client env cfg e" unfolding refused_client_def by blast
    from refused [OF this t] show "case Inl e of Inl e \<Rightarrow> (case Inr (Inl e) of Inl e \<Rightarrow> started env cfg s (Inl e) (t\<lparr>world := w\<rparr>)
          | Inr x \<Rightarrow> wp (?f x) (started env cfg s) (t\<lparr>world := w\<rparr>))
        | Inr x \<Rightarrow> wp (bind (wait_for_dependencies ?C 10 (1 / 2) 15) (\<lambda>_. return Worker))
            (\<lambda>r s'. case Inr r of Inl e \<Rightarrow> started env cfg s (Inl e) s' | Inr x \<Rightarrow> wp (?f x) (started env cfg s) s') (t\<lparr>world := w\<rparr>)"
      by simp
  qed (use ready in simp)
  show ?thesis
    unfolding start_worker_def wp_bind [of "start_tracing T WORKER_NAME cfg"] wp_bind [of "serve_metrics listen"]
    by (rule wp_start_tracing, unfold sum.case, rule wp_serve_metrics)
      (simp_all add: started_def wait)
qed

section \<open>The process\<close>

text \<open>
  The exit of the process, given the signals that arrive once the handlers are installed and when \<open>main\<close> returns if it
  does: what \<open>main\<close> returned or raised, unless a watchdog ended the process before with \<open>os._exit\<close>.
\<close>

definition installed :: "('w, 'c) otel \<Rightarrow> (int \<Rightarrow> 'w \<Rightarrow> string option \<times> 'w) \<Rightarrow> environ \<Rightarrow> 'w env \<Rightarrow> 'w st \<Rightarrow> (string \<times> rat) list \<Rightarrow> shutdown" where
  "installed T listen source env s signals =
     (case load_config source of
        Inl e \<Rightarrow> running
      | Inr cfg \<Rightarrow> (case fst (start_worker T listen env cfg s) of
            Inr (Inr wk) \<Rightarrow> handle_signals (shutdown_grace_seconds cfg) signals running
          | _ \<Rightarrow> running))"

definition worker_process ::
  "nat \<Rightarrow> ('w st \<Rightarrow> bool) \<Rightarrow> ('w, 'c) otel \<Rightarrow> (int \<Rightarrow> 'w \<Rightarrow> string option \<times> 'w) \<Rightarrow> environ \<Rightarrow> 'w env \<Rightarrow>
   (string \<times> rat) list \<Rightarrow> rat \<Rightarrow> 'w st \<Rightarrow> (exn + int) option" where
  "worker_process fuel stopping T listen source env signals finish s =
     (let main = worker_main fuel stopping T listen source env s in
      case process_end (installed T listen source env s signals) (map_option (\<lambda>_. finish) main) of
        None \<Rightarrow> None
      | Some (u, c) \<Rightarrow> if c = 0 then map_option fst main else Some (Inr c))"

section \<open>Properties\<close>

lemma worker_main_outcomes:
  assumes own: "boto_raises_its_own env"
  shows "case load_config source of
     Inl e \<Rightarrow> worker_main fuel stopping T listen source env s = Some (Inr EXIT_CONFIG, s)
   | Inr cfg \<Rightarrow>
       (case worker_main fuel stopping T listen source env s of
          None \<Rightarrow> \<exists>s1 s2 checks. readiness_run (build_clients env cfg) s1 = (Inr (True, checks), s2) \<and>
            \<not> (\<exists>n \<le> fuel. stopping ((after_turn env cfg (build_clients env cfg) Worker ^^ n) s2))
        | Some (Inl e, s') \<Rightarrow> ((\<exists>m. e = OSError m) \<or> refused_client env cfg e) \<and> wire s' = wire s
        | Some (Inr c, s') \<Rightarrow>
            if c = 0
            then \<exists>s1 s2 checks n. readiness_run (build_clients env cfg) s1 = (Inr (True, checks), s2) \<and>
              s' = (after_turn env cfg (build_clients env cfg) Worker ^^ n) s2 \<and> stopping s'
            else c = EXIT_GRACE_EXCEEDED \<and>
              (\<exists>s1 checks. readiness_run (build_clients env cfg) s1 = (Inr (False, checks), s')))"
proof (cases "load_config source")
  case (Inl e)
  then show ?thesis
    using load_config_error [OF Inl] by (auto simp: worker_main_def worker_run_def)
next
  case (Inr cfg)
  obtain r s' where run: "start_worker T listen env cfg s = (r, s')" by (cases "start_worker T listen env cfg s")
  have st: "started env cfg s r s'" by (rule wpD [OF start_worker_started [OF own] run])
  consider (refused) e where "r = Inl e" | (unready) c where "r = Inr (Inl c)" | (ready) wk where "r = Inr (Inr wk)"
    by (cases r) (auto split: sum.splits, metis sum.exhaust)
  then show ?thesis
  proof cases
    case refused
    with st have e: "(\<exists>m. e = OSError m) \<or> refused_client env cfg e" "wire s' = wire s" by (simp_all add: started_def)
    then have "exit_code (Inl e) = Inl e" using refused_not_own [OF own, of cfg e] by (cases e) auto
    with refused run Inr e show ?thesis by (simp add: worker_main_def worker_run_def)
  next
    case unready
    with st run Inr show ?thesis
      by (auto simp: started_def worker_main_def worker_run_def EXIT_GRACE_EXCEEDED_def)
  next
    case ready
    then obtain s1 checks where wk: "wk = Worker"
      and probe: "readiness_run (build_clients env cfg) s1 = (Inr (True, checks), s')"
      using st by (auto simp: started_def)
    let ?P = "\<lambda>n. stopping ((after_turn env cfg (build_clients env cfg) Worker ^^ n) s')"
    have main: "worker_main fuel stopping T listen source env s =
        (if \<exists>n \<le> fuel. ?P n then Some (Inr 0, (after_turn env cfg (build_clients env cfg) Worker ^^ (LEAST n. ?P n)) s') else None)"
      using run Inr ready wk
      by (simp add: worker_main_def worker_run_def run_worker_spec [of fuel stopping env cfg "build_clients env cfg" Worker s'])
    show ?thesis
    proof (cases "\<exists>n \<le> fuel. ?P n")
      case True
      then have "?P (LEAST n. ?P n)" by (metis (mono_tags, lifting) LeastI)
      with True Inr probe show ?thesis unfolding main by (auto intro!: exI)
    next
      case False
      with Inr probe show ?thesis unfolding main by auto
    qed
  qed
qed

lemma handle_signals_watchdogs:
  "sd_watchdogs (handle_signals grace sigs d) = sd_watchdogs d @ map (\<lambda>(name, t). t + of_int grace) sigs"
  by (induction sigs arbitrary: d) (auto simp: handle_signal_def)

lemma handle_signals_reason:
  "sf_stopping (sd_flag d) \<Longrightarrow> sd_flag (handle_signals grace sigs d) = sd_flag d"
  by (induction sigs arbitrary: d) (auto simp: handle_signal_def request_stop_def)

lemma fold_min_le: "fold min ts (t :: rat) \<le> t \<and> (\<forall>x \<in> set ts. fold min ts t \<le> x)"
proof (induction ts arbitrary: t)
  case Nil
  show ?case by simp
next
  case (Cons a ts)
  from Cons.IH [of "min a t"] show ?case by auto
qed

lemma fold_min_in: "fold min ts (t :: rat) \<in> insert t (set ts)"
proof (induction ts arbitrary: t)
  case Nil
  show ?case by simp
next
  case (Cons a ts)
  from Cons.IH [of "min a t"] show ?case by (auto simp: min_def split: if_splits)
qed

lemma process_end_bound:
  assumes "t \<in> set (sd_watchdogs d)"
  shows "\<exists>u c. process_end d finish = Some (u, c) \<and> u \<le> t \<and>
    (if c = 0 then finish = Some u else c = EXIT_GRACE_EXCEEDED \<and> u \<in> set (sd_watchdogs d) \<and> finish \<noteq> Some u)"
proof (cases "filter (\<lambda>t. case finish of None \<Rightarrow> True | Some f \<Rightarrow> t < f) (sd_watchdogs d)")
  case Nil
  then have "\<not> (case finish of None \<Rightarrow> True | Some f \<Rightarrow> t < f)" using assms by (auto simp: filter_empty_conv)
  then obtain f where "finish = Some f" "f \<le> t" by (auto split: option.splits)
  with Nil show ?thesis by (auto simp: process_end_def)
next
  case (Cons u us)
  let ?m = "fold min us u"
  have set: "set (u # us) = {t \<in> set (sd_watchdogs d). case finish of None \<Rightarrow> True | Some f \<Rightarrow> t < f}"
    using arg_cong [OF Cons, of set] by auto
  have "?m \<in> set (u # us)" using fold_min_in [of us u] by simp
  then have m: "?m \<in> set (sd_watchdogs d)" "finish \<noteq> Some ?m"
    unfolding set by auto
  have "?m \<le> t"
  proof (cases "t \<in> set (u # us)")
    case True
    then show ?thesis using fold_min_le [of us u] by auto
  next
    case False
    then have "\<not> (case finish of None \<Rightarrow> True | Some f \<Rightarrow> t < f)" unfolding set using assms by simp
    then obtain f where f: "finish = Some f" "f \<le> t" by (auto split: option.splits)
    then have "?m < f" using \<open>?m \<in> set (u # us)\<close> unfolding set by simp
    with f show ?thesis by simp
  qed
  with m Cons show ?thesis by (auto simp: process_end_def EXIT_GRACE_EXCEEDED_def)
qed

text \<open>
  C22: After the first signal the process ends within the grace period, whether or not the job in
  flight ever finishes and however many signals follow; it ends with 0 exactly at the moment the poll
  loop returns and otherwise with 1 when a watchdog fires. The reason for the stop stays the
  first signal.
\<close>

theorem watchdog_bounds_shutdown:
  "let d = handle_signals grace ((name, t) # sigs) running in
     sf_stopping (sd_flag d) \<and> sf_reason (sd_flag d) = Some name \<and>
     (\<exists>u c. process_end d finish = Some (u, c) \<and> u \<le> t + of_int grace \<and>
        (if c = 0 then finish = Some u else c = EXIT_GRACE_EXCEEDED \<and> finish \<noteq> Some u))"
proof -
  let ?d = "handle_signals grace ((name, t) # sigs) running"
  have "sd_flag ?d = \<lparr>sf_stopping = True, sf_reason = Some name\<rparr>"
    using handle_signals_reason [of "handle_signal grace (name, t) running" grace sigs]
    by (simp add: handle_signal_def request_stop_def running_def)
  moreover have "t + of_int grace \<in> set (sd_watchdogs ?d)"
    by (simp add: handle_signals_watchdogs handle_signal_def)
  ultimately show ?thesis
    using process_end_bound [of "t + of_int grace" ?d finish] by (simp add: Let_def) (metis (full_types))
qed

lemma process_end_running: "process_end running finish = map_option (\<lambda>f. (f, 0)) finish"
  by (simp add: process_end_def running_def)

lemma process_end_code: "process_end d finish = Some (u, c) \<Longrightarrow> c \<noteq> 0 \<Longrightarrow> c = EXIT_GRACE_EXCEEDED \<and> sd_watchdogs d \<noteq> []"
  by (auto simp: process_end_def split: list.splits option.splits)

lemma process_end_returned: "process_end d finish = Some (u, 0) \<Longrightarrow> finish = Some u"
  by (auto simp: process_end_def EXIT_GRACE_EXCEEDED_def split: list.splits option.splits)

text \<open>
  C21: What the exit code of the worker says. 78 is bad configuration, and then nothing at all was
  done. Otherwise, if \<open>main\<close> returns 1 (rather than raises), the last thing the process did was a probe that found a dependency wanting; if it
  returns 0, all of them were reachable at some point and the poll loop was left because a stop was requested. The only
  exceptions that leave \<open>main\<close>, with which the interpreter also exits with 1, are that of a metrics port that cannot be bound and one of boto3 about one of the three
  clients, before any request to AWS. As long as it has not returned, the dependencies were reachable and no stop was
  requested in any iteration the fuel allows. The process ends as \<open>main\<close> does, or with 1 because a watchdog fired: then
  its worker had been started, from a valid configuration, and a signal had arrived. The hypothesis is that boto3 raises neither of
  the two exceptions the service itself uses for these ends.
\<close>

theorem worker_exit_codes:
  assumes own: "boto_raises_its_own env"
  shows "(case load_config source of
     Inl e \<Rightarrow> worker_main fuel stopping T listen source env s = Some (Inr EXIT_CONFIG, s)
   | Inr cfg \<Rightarrow>
       (case worker_main fuel stopping T listen source env s of
          None \<Rightarrow> \<exists>s1 s2 checks. readiness_run (build_clients env cfg) s1 = (Inr (True, checks), s2) \<and>
            \<not> (\<exists>n \<le> fuel. stopping ((after_turn env cfg (build_clients env cfg) Worker ^^ n) s2))
        | Some (Inl e, s') \<Rightarrow> ((\<exists>m. e = OSError m) \<or> refused_client env cfg e) \<and> wire s' = wire s
        | Some (Inr c, s') \<Rightarrow>
            if c = 0
            then \<exists>s1 s2 checks n. readiness_run (build_clients env cfg) s1 = (Inr (True, checks), s2) \<and>
              s' = (after_turn env cfg (build_clients env cfg) Worker ^^ n) s2 \<and> stopping s'
            else c = EXIT_GRACE_EXCEEDED \<and>
              (\<exists>s1 checks. readiness_run (build_clients env cfg) s1 = (Inr (False, checks), s')))) \<and>
   (case worker_process fuel stopping T listen source env signals finish s of
      None \<Rightarrow> worker_main fuel stopping T listen source env s = None \<and>
        (if signals = [] then True else sd_watchdogs (installed T listen source env s signals) = [])
    | Some r \<Rightarrow>
        if map_option fst (worker_main fuel stopping T listen source env s) = Some r then True
        else r = Inr EXIT_GRACE_EXCEEDED \<and> signals \<noteq> [] \<and>
          (\<exists>cfg wk. load_config source = Inr cfg \<and> fst (start_worker T listen env cfg s) = Inr (Inr wk)))"
    (is "?main \<and> ?process")
proof
  show ?main by (rule worker_main_outcomes [OF own])
next
  let ?d = "installed T listen source env s signals"
  let ?m = "worker_main fuel stopping T listen source env s"
  have watched: "signals \<noteq> [] \<and> (\<exists>cfg wk. load_config source = Inr cfg \<and> fst (start_worker T listen env cfg s) = Inr (Inr wk))"
    if "sd_watchdogs ?d \<noteq> []"
    using that by (auto simp: installed_def running_def handle_signals_watchdogs split: sum.splits)
  show ?process
  proof (cases "process_end ?d (map_option (\<lambda>_. finish) ?m)")
    case None
    then show ?thesis
      by (auto simp: worker_process_def process_end_def split: list.splits)
  next
    case (Some p)
    obtain u c where p: "p = (u, c)" by (cases p)
    show ?thesis
    proof (cases "c = 0")
      case True
      with Some p obtain x where "?m = Some x" by (auto dest: process_end_returned)
      with Some p True show ?thesis by (simp add: worker_process_def)
    next
      case False
      with process_end_code [of ?d _ u c] Some p watched show ?thesis by (simp add: worker_process_def)
    qed
  qed
qed

text \<open>
  An endpoint that boto3 refuses passes \<open>load_config\<close>: the worker then ends with boto3's exception, not with the
  exit code for bad configuration.
\<close>

definition sample_environ :: environ where
  "sample_environ = map_of [(''AWS_REGION'', ''r''), (''S3_BUCKET'', ''b''), (''SQS_QUEUE_URL'', ''q''), (''DYNAMODB_TABLE'', ''t''),
     (''THUMBNAIL_SIZES'', ''150''), (''AWS_ENDPOINT_URL'', ''nonsense'')]"

definition strict_boto :: "unit env" where
  "strict_boto = calm\<lparr>boto_connect := \<lambda>b w. (if bo_endpoint b = Some ''nonsense'' then Inl (ValueError ''Invalid endpoint: nonsense'') else Inr (), w)\<rparr>"

lemma sample_environ_loads: "\<exists>cfg. load_config sample_environ = Inr cfg \<and> aws_endpoint_url cfg = Some ''nonsense''"
proof -
  have "case load_config sample_environ of Inl e \<Rightarrow> False | Inr cfg \<Rightarrow> aws_endpoint_url cfg = Some ''nonsense''" by code_simp
  then show ?thesis by (simp split: sum.splits)
qed

theorem malformed_endpoint_escapes:
  "\<exists>s'. worker_main fuel stopping sample_otel (\<lambda>_ w. (None, w)) sample_environ strict_boto blank =
     Some (Inl (ValueError ''Invalid endpoint: nonsense''), s')"
proof -
  obtain cfg where cfg: "load_config sample_environ = Inr cfg" "aws_endpoint_url cfg = Some ''nonsense''"
    using sample_environ_loads by blast
  then show ?thesis
    by (simp add: worker_main_def worker_run_def start_worker_def start_tracing_def serve_metrics_def build_worker_def aws_build_def
        connect_clients_def build_client_def strict_boto_def run_simps split: prod.split)
qed

theorem worker_exit_codes_witness:
  "\<exists>s'. worker_main 0 (\<lambda>_. True) sample_otel (\<lambda>_ w. (None, w)) sample_environ strict_boto blank =
       Some (Inl (ValueError ''Invalid endpoint: nonsense''), s') \<and> wire s' = []"
proof -
  have own: "boto_raises_its_own strict_boto" by (simp add: boto_raises_its_own_def strict_boto_def)
  obtain cfg where cfg: "load_config sample_environ = Inr cfg" using sample_environ_loads by blast
  obtain s' where main: "worker_main 0 (\<lambda>_. True) sample_otel (\<lambda>_ w. (None, w)) sample_environ strict_boto blank =
       Some (Inl (ValueError ''Invalid endpoint: nonsense''), s')"
    using malformed_endpoint_escapes by blast
  from worker_exit_codes [OF own, where source = sample_environ and fuel = 0 and stopping = "\<lambda>_. True" and T = sample_otel and
      listen = "\<lambda>_ w. (None, w)" and s = blank and signals = "[]" and finish = 0] main cfg
  show ?thesis by simp
qed

text \<open>The API answers bad configuration with 78 as well, before the server is started.\<close>

lemma api_exit_config:
  "load_config source = Inl e \<Longrightarrow> api_main T uvicorn source s = (Inr EXIT_CONFIG, s)"
  by (frule load_config_error) (auto simp: api_main_def api_run_def bind_def attempt_def of_sum_def)

end
