(* ===== verification/Processes.thy ===== *)
theory Processes
  imports Discipline Application Startup
begin

text \<open>
  The two kinds of process as they run: an API replica that serves any list of requests, and a worker that waits for
  its dependencies and polls until it is stopped. Everything such a process puts on the wire, over its whole life, is in
  order, so that the theorems about interleavings are about processes and not about single calls.
\<close>

section \<open>Programs whose log is in order\<close>

definition ordered :: "'w env \<Rightarrow> config \<Rightarrow> event list \<Rightarrow> bool" where
  "ordered env cfg tr \<longleftrightarrow> paced (in_order env cfg) [] tr"

lemma ordered_append: "ordered env cfg a \<Longrightarrow> ordered env cfg b \<Longrightarrow> ordered env cfg (a @ b)"
  unfolding ordered_def paced_append by (auto intro: paced_mono [OF in_order_grows])

lemma ordered_steady: "steady (ordered env cfg)"
  by (auto simp: steady_def ordered_append) (simp add: ordered_def)

text \<open>From a specification of all logs to one log.\<close>

lemma logged: "logs (holds_of K) m \<Longrightarrow> \<exists>tr. wire (snd (m s)) = wire s @ tr \<and> K tr"
  by (auto simp: logs_def wp_def split_def)

text \<open>Requests that need nothing to have happened.\<close>

fun unconditional :: "request \<Rightarrow> bool" where
  "unconditional (DeleteMessage u rh) = False"
| "unconditional q = harmless q"

lemma unconditional_in_order: "unconditional (fst ev) \<Longrightarrow> in_order env cfg S ev"
  unfolding in_order_def due_def delete_due_def by (cases "fst ev") auto

lemma ordered_only: "logs (only unconditional) m \<Longrightarrow> logs (holds_of (ordered env cfg)) m"
  unfolding ordered_def
  by (rule steady_only) (auto intro!: paced_all in_order_grows unconditional_in_order dest: reqsD)

lemma ordered_talks: "talks (only P) m \<Longrightarrow> (\<And>q. P q \<Longrightarrow> unconditional q) \<Longrightarrow> logs (holds_of (ordered env cfg)) m"
  by (rule ordered_only, rule logs_mono, erule talks_logs) (auto simp: only_def intro: reqs_mono)

lemmas ordered_intros = steady_bind [OF ordered_steady] steady_attempt steady_basic [OF ordered_steady]

lemma ordered_modify: "(\<And>s. wire (f s) = wire s) \<Longrightarrow> logs (holds_of (ordered env cfg)) (modify f)"
  by (rule steady_silent [OF ordered_steady logs_modify])

lemma ordered_of_sum: "logs (holds_of (ordered env cfg)) (of_sum x)"
  by (rule steady_silent [OF ordered_steady logs_of_sum])

lemma ordered_sleep: "logs (holds_of (ordered env cfg)) (sleep d)"
  unfolding sleep_def by (rule ordered_modify) simp

section \<open>The API\<close>

lemma ordered_create_job: "logs (holds_of (ordered env cfg)) (create_job env cfg (build_clients env cfg) data filename content_type)"
  unfolding logs_def
proof
  fix s
  show "wp (create_job env cfg (build_clients env cfg) data filename content_type) (\<lambda>r s'. \<exists>tr. wire s' = wire s @ tr \<and> ordered env cfg tr) s"
    unfolding ordered_def by (rule wpI) (rule in_order_create_job)
qed

lemma ordered_probes:
  "list_all (\<lambda>(name, probe). logs (holds_of (ordered env cfg)) probe) probes \<Longrightarrow>
   logs (holds_of (ordered env cfg)) (run_probes probes checks ready)"
proof (induction probes arbitrary: checks ready)
  case (Cons p probes)
  obtain name probe where p: "p = (name, probe)" by (cases p)
  with Cons show ?case
    by (auto intro!: ordered_intros split: sum.split)
qed (simp add: ordered_intros)

lemma ordered_readiness: "logs (holds_of (ordered env cfg)) (readiness_run (build_clients env cfg))"
  unfolding readiness_run_def
  by (rule ordered_probes) (auto intro: ordered_talks [OF aws.store_probe] ordered_talks [OF aws.queue_probe] ordered_talks [OF aws.table_probe])

lemma ordered_get_job: "logs (holds_of (ordered env cfg)) (service_get_job (build_clients env cfg) job)"
proof -
  have "logs (only unconditional) (table_get_job (build_clients env cfg) job)"
    by (rule logs_mono [OF talks_logs [OF aws.get_job]]) (auto simp: get_trace_def only_def reqs_def)
  then show ?thesis by (auto simp: service_get_job_def intro: ordered_only ordered_intros)
qed

lemma ordered_chaos: "logs (holds_of (ordered env cfg)) (apply_chaos env ch)"
  unfolding apply_chaos_def should_fail_request_def by (auto intro!: ordered_intros ordered_sleep)

lemma ordered_count: "logs (holds_of (ordered env cfg)) (count_upload label)"
  unfolding count_upload_def by (rule ordered_modify) simp

lemma ordered_route_create_job:
  "logs (holds_of (ordered env cfg)) (route_create_job env cfg (build_clients env cfg) declared payload filename content_type)"
  unfolding route_create_job_def
  by (auto intro!: ordered_intros ordered_of_sum ordered_create_job ordered_count split: sum.split)

lemma ordered_serve: "logs (holds_of (ordered env cfg)) (serve env cfg (build_clients env cfg) page ch rq)"
proof -
  let ?C = "build_clients env cfg"
  have "logs (holds_of (ordered env cfg)) (run_route env cfg ?C page ch rt)" for rt
    by (cases rt)
      (auto simp: run_route_def healthz_def readyz_def route_get_job_def
        intro!: ordered_intros ordered_chaos ordered_route_create_job ordered_get_job ordered_readiness)
  moreover have "logs (holds_of (ordered env cfg)) (handle_exception e)" for e
    by (cases e) (auto intro!: ordered_intros ordered_count)
  ultimately have handled: "logs (holds_of (ordered env cfg)) (with_handlers (run_route env cfg ?C page ch rt))" for rt
    unfolding with_handlers_def by (auto intro!: ordered_intros split: sum.split)
  show ?thesis
    unfolding serve_def dispatch_def Let_def record_http_def
    by (intro ordered_intros handled ordered_modify ordered_of_sum) simp
qed

lemma ordered_session: "logs (holds_of (ordered env cfg)) (session env cfg (build_clients env cfg) page ch rqs)"
proof (induction rqs arbitrary: ch)
  case (Cons rq rqs)
  show ?case unfolding session.simps by (intro ordered_intros ordered_serve Cons.IH)
qed (simp add: ordered_intros)

lemma ordered_connect: "logs (holds_of (ordered env cfg)) (connect_clients env cfg')"
  by (rule steady_silent [OF ordered_steady quiet_connect])

lemma ordered_app_session:
  "app_config app = cfg \<Longrightarrow> logs (holds_of (ordered env cfg)) (app_session env None page app rqs)"
  unfolding app_session_started by (auto intro!: ordered_intros ordered_connect ordered_session)

section \<open>The worker\<close>

lemma ordered_wait: "logs (holds_of (ordered env cfg)) (wait_for_dependencies (build_clients env cfg) n base_dl max_dl)"
proof -
  have "logs (holds_of (ordered env cfg)) (wait_from (readiness_run (build_clients env cfg)) n base_dl max_dl k failures)" for k failures
  proof (induction "nat (n + 1 - k)" arbitrary: k failures)
    case 0
    then show ?case by (subst wait_from.simps) (simp add: ordered_intros)
  next
    case (Suc x)
    then have "x = nat (n + 1 - (k + 1))" by simp
    from Suc.hyps(1) [OF this] show ?case
      by (subst wait_from.simps) (auto intro!: ordered_intros ordered_readiness ordered_sleep)
  qed
  then show ?thesis unfolding wait_for_dependencies_def .
qed

lemma ordered_build_worker: "logs (holds_of (ordered env cfg)) (build_worker env cfg)"
  unfolding build_worker_def aws_build_bind by (intro ordered_intros ordered_connect ordered_wait)

lemma ordered_turn: "logs (holds_of (ordered env cfg)) (run_turn env cfg (build_clients env cfg) wk)"
  unfolding run_turn_def
  by (auto intro!: ordered_intros ordered_sleep in_order_run_once [folded ordered_def] split: sum.split)

text \<open>However many turns the loop makes.\<close>

lemma ordered_worker:
  "run_worker fuel stopping env cfg (build_clients env cfg) wk s = Some (r, s') \<Longrightarrow> \<exists>tr. wire s' = wire s @ tr \<and> ordered env cfg tr"
proof (induction fuel arbitrary: s)
  case 0
  then show ?case
    by (subst (asm) run_worker.simps) (auto simp: ordered_def split: if_splits)
next
  case (Suc fuel)
  show ?case
  proof (cases "stopping s")
    case True
    with Suc.prems show ?thesis by (subst (asm) run_worker.simps) (auto simp: ordered_def)
  next
    case False
    obtain q s1 where turn: "run_turn env cfg (build_clients env cfg) wk s = (q, s1)" by fastforce
    from ordered_turn [unfolded logs_def, rule_format, of env cfg wk s] turn obtain t1 where
      t1: "wire s1 = wire s @ t1" "ordered env cfg t1" by (auto simp: wp_def)
    show ?thesis
    proof (cases q)
      case (Inl e)
      with Suc.prems False turn t1 show ?thesis by (subst (asm) run_worker.simps) auto
    next
      case (Inr x)
      with Suc.prems False turn have "run_worker fuel stopping env cfg (build_clients env cfg) wk s1 = Some (r, s')"
        by (subst (asm) run_worker.simps) simp
      from Suc.IH [OF this] t1 show ?thesis by (auto intro: ordered_append)
    qed
  qed
qed

end
