(* ===== verification/Progress.thy ===== *)
theory Progress
  imports Lifecycle
begin

text \<open>
  What the program does when nothing fails: the safety theorems hold of a worker that never completes a job,
  these theorems do not. \<open>returns P m\<close> is total correctness of one program: it ends without an exception, and its
  result satisfies \<open>P\<close>. The last part is about an upload whose message is not taken by the queue, with the record marked
  \<open>FAILED\<close> by a table that takes it.
\<close>

definition returns :: "('a \<Rightarrow> bool) \<Rightarrow> ('w, 'a) prog \<Rightarrow> bool" where
  "returns P m \<longleftrightarrow> (\<forall>s. wp m (\<lambda>r s'. \<exists>x. r = Inr x \<and> P x) s)"

abbreviation succeeds :: "('w, 'a) prog \<Rightarrow> bool" where
  "succeeds m \<equiv> returns (\<lambda>_. True) m"

lemma returns_iff: "returns P m \<longleftrightarrow> (\<forall>s. \<exists>x s'. m s = (Inr x, s') \<and> P x)"
proof -
  have "wp m (\<lambda>r s'. \<exists>x. r = Inr x \<and> P x) s \<longleftrightarrow> (\<exists>x s'. m s = (Inr x, s') \<and> P x)" for s
    by (cases "m s") (auto simp: wp_def)
  then show ?thesis by (simp add: returns_def)
qed

lemma returns_mono: "returns P m \<Longrightarrow> (\<And>x. P x \<Longrightarrow> Q x) \<Longrightarrow> returns Q m"
  unfolding returns_iff by blast

lemma returns_bind: "returns P m \<Longrightarrow> (\<And>x. P x \<Longrightarrow> returns Q (f x)) \<Longrightarrow> returns Q (bind m f)"
  unfolding returns_iff bind_def by (auto split: prod.split sum.split) (metis sum.inject(2) prod.inject sum.distinct(2))+

lemma returns_return: "P x \<Longrightarrow> returns P (return x)"
  by (simp add: returns_iff return_def)

lemma returns_modify: "succeeds (modify f)"
  by (simp add: returns_iff modify_def)

lemma returns_ask: "succeeds (ask f)"
  by (simp add: returns_iff ask_def split: prod.split)

lemma returns_ask_io: "(\<And>w. \<exists>x. fst (f w) = Inr x \<and> P x) \<Longrightarrow> returns P (ask_io f)"
  unfolding returns_iff ask_io_def by (auto split: prod.split) (metis fst_conv)

lemma returns_of_sum: "r = Inr x \<Longrightarrow> P x \<Longrightarrow> returns P (of_sum r)"
  by (simp add: returns_iff of_sum_def)

lemma returns_attempt: "returns P m \<Longrightarrow> returns (\<lambda>r. \<exists>x. r = Inr x \<and> P x) (attempt m)"
  unfolding returns_iff attempt_def by (auto split: prod.split) (metis prod.inject)

lemma returns_try: "succeeds (attempt m)"
  by (simp add: returns_iff attempt_def split: prod.split)

lemma returns_finalize: "returns P m \<Longrightarrow> returns (\<lambda>_. True) f \<Longrightarrow> returns P (finalize m f)"
  unfolding returns_iff finalize_def by (auto split: prod.split sum.split) (metis prod.inject sum.distinct(2))+

lemma succeeds_bind: "succeeds m \<Longrightarrow> (\<And>x. succeeds (f x)) \<Longrightarrow> succeeds (bind m f)"
  by (rule returns_bind)

lemma succeeds_return: "succeeds (return x)"
  by (rule returns_return) (rule TrueI)

lemma returns_if: "(b \<Longrightarrow> returns P m) \<Longrightarrow> (\<not> b \<Longrightarrow> returns P m') \<Longrightarrow> returns P (if b then m else m')"
  by simp

text \<open>A call that AWS answers goes through the retry loop at the first attempt.\<close>

lemma returns_call:
  assumes "\<And>w. \<exists>x. fst (f w) = Inr x \<and> P x" "0 < attempts p"
  shows "returns (\<lambda>r. \<exists>x. r = Some x \<and> P x) (call_with_retry env (on_wire q sh f) operation p codes)"
  unfolding returns_iff
proof
  fix s :: "'a st"
  obtain x w where f: "f (world s) = (Inr x, w)" "P x"
    using assms(1) [of "world s"] by (cases "f (world s)") auto
  have "on_wire q sh f s = (Inr x, s\<lparr>world := w, wire := wire s @ [(q, Returned (sh x))]\<rparr>)"
    by (simp add: on_wire_def f)
  from retry_first [of p "on_wire q sh f" s, OF assms(2) this] f(2)
  show "\<exists>x s'. call_with_retry env (on_wire q sh f) operation p codes s = (Inr x, s') \<and> (\<exists>y. x = Some y \<and> P y)"
    by blast
qed

lemmas returns_done = returns_return returns_modify returns_ask

lemma returns_jq_call:
  assumes "\<And>w. \<exists>x. fst (f w) = Inr x \<and> P x" "0 < attempts (jq_policy Q)"
  shows "returns (\<lambda>r. \<exists>x. r = Some x \<and> P x) (jq_call env Q operation (on_wire q sh f))"
  unfolding jq_call_def
  by (rule returns_bind [OF returns_attempt [OF returns_call [OF assms]]]) (auto intro!: returns_return)

section \<open>A healthy environment\<close>

text \<open>Every request is answered; the record exists and is not complete; Pillow renders any bytes.\<close>

definition aws_answers :: "'w env \<Rightarrow> bool" where
  "aws_answers env \<longleftrightarrow>
     (\<forall>b k d t w. fst (put_object env b k d t w) = Inr ()) \<and> (\<forall>b k w. fst (get_object env b k w) = Inr ()) \<and>
     (\<forall>b k w. \<exists>d. fst (read_body env b k w) = Inr d) \<and> (\<forall>u b a w. \<exists>m. fst (send_message env u b a w) = Inr m) \<and>
     (\<forall>u h w. fst (delete_message env u h w) = Inr ()) \<and> (\<forall>t i w. fst (put_item env t i w) = Inr ()) \<and>
     (\<forall>t j u c ns vs w. fst (update_item env t j u c ns vs w) = Inr ())"

definition disk_works :: "'w env \<Rightarrow> bool" where
  "disk_works env \<longleftrightarrow>
     (\<forall>p w. \<exists>d. fst (mkdtemp env p w) = Inr d) \<and> (\<forall>p d w. fst (write_file env p d w) = Inr ()) \<and>
     (\<forall>p w. \<exists>d. fst (read_file env p w) = Inr d)"

definition job_waits :: "'w env \<Rightarrow> string \<Rightarrow> bool" where
  "job_waits env job \<longleftrightarrow>
     (\<forall>t w. \<exists>i rc. fst (get_item env t job (Some True) w) = Inr (Some i) \<and> i \<noteq> [] \<and> decode_item env i = Inr rc \<and> jr_status rc \<noteq> COMPLETE)"

definition renders :: "'w env \<Rightarrow> int list \<Rightarrow> bool" where
  "renders env sizes \<longleftrightarrow> (\<forall>payload. \<exists>x. render_payload (pil env) (lib_str env) payload sizes = Inr x)"

lemma aws_answersD:
  assumes "aws_answers env"
  shows "fst (put_object env b k d t w) = Inr ()" "fst (get_object env b k w) = Inr ()" "\<exists>d. fst (read_body env b k w) = Inr d"
    "\<exists>m. fst (send_message env u bd a w) = Inr m" "fst (delete_message env u h w) = Inr ()" "fst (put_item env t i w) = Inr ()"
    "fst (update_item env t j up c ns vs w) = Inr ()"
  using assms by (simp_all add: aws_answers_def)

lemma returns_update:
  assumes "aws_answers env" "0 < attempts (jt_policy T)"
  shows "succeeds (update_call env T job u c ns vs)"
  unfolding update_call_def
  by (rule returns_bind [OF returns_call [where P = "\<lambda>_. True"]]) (auto simp: aws_answersD assms intro: returns_done)

lemma returns_delete:
  assumes "aws_answers env" "0 < attempts (jq_policy Q)"
  shows "succeeds (jq_delete env Q rh)"
  unfolding jq_delete_def
  by (rule returns_bind [OF returns_jq_call [where P = "\<lambda>_. True"]]) (auto simp: aws_answersD assms intro: returns_done)

lemma returns_put_bytes:
  assumes "aws_answers env" "0 < attempts (ss_policy S)"
  shows "succeeds (s3_put_bytes env S key data ct)"
  unfolding s3_put_bytes_def
  by (rule returns_bind [OF returns_call [where P = "\<lambda>_. True"]]) (auto simp: aws_answersD assms intro: returns_done)

lemma returns_read_body:
  assumes "aws_answers env"
  shows "succeeds (on_wire (ReadBody b k) no_answer (read_body env b k))"
  unfolding returns_iff
proof
  fix s :: "'a st"
  obtain d w where "read_body env b k (world s) = (Inr d, w)"
    using aws_answersD(3) [OF assms, of b k "world s"] by (cases "read_body env b k (world s)") auto
  then show "\<exists>x s'. on_wire (ReadBody b k) no_answer (read_body env b k) s = (Inr x, s') \<and> True"
    by (simp add: on_wire_def)
qed

lemma returns_download:
  assumes "aws_answers env" "disk_works env" "0 < attempts (ss_policy S)"
  shows "succeeds (s3_download_to env S key destination)"
proof -
  have "succeeds (s3_get_bytes env S key)"
    unfolding s3_get_bytes_def
    by (rule returns_bind [OF returns_call [where P = "\<lambda>_. True"]])
      (auto simp: aws_answersD assms intro: returns_read_body)
  moreover have "succeeds (ask_io (write_file env destination d))" for d
    using assms(2) by (intro returns_ask_io) (simp add: disk_works_def)
  ultimately show ?thesis
    unfolding s3_download_to_def by (intro succeeds_bind succeeds_return)
qed

lemma returns_get_job:
  assumes "job_waits env job" "0 < attempts (jt_policy T)"
  shows "returns (\<lambda>r. \<exists>rc. r = Some rc \<and> jr_status rc \<noteq> COMPLETE) (jt_get_job env T job)"
proof -
  let ?P = "\<lambda>r. \<exists>i rc. r = Some i \<and> i \<noteq> [] \<and> decode_item env i = Inr rc \<and> jr_status rc \<noteq> COMPLETE"
  have "\<exists>x. fst (get_item env (jt_name T) job (Some True) w) = Inr x \<and> ?P x" for w
    using assms(1) unfolding job_waits_def by fastforce
  from returns_call [OF this assms(2)] show ?thesis
    unfolding jt_get_job_def
    by (rule returns_bind) (auto intro!: returns_bind [OF returns_of_sum [where P = "\<lambda>rc. jr_status rc \<noteq> COMPLETE"]] returns_return)
qed

lemma returns_mark_processing:
  assumes "aws_answers env" "0 < attempts (jt_policy T)"
  shows "returns (\<lambda>won. won) (jt_mark_processing env T job)"
  unfolding jt_mark_processing_def
  by (rule returns_bind [OF returns_ask]) (rule returns_bind [OF returns_attempt [OF returns_update [OF assms]]], auto intro: returns_return)

lemma returns_mark_complete:
  assumes "aws_answers env" "0 < attempts (jt_policy T)"
  shows "succeeds (jt_mark_complete env T job os ex w h f ms)"
  unfolding jt_mark_complete_def by (rule returns_bind [OF returns_ask returns_update [OF assms]])

section \<open>The worker completes the job\<close>

lemma build_clients_simps [simp]:
  "store_put_bytes (build_clients env cfg) = s3_put_bytes env (client_store cfg)"
  "store_download_to (build_clients env cfg) = s3_download_to env (client_store cfg)"
  "queue_send_job (build_clients env cfg) = jq_send_job env (client_queue cfg)"
  "queue_delete (build_clients env cfg) = jq_delete env (client_queue cfg)"
  "table_put_job (build_clients env cfg) = jt_put_job env (client_table cfg)"
  "table_get_job (build_clients env cfg) = jt_get_job env (client_table cfg)"
  "table_mark_processing (build_clients env cfg) = jt_mark_processing env (client_table cfg)"
  "table_mark_complete (build_clients env cfg) = jt_mark_complete env (client_table cfg)"
  by (simp_all add: build_clients_def Let_def)

lemma returns_beats: "succeeds (beats C rh extension n)"
proof (induction n)
  case 0
  show ?case by (simp add: returns_return)
next
  case (Suc n)
  have "succeeds (beat C rh extension)"
    unfolding beat_def by (rule returns_bind [OF returns_try]) (rule returns_return, rule TrueI)
  then show ?case unfolding beats.simps by (rule returns_bind) (rule Suc.IH)
qed

lemma returns_tick: "succeeds (worker_tick env C wk rh)"
  unfolding worker_tick_def heartbeat_def by (rule returns_bind [OF returns_ask returns_beats])

lemma returns_stage: "returns P body \<Longrightarrow> returns P (stage env name body)"
  unfolding stage_def
  by (rule returns_bind [OF returns_ask], rule returns_finalize, assumption,
      rule returns_bind [OF returns_ask returns_modify])

lemma returns_cleanup: "succeeds (cleanup_workspace env path)"
  unfolding cleanup_workspace_def drop_dir_def
  by (intro returns_bind [OF returns_ask] returns_if returns_modify returns_return TrueI)

lemma returns_upload_thumbs:
  assumes "aws_answers env" "returns (\<lambda>_. True) tick"
  shows "succeeds (upload_thumbs (build_clients env cfg) tick job ts os)"
proof (induction ts arbitrary: os)
  case Nil
  show ?case by (simp add: returns_return)
next
  case (Cons t ts)
  have put: "succeeds (s3_put_bytes env (client_store cfg) k d ct)" for k d ct
    by (rule returns_put_bytes [OF assms(1)]) simp
  show ?case
    unfolding upload_thumbs.simps build_clients_simps by (intro succeeds_bind put assms(2) Cons.IH)
qed

lemma returns_render_job:
  assumes env: "aws_answers env" "disk_works env" "renders env sizes" and tick: "returns (\<lambda>_. True) tick"
  shows "succeeds (render_job env (build_clients env cfg) tick sizes job)"
proof -
  have get: "succeeds (s3_download_to env (client_store cfg) k p)" for k p
    by (rule returns_download [OF env(1,2)]) simp
  have render: "succeeds (render_thumbnails env (FromPath p) sizes)" for p
  proof -
    have "succeeds (ask_io (read_file env p))"
      using env(2) by (intro returns_ask_io) (simp add: disk_works_def)
    moreover have "succeeds (of_sum (render_payload (pil env) (lib_str env) d sizes))" for d
      using env(3) by (auto simp: renders_def intro: returns_of_sum)
    ultimately show ?thesis unfolding render_thumbnails_def image_source.case by (rule returns_bind)
  qed
  have dir: "succeeds (ask_io (mkdtemp env p))" for p
    using env(2) by (intro returns_ask_io) (simp add: disk_works_def)
  show ?thesis
    unfolding render_job_def temp_workspace_def Let_def build_clients_simps
    by (intro succeeds_bind dir returns_modify returns_finalize returns_cleanup returns_stage get tick render
        succeeds_return returns_upload_thumbs [OF env(1) tick] | clarsimp split: prod.split)+
qed

lemma returns_work:
  assumes env: "aws_answers env" "disk_works env" "renders env (thumbnail_sizes cfg)"
  shows "returns (\<lambda>k. k = COMPLETED) (work env cfg (build_clients env cfg) wk job rh)"
proof -
  have complete: "succeeds (jt_mark_complete env (client_table cfg) j os ex w h f ms)" for j os ex w h f ms
    by (rule returns_mark_complete [OF env(1)]) simp
  have del: "succeeds (jq_delete env (client_queue cfg) rh)" for rh
    by (rule returns_delete [OF env(1)]) simp
  have "returns (\<lambda>k. k = COMPLETED) (render_and_complete env cfg (build_clients env cfg) wk job rh started)" for started
    unfolding render_and_complete_def Let_def build_clients_simps count_job_def observe_job_def
    by (intro returns_bind [OF returns_render_job [OF env returns_tick]] returns_bind [OF returns_ask]
        returns_bind [OF complete] returns_bind [OF del] returns_bind [OF returns_modify] returns_return refl)
  then have "returns (\<lambda>k. k = COMPLETED)
      (bind (attempt (render_and_complete env cfg (build_clients env cfg) wk job rh started)) (\<lambda>r. case r of
             Inr outcome \<Rightarrow> return outcome
           | Inl e \<Rightarrow> settle_failure env (build_clients env cfg) job rh started e))" for started
    by (rule returns_bind [OF returns_attempt]) (auto intro: returns_return)
  then show ?thesis
    unfolding work_def by (intro returns_bind [OF returns_modify] returns_bind [OF returns_ask] returns_finalize returns_modify)
qed

lemma returns_process_job:
  assumes env: "aws_answers env" "disk_works env" "renders env (thumbnail_sizes cfg)" "job_waits env (jm_job_id job)"
    and bucket: "jm_bucket job = s3_bucket cfg"
  shows "returns (\<lambda>k. k = COMPLETED) (process_job env cfg (build_clients env cfg) wk job rh)"
proof -
  have get: "returns (\<lambda>r. \<exists>rc. r = Some rc \<and> jr_status rc \<noteq> COMPLETE) (jt_get_job env (client_table cfg) (jm_job_id job))"
    by (rule returns_get_job [OF env(4)]) simp
  have mark: "returns (\<lambda>won. won) (jt_mark_processing env (client_table cfg) (jm_job_id job))"
    by (rule returns_mark_processing [OF env(1)]) simp
  have "returns (\<lambda>k. k = COMPLETED) (claim_and_work env cfg (build_clients env cfg) wk job rh)"
    unfolding claim_and_work_def build_clients_simps
    by (rule returns_bind [OF returns_attempt [OF mark]]) (auto intro: returns_work [OF env(1-3)])
  then show ?thesis
    unfolding process_job_def build_clients_simps
    by (intro returns_bind [OF returns_attempt [OF get]]) (auto simp: bucket)
qed

lemma delivery_completes:
  assumes "aws_answers env" "disk_works env" "renders env (thumbnail_sizes cfg)"
    and "parse_message env (opt_get [] (Body m)) = Inr job" "jm_schema_version job \<le> MESSAGE_SCHEMA_VERSION"
    and "job_waits env (jm_job_id job)" "jm_bucket job = s3_bucket cfg"
  shows "fst (handle_message env cfg (build_clients env cfg) wk m s) = Inr COMPLETED"
proof -
  have "returns (\<lambda>k. k = COMPLETED) (handle_message env cfg (build_clients env cfg) wk m)"
    using assms(4,5) returns_process_job [OF assms(1-3,6,7), of wk "receipt m"]
    by (auto simp: handle_message_def bind_job_context_def clear_job_context_def
        intro!: returns_bind [OF returns_modify] returns_finalize returns_modify)
  then show ?thesis by (auto simp: returns_iff) (metis fst_conv)
qed

text \<open>
  C6: A job that can be done gets done. If every request of the worker is answered, its disk works, the record
  exists and is not \<open>COMPLETE\<close>, and Pillow renders the image, then handling a message of the supported schema
  for the configured bucket ends in \<open>COMPLETED\<close>, without an exception.
\<close>

theorem healthy_delivery_completes:
  assumes "aws_answers env" "disk_works env" "renders env (thumbnail_sizes cfg)"
    and "parse_message env (opt_get [] (Body m)) = Inr job" "jm_schema_version job \<le> MESSAGE_SCHEMA_VERSION"
    and "job_waits env (jm_job_id job)" "jm_bucket job = s3_bucket cfg"
  shows "fst (handle_message env cfg (build_clients env cfg) wk m s) = Inr COMPLETED"
  using assms by (rule delivery_completes)

section \<open>The API accepts the upload\<close>

lemma returns_put_job:
  assumes "aws_answers env" "0 < attempts (jt_policy T)"
  shows "succeeds (jt_put_job env T r)"
  unfolding jt_put_job_def Let_def
  by (rule returns_bind [OF returns_call [where P = "\<lambda>_. True"]]) (auto simp: aws_answersD assms intro: returns_done)

lemma returns_send_job:
  assumes "aws_answers env" "0 < attempts (jq_policy Q)"
  shows "succeeds (jq_send_job env Q body attrs)"
  unfolding jq_send_job_def Let_def
  by (rule returns_bind [OF returns_jq_call [where P = "\<lambda>_. True"]]) (auto simp: aws_answersD assms intro: succeeds_return)

lemma healthy_upload:
  assumes "aws_answers env" "upload_refusal env cfg data content_type = None"
  shows "\<exists>rc. fst (create_job env cfg (build_clients env cfg) data filename content_type s) = Inr rc \<and> jr_status rc = PENDING"
proof -
  have put: "succeeds (s3_put_bytes env (client_store cfg) k d t)" for k d t
    by (rule returns_put_bytes [OF assms(1)]) simp
  have rec: "succeeds (jt_put_job env (client_table cfg) rc)" for rc
    by (rule returns_put_job [OF assms(1)]) simp
  have send: "succeeds (jq_send_job env (client_queue cfg) body attrs)" for body attrs
    by (rule returns_send_job [OF assms(1)]) simp
  obtain probe where probe: "validate_upload cfg content_type (int (length data)) = Inr ()" "probe_upload env data = Inr probe"
    using assms(2) by (auto simp: upload_refusal_def split: sum.splits)
  have prepare: "returns (\<lambda>rc. jr_status rc = PENDING) (prepare_job env cfg data filename content_type)"
    unfolding prepare_job_def probe
    by (intro returns_bind [OF returns_of_sum [where P = "\<lambda>_. True"]] returns_bind [OF returns_ask] returns_return)
      (auto simp: new_record_def)
  have "succeeds (enqueue env cfg (build_clients env cfg) rc attrs)" for rc attrs
    unfolding enqueue_def build_clients_simps
    by (rule returns_bind [OF returns_attempt [OF send]]) (auto intro: succeeds_return)
  then have store: "succeeds (store_and_enqueue env cfg (build_clients env cfg) data rc)" for rc
    unfolding store_and_enqueue_def job_attributes_def build_clients_simps
    by (intro succeeds_bind put rec returns_ask succeeds_return)
  have "returns (\<lambda>rc. jr_status rc = PENDING) (create_job env cfg (build_clients env cfg) data filename content_type)"
    unfolding create_job_def count_accepted_def
    by (intro returns_bind [OF prepare] returns_bind [OF store] returns_bind [OF returns_modify] returns_return)
  then show ?thesis by (auto simp: returns_iff) (metis fst_conv)
qed

text \<open>
  C17: A valid upload is accepted: if the upload passes the checks and every request is answered, \<open>create_job\<close>
  returns a \<open>PENDING\<close> record.
\<close>

theorem healthy_upload_is_accepted:
  assumes "aws_answers env" "upload_refusal env cfg data content_type = None"
  shows "\<exists>rc. fst (create_job env cfg (build_clients env cfg) data filename content_type s) = Inr rc \<and> jr_status rc = PENDING"
  using assms by (rule healthy_upload)

section \<open>The record of a job that could not be queued\<close>

text \<open>
  \<open>mark_unqueueable\<close> swallows its own failure, so the record is marked only if the table takes the write.
  \<open>table_answers\<close>: it does. No \<open>PutItem\<close> of an upload is refused then.
\<close>

definition table_answers :: "'w env \<Rightarrow> bool" where
  "table_answers env \<longleftrightarrow> (\<forall>t i w. fst (put_item env t i w) = Inr ())"

fun put_refused :: "event \<Rightarrow> bool" where
  "put_refused (PutItem t i, Raised e) \<longleftrightarrow> True"
| "put_refused ev \<longleftrightarrow> False"

definition puts_taken :: "event list \<Rightarrow> bool" where
  "puts_taken tr \<longleftrightarrow> \<not> list_ex put_refused tr"

lemma steady_puts: "steady puts_taken"
  by (simp add: steady_def puts_taken_def)

lemma puts_taken_other: "call_trace q no_answer tr r \<Longrightarrow> (\<And>t i. q \<noteq> PutItem t i) \<Longrightarrow> puts_taken tr"
  unfolding puts_taken_def list_ex_iff
proof
  assume a: "call_trace q no_answer tr r" "\<And>t i. q \<noteq> PutItem t i" and "\<exists>ev \<in> set tr. put_refused ev"
  then obtain ev where ev: "ev \<in> set tr" "put_refused ev" by blast
  with call_trace_request [OF a(1)] have "fst ev = q" by blast
  with ev(2) a(2) show False by (cases ev rule: put_refused.cases) auto
qed

lemma marks_taken: "marks \<noteq> [] \<Longrightarrow> reqs (\<lambda>q. q = PutItem t i) marks \<Longrightarrow> \<not> list_ex put_refused marks \<Longrightarrow> ok (last marks)"
proof -
  assume a: "marks \<noteq> []" "reqs (\<lambda>q. q = PutItem t i) marks" "\<not> list_ex put_refused marks"
  then have "fst (last marks) = PutItem t i" "\<not> put_refused (last marks)"
    by (auto simp: reqs_def list_ex_iff)
  then show ?thesis by (cases "last marks" rule: put_refused.cases) auto
qed

lemma puts_taken_put:
  assumes "table_answers env"
  shows "logs (holds_of puts_taken) (table_put_job (build_clients env cfg) rc)"
proof -
  let ?q = "PutItem (dynamodb_table cfg) (to_dynamo_dict (to_item rc))"
  let ?f = "put_item env (dynamodb_table cfg) (to_dynamo_dict (to_item rc))"
  have "\<exists>s'. call_with_retry env (on_wire ?q no_answer ?f) ''dynamodb.put_item'' (jt_policy (client_table cfg)) [] s = (Inr (Some ()), s') \<and>
      wire s' = wire s @ [(?q, Returned PNone)]" for s :: "'a st"
  proof -
    obtain w where "?f (world s) = (Inr (), w)"
      using assms by (cases "?f (world s)") (metis fst_conv table_answers_def)
    then have "on_wire ?q no_answer ?f s = (Inr (), s\<lparr>world := w, wire := wire s @ [(?q, Returned PNone)]\<rparr>)"
      by (simp add: on_wire_def)
    from retry_first [where func = "on_wire ?q no_answer ?f", OF _ this] show ?thesis by simp
  qed
  then have "logs (\<lambda>tr r. tr = [(?q, Returned PNone)])
      (call_with_retry env (on_wire ?q no_answer ?f) ''dynamodb.put_item'' (jt_policy (client_table cfg)) [])"
    unfolding logs_def wp_def by (metis (mono_tags, lifting) case_prod_conv)
  then have "logs (holds_of puts_taken)
      (call_with_retry env (on_wire ?q no_answer ?f) ''dynamodb.put_item'' (jt_policy (client_table cfg)) [])"
    by (rule logs_mono) (simp add: puts_taken_def)
  then show ?thesis
    unfolding build_clients_simps jt_put_job_def Let_def client_names
    by (intro steady_bind steady_basic steady_puts)
qed

lemma puts_taken_upload:
  assumes "table_answers env"
  shows "logs (holds_of puts_taken) (create_job env cfg (build_clients env cfg) data filename content_type)"
proof -
  have put: "logs (holds_of puts_taken) (store_put_bytes (build_clients env cfg) k d t)" for k d t
    by (rule logs_mono [OF talks_logs [OF aws.put_bytes]]) (auto intro: puts_taken_other)
  have send: "logs (holds_of puts_taken) (queue_send_job (build_clients env cfg) body attrs)" for body attrs
    by (rule logs_mono [OF talks_logs [OF aws.send_job]]) (auto intro: puts_taken_other)
  have mark: "logs (holds_of puts_taken) (mark_unqueueable env (build_clients env cfg) rc e)" for rc e
    unfolding mark_unqueueable_def
    by (intro steady_bind steady_attempt steady_basic steady_puts puts_taken_put assms)
  have enqueue: "logs (holds_of puts_taken) (enqueue env cfg (build_clients env cfg) rc attrs)" for rc attrs
    unfolding enqueue_def
    by (rule steady_bind [OF steady_puts steady_attempt [OF send]])
      (auto intro!: steady_bind steady_basic steady_puts mark split: sum.split)
  have store: "logs (holds_of puts_taken) (store_and_enqueue env cfg (build_clients env cfg) data rc)" for rc
    unfolding store_and_enqueue_def job_attributes_def
    by (intro steady_bind steady_basic steady_puts put puts_taken_put enqueue assms)
  show ?thesis
    unfolding create_job_def count_accepted_def
    by (intro steady_bind steady_silent [OF steady_puts talks_logs [OF talks_prepare_job]] steady_puts store
        steady_silent [OF steady_puts logs_modify] steady_basic) simp
qed

text \<open>
  C16: When every attempt to send the message failed, the outcome is \<open>EnqueueFailedError\<close> with the error of the
  sending, and the log splits in three: before the first send the record was stored; then the refused sends of
  the message of that very record; then nothing but the write of the same record, under the same job id, as \<open>FAILED\<close>.
  This write is attempted in any case, its last attempt is the accepted one if any is, and it is accepted if the
  table takes writes: a poller is then not left with a job that stays \<open>PENDING\<close> for ever.
\<close>

theorem enqueue_failure_marks_failed:
  "wp (create_job env cfg (build_clients env cfg) data filename content_type)
     (\<lambda>r s'. \<exists>tr. wire s' = wire s @ tr \<and>
        (if list_ex (\<lambda>ev. is_send (fst ev)) tr \<and> \<not> list_ex (\<lambda>ev. is_send (fst ev) \<and> ok ev) tr
         then \<exists>rc e updated completed stored sends marks.
           fresh_record env data filename content_type rc \<and>
           r = Inl (EnqueueFailedError (exn_str (lib_str env) e)) \<and>
           tr = stored @ sends @ marks \<and>
           (PutItem (dynamodb_table cfg) (to_dynamo_dict (to_item rc)), Returned PNone) \<in> set stored \<and>
           sends \<noteq> [] \<and> \<not> list_ex ok sends \<and>
           reqs (\<lambda>q. \<exists>attrs. q = SendMessage (sqs_queue_url cfg) (dump_message env (new_message cfg rc)) attrs) sends \<and>
           marks \<noteq> [] \<and>
           reqs (\<lambda>q. q = PutItem (dynamodb_table cfg) (to_dynamo_dict (to_item (unqueueable rc e updated completed)))) marks \<and>
           dict_get (to_item (unqueueable rc e updated completed)) ''job_id'' = Some (PStr (jr_job_id rc)) \<and>
           dict_get (to_item (unqueueable rc e updated completed)) ''status'' = Some (PStr ''FAILED'') \<and>
           (if list_ex ok marks \<or> table_answers env then ok (last marks) else True)
         else True)) s" (is "wp _ ?Q s")
proof -
  have "wp (create_job env cfg (build_clients env cfg) data filename content_type)
     (\<lambda>r s'. \<exists>tr. wire s' = wire s @ tr \<and> (if table_answers env then puts_taken tr else True)) s"
  proof (cases "table_answers env")
    case True
    with puts_taken_upload [OF True, of cfg data filename content_type] show ?thesis by (simp add: logs_def)
  next
    case False
    show ?thesis by (rule wp_mono [OF unsent_upload]) (use False in auto)
  qed
  from wp_conj [OF unsent_upload this] show ?thesis
  proof (rule wp_mono, elim conjE exE)
    fix r :: "exn + job_record" and s' :: "'a st" and tr tr'
    assume w: "wire s' = wire s @ tr" "wire s' = wire s @ tr'" "if table_answers env then puts_taken tr' else True"
      and l: "if list_ex (\<lambda>ev. is_send (fst ev)) tr \<and> \<not> list_ex (\<lambda>ev. is_send (fst ev) \<and> ok ev) tr
         then \<exists>rc e stored sends marks. fresh_record env data filename content_type rc \<and>
           r = Inl (EnqueueFailedError (exn_str (lib_str env) e)) \<and> tr = stored @ sends @ marks \<and>
           left_unqueued env cfg rc e stored sends marks
         else True"
    show "?Q r s'"
    proof (cases "list_ex (\<lambda>ev. is_send (fst ev)) tr \<and> \<not> list_ex (\<lambda>ev. is_send (fst ev) \<and> ok ev) tr")
      case True
      with l obtain rc e stored sends marks where u: "fresh_record env data filename content_type rc"
          "r = Inl (EnqueueFailedError (exn_str (lib_str env) e))" "tr = stored @ sends @ marks"
          "left_unqueued env cfg rc e stored sends marks" by auto
      obtain updated completed where m: "marks \<noteq> []"
          "reqs (\<lambda>q. q = PutItem (dynamodb_table cfg) (to_dynamo_dict (to_item (unqueueable rc e updated completed)))) marks"
          "if list_ex ok marks then ok (last marks) else True"
          "dict_get (to_item (unqueueable rc e updated completed)) ''job_id'' = Some (PStr (jr_job_id rc))"
          "dict_get (to_item (unqueueable rc e updated completed)) ''status'' = Some (PStr ''FAILED'')"
        by (rule left_unqueued_marks [OF u(4)])
      have "if list_ex ok marks \<or> table_answers env then ok (last marks) else True"
        using m(3) marks_taken [OF m(1,2)] w u(3) by (auto simp: puts_taken_def)
      with u m show ?thesis
        by (intro exI [of _ tr] conjI w(1), unfold if_P [OF True] left_unqueued_def) blast
    next
      case False
      with w(1) show ?thesis by (intro exI [of _ tr]) (simp only: if_False simp_thms)
    qed
  qed
qed

section \<open>Witnesses\<close>

definition stored :: "unit env" where
  "stored = calm\<lparr>get_item := \<lambda>_ _ _ w. (Inr (Some [(''status'', PStr ''PENDING'')]), w), validate_record := sample_validate\<rparr>"

lemma stored_answers: "aws_answers stored" "aws_answers calm"
  by (simp_all add: aws_answers_def stored_def calm_def)

lemma stored_disk: "disk_works stored"
  by (simp add: disk_works_def stored_def calm_def)

lemma stored_renders: "renders stored [150, 400]"
  by (simp add: renders_def stored_def render_payload_def sample_pillow_def sample_image_def to_rgb_def render_one_def map_error_def Let_def)

lemma stored_waits: "job_waits stored j"
  by (simp add: job_waits_def stored_def decode_item_def from_dynamo_dict_def sample_validate_def item_status_def item_attr_def
      dict_get_def new_record_def)

theorem healthy_delivery_completes_witness:
  "fst (handle_message stored sample_config (build_clients stored sample_config) Worker (sample_sqs ''j'') blank) = Inr COMPLETED"
proof (rule healthy_delivery_completes [where job = "sample_message ''j''"])
  show "parse_message stored (opt_get [] (Body (sample_sqs ''j''))) = Inr (sample_message ''j'')"
    by (simp add: stored_def)
qed (simp_all add: stored_answers stored_disk stored_renders stored_waits MESSAGE_SCHEMA_VERSION_def)

text \<open>A job that creates a workspace, since it completes, and leaves none.\<close>

theorem workspace_removed_witness:
  "fst (process_job stored sample_config (build_clients stored sample_config) Worker (sample_message ''j'') ''h'' blank) = Inr COMPLETED \<and>
   temp_dirs (snd (process_job stored sample_config (build_clients stored sample_config) Worker (sample_message ''j'') ''h'' blank)) =
     temp_dirs blank"
proof
  let ?m = "process_job stored sample_config (build_clients stored sample_config) Worker (sample_message ''j'') ''h''"
  have "returns (\<lambda>k. k = COMPLETED) ?m"
    by (rule returns_process_job) (simp_all add: stored_answers stored_disk stored_renders stored_waits)
  then show "fst (?m blank) = Inr COMPLETED" by (auto simp: returns_iff) (metis fst_conv)
  have "fst (rmtree stored d w)" for d w by (simp add: stored_def)
  with workspace_removed [of stored sample_config Worker "sample_message ''j''" "''h''" blank]
  show "temp_dirs (snd (?m blank)) = temp_dirs blank"
    by (auto simp: wp_def split: prod.splits if_splits)
qed

lemma sample_accepted: "upload_refusal calm sample_config ''x'' (Some ''image/png'') = None"
proof -
  have "py_split CHR '';'' ''image/png'' = [''image/png'']" by simp
  moreover have "py_lower (py_strip ''image/png'') = ''image/png''"
    by (simp add: py_lower_def lower_char_def py_strip_def is_space_def py_ord_def Let_def)
  ultimately have "declared_type (Some ''image/png'') = ''image/png''" by (simp add: declared_type_def)
  moreover have "\<exists>probe. probe_upload calm ''x'' = Inr probe"
    by (simp add: probe_upload_def probe_image_def inspect_image_def accept_image_def extension_for_format_def map_error_def
        sample_pillow_def sample_image_def FORMAT_EXTENSIONS_def py_upper_def upper_char_def py_ord_def Let_def)
  ultimately show ?thesis
    by (auto simp: upload_refusal_def validate_upload_def ALLOWED_CONTENT_TYPES_def)
qed

theorem healthy_upload_is_accepted_witness:
  "\<exists>rc. fst (create_job calm sample_config (build_clients calm sample_config) ''x'' None (Some ''image/png'') blank) = Inr rc \<and>
     jr_status rc = PENDING"
  by (rule healthy_upload_is_accepted [OF stored_answers(2) sample_accepted])

end
