(* ===== verification/Scenario.thy ===== *)
theory Scenario
  imports Progress
begin

text \<open>
  One job from its upload to its end, request by request, on an environment where everything answers: the
  upload stores the image, its record and its message, the delivery claims the job, stores two thumbnails, completes the
  record and deletes the message. The log serves the witnesses about whole systems.

  \<open>emits m tr r\<close>: from any state, \<open>m\<close> puts exactly \<open>tr\<close> on the wire and ends with \<open>r\<close>.
\<close>

definition emits :: "('w, 'a) prog \<Rightarrow> event list \<Rightarrow> exn + 'a \<Rightarrow> bool" where
  "emits m tr r \<longleftrightarrow> (\<forall>s. fst (m s) = r \<and> wire (snd (m s)) = wire s @ tr)"

lemma emits_bind: "emits m t1 (Inr x) \<Longrightarrow> emits (f x) t2 r \<Longrightarrow> emits (bind m f) (t1 @ t2) r"
  by (simp add: emits_def bind_def split_def)

lemma emits_bind_raise: "emits m t (Inl e) \<Longrightarrow> emits (bind m f) t (Inl e)"
  by (simp add: emits_def bind_def split_def)

lemma emits_attempt: "emits m t r \<Longrightarrow> emits (attempt m) t (Inr r)"
  by (simp add: emits_def attempt_def split_def)

lemma emits_finalize: "emits m t r \<Longrightarrow> emits f t' (Inr ()) \<Longrightarrow> emits (finalize m f) (t @ t') r"
  by (simp add: emits_def finalize_def split_def)

lemma emits_return: "emits (return x) [] (Inr x)"
  by (simp add: emits_def return_def)

lemma emits_modify: "(\<And>s. wire (f s) = wire s) \<Longrightarrow> emits (modify f) [] (Inr ())"
  by (simp add: emits_def modify_def)

lemma emits_ask: "(\<And>w. fst (f w) = x) \<Longrightarrow> emits (ask f) [] (Inr x)"
  by (simp add: emits_def ask_def split_def)

lemma emits_ask_io: "(\<And>w. fst (f w) = r) \<Longrightarrow> emits (ask_io f) [] r"
  by (simp add: emits_def ask_io_def split_def)

lemma emits_of_sum: "emits (of_sum r) [] r"
  by (simp add: emits_def of_sum_def)

lemma emits_on_wire: "(\<And>w. fst (f w) = Inr x) \<Longrightarrow> emits (on_wire q sh f) [(q, Returned (sh x))] (Inr x)"
  by (simp add: emits_def on_wire_def split_def)

lemma emits_call:
  assumes "\<And>w. fst (f w) = Inr x" "0 < attempts p"
  shows "emits (call_with_retry env (on_wire q sh f) operation p codes) [(q, Returned (sh x))] (Inr (Some x))"
  unfolding emits_def
proof
  fix s
  from emits_on_wire [of f x q sh, OF assms(1)] have
    s': "fst (on_wire q sh f s) = Inr x" "wire (snd (on_wire q sh f s)) = wire s @ [(q, Returned (sh x))]"
    by (simp_all add: emits_def)
  have "on_wire q sh f s = (Inr x, snd (on_wire q sh f s))" using s'(1) by (simp add: prod_eq_iff)
  from retry_first [where func = "on_wire q sh f", OF assms(2) this] s'(2)
  show "fst (call_with_retry env (on_wire q sh f) operation p codes s) = Inr (Some x) \<and>
      wire (snd (call_with_retry env (on_wire q sh f) operation p codes s)) = wire s @ [(q, Returned (sh x))]"
    by simp
qed

lemma emits_jq_call:
  assumes "\<And>w. fst (f w) = Inr x" "0 < attempts (jq_policy Q)"
  shows "emits (jq_call env Q operation (on_wire q sh f)) [(q, Returned (sh x))] (Inr (Some x))"
proof -
  have "emits (jq_call env Q operation (on_wire q sh f)) ([(q, Returned (sh x))] @ []) (Inr (Some x))"
    unfolding jq_call_def by (rule emits_bind [OF emits_attempt [OF emits_call [OF assms]]]) (simp add: emits_return)
  then show ?thesis by simp
qed

text \<open>A call, and what follows it.\<close>

lemma emits_call_bind:
  "(\<And>w. fst (f w) = Inr x) \<Longrightarrow> 0 < attempts p \<Longrightarrow> emits (g (Some x)) t r \<Longrightarrow>
   emits (bind (call_with_retry env (on_wire q sh f) operation p codes) g) ((q, Returned (sh x)) # t) r"
  using emits_bind [OF emits_call] by fastforce

lemma emits_jq_bind:
  "(\<And>w. fst (f w) = Inr x) \<Longrightarrow> 0 < attempts (jq_policy Q) \<Longrightarrow> emits (g (Some x)) t r \<Longrightarrow>
   emits (bind (jq_call env Q operation (on_wire q sh f)) g) ((q, Returned (sh x)) # t) r"
  using emits_bind [OF emits_jq_call] by fastforce

lemma emits_one: "emits m [ev] (Inr x) \<Longrightarrow> emits (f x) t r \<Longrightarrow> emits (bind m f) (ev # t) r"
  using emits_bind [of m "[ev]" x f t r] by simp

text \<open>A step that puts nothing on the wire.\<close>

lemma emits_then: "emits m [] (Inr x) \<Longrightarrow> emits (f x) t r \<Longrightarrow> emits (bind m f) t r"
  using emits_bind [of m "[]" x f t r] by simp

text \<open>A step that ends the program.\<close>

lemma emits_last: "emits m t (Inr x) \<Longrightarrow> emits (f x) [] r \<Longrightarrow> emits (bind m f) t r"
  using emits_bind [of m t x f "[]" r] by simp

lemma emits_finally: "emits m t r \<Longrightarrow> emits f [] (Inr ()) \<Longrightarrow> emits (finalize m f) t r"
  using emits_finalize [of m t r f "[]"] by simp

section \<open>The environment\<close>

definition healthy_probe :: image_probe where
  "healthy_probe = \<lparr>ip_format = ''JPEG'', ip_width = 4, ip_height = 2, ip_extension = ''.jpg''\<rparr>"

definition healthy_record :: job_record where
  "healthy_record = new_record ''u'' ''t'' ''t'' None ''x'' (Some ''image/png'') healthy_probe None"

definition healthy_item :: "pyval dict" where
  "healthy_item = to_dynamo_dict (to_item healthy_record)"

definition healthy_job :: job_message where
  "healthy_job = new_message sample_config healthy_record"

definition healthy :: "unit env" where
  "healthy = parsing\<lparr>get_item := \<lambda>_ _ _ w. (Inr (Some healthy_item), w),
     receive_message := \<lambda>_ _ _ _ _ _ w. (Inr (Some [sample_sqs (sample_dump healthy_job)]), w)\<rparr>"

lemma healthy_simps [simp]:
  "fst (boto_connect healthy bc w) = Inr ()" "fst (put_object healthy b k d t w) = Inr ()" "fst (put_item healthy tbl i w) = Inr ()"
  "fst (send_message healthy u bd a w) = Inr (Some ''id'')" "fst (get_object healthy b k w) = Inr ()"
  "fst (read_body healthy b k w) = Inr ''data''" "fst (get_item healthy tbl j cr w) = Inr (Some healthy_item)"
  "fst (receive_message healthy u n wt names atts v w) = Inr (Some [sample_sqs (sample_dump healthy_job)])"
  "fst (update_item healthy tbl j up cond ns vs w) = Inr ()" "fst (delete_message healthy u rh w) = Inr ()"
  "fst (now_iso healthy w) = ''t''" "fst (uuid4 healthy w) = ''u''" "fst (clock healthy w) = 0"
  "fst (span_ids healthy w) = (None, None)" "fst (trace_carrier_now healthy w) = []" "fst (beats_due healthy w) = 0"
  "fst (mkdtemp healthy p w) = Inr p" "fst (rmtree healthy p w) = True" "fst (write_file healthy p d w) = Inr ()"
  "fst (read_file healthy p w) = Inr ''data''" "lib_str healthy e = ''library''" "pil healthy = sample_pillow" "parse_message healthy = sample_parse"
  "dump_message healthy = sample_dump" "validate_record healthy = sample_validate"
  by (simp_all add: healthy_def parsing_def calm_def)

lemma healthy_env: "status_validated healthy" "codec_ok healthy"
  using parsing_status parsing_codec
  by (simp_all add: status_validated_def codec_ok_def parsing_def del: not_None_eq)

lemma healthy_upload_ok:
  "validate_upload sample_config (Some ''image/png'') (int (length ''x'')) = Inr ()"
  "probe_upload healthy ''x'' = Inr healthy_probe"
proof -
  show "validate_upload sample_config (Some ''image/png'') (int (length ''x'')) = Inr ()"
    using sample_accepted by (simp add: upload_refusal_def split: sum.splits)
  show "probe_upload healthy ''x'' = Inr healthy_probe"
    by (simp add: probe_upload_def probe_image_def inspect_image_def accept_image_def extension_for_format_def map_error_def
        healthy_def parsing_def healthy_probe_def
        sample_pillow_def sample_image_def FORMAT_EXTENSIONS_def py_upper_def upper_char_def py_ord_def Let_def)
qed

section \<open>The upload\<close>

definition upload_log :: "event list" where
  "upload_log =
     [(PutObject ''b'' (jr_input_key healthy_record) ''x'' (jr_content_type healthy_record), Returned PNone),
      (PutItem ''t'' healthy_item, Returned PNone),
      (SendMessage ''q'' (sample_dump healthy_job) [(''job_id'', ''u'')], Returned PNone)]"

lemma emits_put_bytes:
  "emits (s3_put_bytes healthy (client_store cfg) k d t) [(PutObject (s3_bucket cfg) k d t, Returned PNone)] (Inr ())"
  unfolding s3_put_bytes_def client_names by (rule emits_call_bind [where x = "()"]) (simp_all add: emits_return)

lemma emits_put_job:
  "emits (jt_put_job healthy (client_table cfg) r) [(PutItem (dynamodb_table cfg) (to_dynamo_dict (to_item r)), Returned PNone)] (Inr ())"
  unfolding jt_put_job_def Let_def client_names by (rule emits_call_bind [where x = "()"]) (simp_all add: emits_return)

lemma emits_send_job:
  "filter (\<lambda>(name, value). value \<noteq> []) attrs = attrs \<Longrightarrow>
   emits (jq_send_job healthy (client_queue cfg) body attrs) [(SendMessage (sqs_queue_url cfg) body attrs, Returned PNone)] (Inr ''id'')"
  unfolding jq_send_job_def Let_def client_names by (simp, rule emits_jq_bind [where x = "Some ''id''"]) (simp_all add: emits_return)

lemma emits_create_job:
  "emits (create_job healthy sample_config (build_clients healthy sample_config) ''x'' None (Some ''image/png''))
     upload_log (Inr healthy_record)"
proof -
  let ?C = "build_clients healthy sample_config"
  have prepare: "emits (prepare_job healthy sample_config ''x'' None (Some ''image/png'')) [] (Inr healthy_record)"
    unfolding prepare_job_def healthy_upload_ok
    by (rule emits_then [OF emits_of_sum] emits_then [OF emits_ask [where x = "''u''"]] emits_then [OF emits_ask [where x = "(None, None)"]]
        emits_then [OF emits_ask [where x = "''t''"]] | simp add: healthy_record_def emits_return)+
  have u: "jr_job_id healthy_record = ''u''" by (simp add: healthy_record_def new_record_def)
  have attributes': "emits (job_attributes healthy (jr_job_id healthy_record)) [] (Inr [(''job_id'', ''u'')])"
    unfolding u job_attributes_def by (rule emits_then [OF emits_ask [where x = "[]"]]) (simp_all add: emits_return)
  have "emits (enqueue healthy sample_config ?C healthy_record [(''job_id'', ''u'')])
      [(SendMessage ''q'' (sample_dump healthy_job) [(''job_id'', ''u'')], Returned PNone)] (Inr ''id'')"
    unfolding enqueue_def build_clients_simps healthy_simps healthy_job_def
    by (rule emits_last [OF emits_attempt [OF emits_send_job [where cfg = sample_config, unfolded sample_config_simps]]])
      (simp_all add: emits_return)
  then have "emits (store_and_enqueue healthy sample_config ?C ''x'' healthy_record) upload_log (Inr ''id'')"
    unfolding store_and_enqueue_def build_clients_simps upload_log_def healthy_item_def
    by (intro emits_one [OF emits_put_bytes [where cfg = sample_config, unfolded sample_config_simps]]
        emits_one [OF emits_put_job [where cfg = sample_config, unfolded sample_config_simps]] emits_then [OF attributes'])
  then show ?thesis
    unfolding create_job_def count_accepted_def
    by (intro emits_then [OF prepare] emits_last [where x = "''id''"] emits_then [OF emits_modify] emits_return) simp_all
qed

section \<open>The delivery\<close>

definition healthy_thumb :: "int \<Rightarrow> rendered_thumbnail" where
  "healthy_thumb edge = \<lparr>rt_size = edge, rt_data = ''jpeg'', rt_width = 4, rt_height = 2\<rparr>"

definition healthy_outputs :: processed_outputs where
  "healthy_outputs = \<lparr>po_outputs = [(show_int 150, thumb_output ''u'' (healthy_thumb 150)), (show_int 400, thumb_output ''u'' (healthy_thumb 400))],
     po_exif = extract_exif sample_pillow sample_image, po_width = 4, po_height = 2, po_format = ''JPEG''\<rparr>"

definition fetch_log :: "event list" where
  "fetch_log =
     [(GetObject ''b'' (jr_input_key healthy_record), Returned PNone), (ReadBody ''b'' (jr_input_key healthy_record), Returned PNone)]"

definition store_log :: "event list" where
  "store_log =
     [(PutObject ''b'' (thumb_key ''u'' 150) ''jpeg'' THUMBNAIL_CONTENT_TYPE, Returned PNone),
      (PutObject ''b'' (thumb_key ''u'' 400) ''jpeg'' THUMBNAIL_CONTENT_TYPE, Returned PNone)]"

definition healthy_complete :: request where
  "healthy_complete = complete_request ''t'' ''u'' (po_outputs healthy_outputs) (po_exif healthy_outputs) (po_width healthy_outputs)
     (po_height healthy_outputs) (po_format healthy_outputs) 0 ''t''"

definition delivery_head :: "event list" where
  "delivery_head =
     [(receive_request ''q'' 1 20 None, Returned (receive_answer (Some [sample_sqs (sample_dump healthy_job)]))),
      (GetItem ''t'' ''u'' (Some True), Returned (item_answer (Some healthy_item))),
      (processing_request ''t'' ''u'' ''t'', Returned PNone)] @ fetch_log @ store_log @ [(healthy_complete, Returned PNone)]"

definition delivery_log :: "event list" where
  "delivery_log = delivery_head @ [(DeleteMessage ''q'' ''h'', Returned PNone)]"

lemma emits_stage: "emits body t r \<Longrightarrow> emits (stage healthy name body) t r"
  unfolding stage_def
  by (rule emits_then [OF emits_ask [where x = 0]], simp, erule emits_finally,
      rule emits_then [OF emits_ask [where x = 0]], simp, rule emits_modify, simp)

lemma emits_tick: "emits (worker_tick healthy C wk rh) [] (Inr ())"
  unfolding worker_tick_def heartbeat_def
  by (rule emits_then [OF emits_ask [where x = 0]]) (simp_all add: emits_return)

lemma emits_download:
  "emits (s3_download_to healthy (client_store cfg) k p)
     [(GetObject (s3_bucket cfg) k, Returned PNone), (ReadBody (s3_bucket cfg) k, Returned PNone)] (Inr (int (length ''data'')))"
proof -
  have "emits (s3_get_bytes healthy (client_store cfg) k)
      [(GetObject (s3_bucket cfg) k, Returned PNone), (ReadBody (s3_bucket cfg) k, Returned PNone)] (Inr ''data'')"
    unfolding s3_get_bytes_def client_names
    by (rule emits_call_bind [where x = "()"]) (auto intro: emits_on_wire)
  then show ?thesis
    unfolding s3_download_to_def
    by (rule emits_last) (rule emits_then [OF emits_ask_io [where r = "Inr ()"] emits_return], simp)
qed

lemma healthy_rendering:
  "render_payload sample_pillow lib d [150, 400] =
     Inr ([healthy_thumb 150, healthy_thumb 400], extract_exif sample_pillow sample_image, 4, 2, ''JPEG'')"
proof -
  have "render_one sample_pillow img edge = Inr \<lparr>rt_size = edge, rt_data = ''jpeg'', rt_width = fst (im_size img), rt_height = snd (im_size img)\<rparr>"
    for img edge by (simp add: render_one_def sample_pillow_def)
  moreover have "py_upper ''JPEG'' = ''JPEG''" by (simp add: py_upper_def upper_char_def py_ord_def Let_def)
  moreover have "pil_open sample_pillow d = Inr sample_image" "pil_load sample_pillow = Inr" "pil_exif_transpose sample_pillow img = Inr None"
      "im_format sample_image = Some ''JPEG''" "im_size sample_image = (4, 2)" "to_rgb sample_pillow sample_image = Inr sample_image" for d img
    by (simp_all add: sample_pillow_def sample_image_def to_rgb_def)
  ultimately show ?thesis by (simp add: render_payload_def map_error_def healthy_thumb_def Let_def)
qed

lemma emits_render_thumbnails:
  "emits (render_thumbnails healthy (FromPath p) [150, 400]) []
     (Inr ([healthy_thumb 150, healthy_thumb 400], extract_exif sample_pillow sample_image, 4, 2, ''JPEG''))"
  unfolding render_thumbnails_def image_source.case
  by (rule emits_then [OF emits_ask_io [where r = "Inr ''data''"]]) (simp_all add: healthy_rendering emits_of_sum)

lemma emits_upload_thumbs:
  "emits (upload_thumbs (build_clients healthy cfg) (worker_tick healthy C wk rh) j [t1, t2] [])
     [(PutObject (s3_bucket cfg) (thumb_key j (rt_size t1)) (rt_data t1) THUMBNAIL_CONTENT_TYPE, Returned PNone),
      (PutObject (s3_bucket cfg) (thumb_key j (rt_size t2)) (rt_data t2) THUMBNAIL_CONTENT_TYPE, Returned PNone)]
     (Inr (dict_set (show_int (rt_size t2)) (thumb_output j t2) [(show_int (rt_size t1), thumb_output j t1)]))"
  unfolding upload_thumbs.simps build_clients_simps dict_set.simps
  by (intro emits_one [OF emits_put_bytes] emits_then [OF emits_tick] emits_return)

lemma emits_cleanup: "emits (cleanup_workspace healthy p) [] (Inr ())"
  unfolding cleanup_workspace_def drop_dir_def
  by (rule emits_then [OF emits_ask [where x = True]]) (simp_all add: emits_modify)

lemma healthy_job_simps:
  "jm_job_id healthy_job = ''u''" "jm_bucket healthy_job = ''b''" "jm_schema_version healthy_job = MESSAGE_SCHEMA_VERSION"
  "jm_input_key healthy_job = jr_input_key healthy_record"
  by (simp_all add: healthy_job_def new_message_def healthy_record_def new_record_def)

lemma emits_render_job:
  "emits (render_job healthy (build_clients healthy sample_config) (worker_tick healthy C wk rh) [150, 400] healthy_job)
     (fetch_log @ store_log) (Inr healthy_outputs)"
proof -
  let ?C = "build_clients healthy sample_config" and ?tick = "worker_tick healthy C wk rh"
  have "show_int 150 \<noteq> show_int 400" by (simp add: show_int_inj)
  then have outs: "dict_set (show_int 400) (thumb_output ''u'' (healthy_thumb 400)) [(show_int 150, thumb_output ''u'' (healthy_thumb 150))] =
      po_outputs healthy_outputs" by (simp add: healthy_outputs_def)
  have sizes: "rt_size (healthy_thumb n) = n" "rt_data (healthy_thumb n) = ''jpeg''" for n by (simp_all add: healthy_thumb_def)
  have upload: "emits (upload_thumbs ?C ?tick ''u'' [healthy_thumb 150, healthy_thumb 400] []) store_log (Inr (po_outputs healthy_outputs))"
    using emits_upload_thumbs [of sample_config C wk rh "''u''" "healthy_thumb 150" "healthy_thumb 400"]
    unfolding sizes outs sample_config_simps store_log_def .
  have finish: "emits (bind (stage healthy STAGE_UPLOAD (upload_thumbs ?C ?tick ''u'' [healthy_thumb 150, healthy_thumb 400] []))
        (\<lambda>outputs. return \<lparr>po_outputs = outputs, po_exif = extract_exif sample_pillow sample_image, po_width = 4, po_height = 2, po_format = ''JPEG''\<rparr>))
      store_log (Inr healthy_outputs)"
    by (rule emits_last [OF emits_stage [OF upload]]) (simp add: healthy_outputs_def emits_return)
  have download: "emits (s3_download_to healthy (client_store sample_config) (jr_input_key healthy_record) p) fetch_log (Inr (int (length ''data'')))" for p
    using emits_download [of sample_config "jr_input_key healthy_record" p]
    unfolding sample_config_simps fetch_log_def .
  have rest: "emits (bind ?tick (\<lambda>_. bind (stage healthy STAGE_PROCESS (render_thumbnails healthy (FromPath p) [150, 400]))
        (\<lambda>(thumbnails, exif, width, height, image_format). bind ?tick (\<lambda>_.
          bind (stage healthy STAGE_UPLOAD (upload_thumbs ?C ?tick ''u'' thumbnails [])) (\<lambda>outputs.
            return \<lparr>po_outputs = outputs, po_exif = exif, po_width = width, po_height = height, po_format = image_format\<rparr>)))))
      store_log (Inr healthy_outputs)" for p
    apply (rule emits_then [OF emits_tick])
    apply (rule emits_then [OF emits_stage [OF emits_render_thumbnails]])
    apply (unfold prod.case)
    apply (rule emits_then [OF emits_tick])
    apply (rule finish)
    done
  show ?thesis
    unfolding render_job_def temp_workspace_def Let_def build_clients_simps healthy_job_simps
    by (rule emits_then [OF emits_ask_io [where r = "Inr TEMP_PREFIX"]], simp, rule emits_then [OF emits_modify], simp,
        rule emits_finally [OF _ emits_cleanup])
      (rule emits_bind [OF emits_stage [OF download] rest])
qed

lemma emits_update:
  "emits (update_call healthy (client_table cfg) j u c ns vs) [(UpdateItem (dynamodb_table cfg) j u c ns vs, Returned PNone)] (Inr ())"
  unfolding update_call_def client_names by (rule emits_call_bind [where x = "()"]) (simp_all add: emits_return)

lemma emits_mark_processing:
  "emits (jt_mark_processing healthy (client_table cfg) j) [(processing_request (dynamodb_table cfg) j ''t'', Returned PNone)] (Inr True)"
  unfolding jt_mark_processing_def processing_request_def
  by (rule emits_then [OF emits_ask [where x = "''t''"]], simp, rule emits_last [OF emits_attempt [OF emits_update]]) (simp add: emits_return)

lemma emits_delete:
  "emits (jq_delete healthy (client_queue cfg) rh) [(DeleteMessage (sqs_queue_url cfg) rh, Returned PNone)] (Inr ())"
  unfolding jq_delete_def client_names by (rule emits_jq_bind [where x = "()"]) (simp_all add: emits_return)

lemma healthy_decodes: "\<exists>rc. decode_item healthy healthy_item = Inr rc \<and> jr_status rc = PENDING"
proof -
  have "dict_get (from_dynamo_dict healthy_item) ''status'' = Some (PStr ''PENDING'')"
    by (simp add: healthy_item_def healthy_record_def new_record_def to_item_def record_dump_def to_dynamo_dict_def dict_get_def
        from_dynamo_dict_def)
  then show ?thesis
    by (simp add: decode_item_def sample_validate_def item_status_def item_attr_def new_record_def)
qed

lemma emits_get_job:
  "\<exists>rc. jr_status rc = PENDING \<and> emits (jt_get_job healthy (client_table cfg) j)
     [(GetItem (dynamodb_table cfg) j (Some True), Returned (item_answer (Some healthy_item)))] (Inr (Some rc))"
proof -
  obtain rc where rc: "decode_item healthy healthy_item = Inr rc" "jr_status rc = PENDING" using healthy_decodes by blast
  have "healthy_item \<noteq> []" using rc(1) by (auto simp: decode_item_def sample_validate_def item_status_def item_attr_def dict_get_def from_dynamo_dict_def)
  then have "emits (jt_get_job healthy (client_table cfg) j)
     [(GetItem (dynamodb_table cfg) j (Some True), Returned (item_answer (Some healthy_item)))] (Inr (Some rc))"
    unfolding jt_get_job_def client_names
    by (intro emits_call_bind [where x = "Some healthy_item" and sh = item_answer])
      (simp_all add: rc(1) emits_then [OF emits_of_sum emits_return])
  with rc(2) show ?thesis by blast
qed

lemma emits_work:
  "emits (work healthy sample_config (build_clients healthy sample_config) wk healthy_job ''h'')
     ((fetch_log @ store_log) @ [(healthy_complete, Returned PNone), (DeleteMessage ''q'' ''h'', Returned PNone)]) (Inr COMPLETED)"
proof -
  let ?C = "build_clients healthy sample_config"
  have complete: "emits (jt_mark_complete healthy (client_table sample_config) ''u'' (po_outputs healthy_outputs) (po_exif healthy_outputs)
      (po_width healthy_outputs) (po_height healthy_outputs) (po_format healthy_outputs) 0) [(healthy_complete, Returned PNone)] (Inr ())"
    unfolding jt_mark_complete_def healthy_complete_def complete_request_def
    by (rule emits_then [OF emits_ask [where x = "''t''"] emits_update [of sample_config, unfolded sample_config_simps]]) simp
  have del: "emits (jq_delete healthy (client_queue sample_config) ''h'') [(DeleteMessage ''q'' ''h'', Returned PNone)] (Inr ())"
    using emits_delete [of sample_config] by simp
  have zero: "py_trunc ((0 - 0) * 1000) = 0" by (simp add: py_trunc_def)
  have books: "emits (bind (modify (\<lambda>s. s\<lparr>jobs_processed_total := f s\<rparr>)) (\<lambda>_. bind (modify (\<lambda>s. s\<lparr>job_durations := g s\<rparr>))
      (\<lambda>_. return COMPLETED))) [] (Inr COMPLETED)" for f and g :: "unit st \<Rightarrow> rat list"
    by (rule emits_then [OF emits_modify], simp, rule emits_then [OF emits_modify emits_return], simp)
  have finish: "emits (bind (ask (clock healthy)) (\<lambda>ended. bind (jt_mark_complete healthy (client_table sample_config) ''u''
        (po_outputs healthy_outputs) (po_exif healthy_outputs) (po_width healthy_outputs) (po_height healthy_outputs)
        (po_format healthy_outputs) (py_trunc ((ended - 0) * 1000))) (\<lambda>_. bind (jq_delete healthy (client_queue sample_config) ''h'') (\<lambda>_.
          bind (modify (\<lambda>s. s\<lparr>jobs_processed_total := f s\<rparr>)) (\<lambda>_. bind (modify (\<lambda>s. s\<lparr>job_durations := g ended s\<rparr>))
            (\<lambda>_. return COMPLETED))))))
      [(healthy_complete, Returned PNone), (DeleteMessage ''q'' ''h'', Returned PNone)] (Inr COMPLETED)" for f and g :: "rat \<Rightarrow> unit st \<Rightarrow> rat list"
    by (rule emits_then [OF emits_ask [where x = 0]], simp, unfold zero, rule emits_one [OF complete emits_one [OF del books]])
  have "emits (render_and_complete healthy sample_config ?C wk healthy_job ''h'' 0)
      ((fetch_log @ store_log) @ [(healthy_complete, Returned PNone), (DeleteMessage ''q'' ''h'', Returned PNone)]) (Inr COMPLETED)"
    unfolding render_and_complete_def sample_config_simps count_job_def observe_job_def Let_def build_clients_simps healthy_job_simps
    by (rule emits_bind [OF emits_render_job]) (rule finish)
  from emits_attempt [OF this] show ?thesis
    unfolding work_def
    by (intro emits_then [OF emits_modify] emits_then [OF emits_ask [where x = 0]] emits_finally emits_modify)
      (auto intro!: emits_last emits_return)
qed

lemma emits_handle_message:
  "emits (handle_message healthy sample_config (build_clients healthy sample_config) wk (sample_sqs (sample_dump healthy_job)))
     (tl delivery_log) (Inr COMPLETED)"
proof -
  let ?C = "build_clients healthy sample_config"
  obtain rc where rc: "jr_status rc = PENDING" "emits (jt_get_job healthy (client_table sample_config) ''u'')
     [(GetItem ''t'' ''u'' (Some True), Returned (item_answer (Some healthy_item)))] (Inr (Some rc))"
    using emits_get_job [of sample_config "''u''", unfolded sample_config_simps] by blast
  have parse: "sample_parse (sample_dump healthy_job) = Inr healthy_job"
    by (simp add: sample_parse_def sample_dump_def healthy_job_def new_message_def)
  have claim: "emits (claim_and_work healthy sample_config ?C wk healthy_job ''h'') (tl (tl delivery_log)) (Inr COMPLETED)"
    unfolding claim_and_work_def build_clients_simps healthy_job_simps delivery_log_def delivery_head_def append.simps list.sel
    by (rule emits_one [OF emits_attempt [OF emits_mark_processing [of sample_config, unfolded sample_config_simps]]])
      (use emits_work [of wk] in simp)
  have "emits (process_job healthy sample_config ?C wk healthy_job ''h'') (tl delivery_log) (Inr COMPLETED)"
    unfolding process_job_def build_clients_simps healthy_job_simps delivery_log_def delivery_head_def append.simps list.sel
    by (rule emits_one [OF emits_attempt [OF rc(2)]])
      (use claim in \<open>simp add: rc(1) healthy_job_simps delivery_log_def delivery_head_def\<close>)
  then show ?thesis
    unfolding handle_message_def Let_def healthy_simps sample_sqs_simps option.case opt_get_def parse sum.case healthy_job_simps bind_job_context_def clear_job_context_def
    by (simp, intro emits_then [OF emits_modify] emits_finally emits_modify) simp_all
qed

lemma emits_run_once:
  "emits (run_once healthy sample_config (build_clients healthy sample_config) Worker) delivery_log (Inr 1)"
proof -
  let ?C = "build_clients healthy sample_config"
  have "emits (jq_receive healthy (client_queue sample_config) 1 20 None) [hd delivery_log] (Inr [sample_sqs (sample_dump healthy_job)])"
    unfolding jq_receive_def client_names delivery_log_def delivery_head_def append.simps list.sel sample_config_simps
    by (rule emits_jq_bind [where x = "Some [sample_sqs (sample_dump healthy_job)]"]) (simp_all add: emits_return)
  then have receive: "emits (attempt (queue_receive ?C 1 (wk_poll_wait Worker) None)) [hd delivery_log] (Inr (Inr [sample_sqs (sample_dump healthy_job)]))"
    by (intro emits_attempt) (simp add: build_clients_def Let_def Worker_def POLL_WAIT_SECONDS_def)
  have "emits (handle_all healthy sample_config ?C Worker [sample_sqs (sample_dump healthy_job)]) (tl delivery_log) (Inr ())"
    unfolding handle_all.simps by (rule emits_last [OF emits_handle_message emits_return])
  then have "emits (run_once healthy sample_config ?C Worker) (hd delivery_log # tl delivery_log) (Inr 1)"
    unfolding run_once_def by (intro emits_one [OF receive]) (simp, erule emits_last, simp add: emits_return)
  then show ?thesis by (simp add: delivery_log_def delivery_head_def)
qed

end
