(* ===== verification/System.thy ===== *)
theory System
  imports Processes Scenario
begin

text \<open>
  The whole pipeline: any number of API replicas, each serving any list of HTTP requests, and of workers, each waiting for its
  dependencies and polling, every process possibly cut off by a crash at any request, interleaved arbitrarily over one table,
  one bucket and one queue. The cloud may lose the answer
  of a write that it applied, and the queue may hand out a message any number of times; objects and records are
  never deleted by this program.
\<close>

section \<open>The cloud\<close>

type_synonym object_map = "string \<times> string \<Rightarrow> bytes option"

record cloud =
  cl_items :: item_table
  cl_objects :: object_map
  cl_sent :: "string set"

text \<open>A put that returned is stored, one that raised may be stored; reads are left free.\<close>

inductive object_step :: "object_map \<Rightarrow> event \<Rightarrow> object_map \<Rightarrow> bool" where
  stored: "object_step O1 (PutObject b k d t, res) (O1((b, k) \<mapsto> d))"
| put_lost: "object_step O1 (PutObject b k d t, Raised e) O1"
| no_put: "(\<forall>b k d t. q \<noteq> PutObject b k d t) \<Longrightarrow> object_step O1 (q, res) O1"

text \<open>The bodies the queue has accepted so far; a receive hands out only such bodies.\<close>

inductive send_step :: "string \<Rightarrow> string set \<Rightarrow> event \<Rightarrow> string set \<Rightarrow> bool" for url where
  accepted: "send_step url M (SendMessage url body attrs, res) (insert body M)"
| send_lost: "send_step url M (SendMessage url body attrs, Raised e) M"
| elsewhere: "u \<noteq> url \<Longrightarrow> send_step url M (SendMessage u body attrs, res) M"
| no_send: "\<not> is_send q \<Longrightarrow> \<forall>rh body. hands url rh body (q, res) \<longrightarrow> body \<in> M \<Longrightarrow> send_step url M (q, res) M"

definition cloud_step :: "updater \<Rightarrow> config \<Rightarrow> cloud \<Rightarrow> event \<Rightarrow> cloud \<Rightarrow> bool" where
  "cloud_step up cfg c ev c' \<longleftrightarrow> table_step up (dynamodb_table cfg) (cl_items c) ev (cl_items c') \<and>
     object_step (cl_objects c) ev (cl_objects c') \<and> send_step (sqs_queue_url cfg) (cl_sent c) ev (cl_sent c')"

inductive cloud_run :: "updater \<Rightarrow> config \<Rightarrow> cloud \<Rightarrow> event list \<Rightarrow> cloud \<Rightarrow> bool" for up cfg where
  idle: "cloud_run up cfg c [] c"
| serve: "cloud_step up cfg c ev c1 \<Longrightarrow> cloud_run up cfg c1 tr c2 \<Longrightarrow> cloud_run up cfg c (ev # tr) c2"

inductive_simps cloud_run_Nil [simp]: "cloud_run up cfg c [] c'"
inductive_simps cloud_run_Cons [simp]: "cloud_run up cfg c (ev # tr) c'"

definition empty_cloud :: cloud where
  "empty_cloud = \<lparr>cl_items = \<lambda>_. None, cl_objects = \<lambda>_. None, cl_sent = {}\<rparr>"

section \<open>The logs of a system\<close>

text \<open>What a replica put on the wire while it served some requests, or a worker while it started or polled.\<close>

definition service_log :: "'w env \<Rightarrow> config \<Rightarrow> event list \<Rightarrow> bool" where
  "service_log env cfg tr \<longleftrightarrow>
     (\<exists>source given chaos app page rqs s. create_app source given chaos = Inr app \<and> app_config app = cfg \<and>
        wire (snd (app_session env None page app rqs s)) = wire s @ tr) \<or>
     (\<exists>s. wire (snd (build_worker env cfg s)) = wire s @ tr) \<or>
     (\<exists>fuel stopping wk s r s'. run_worker fuel stopping env cfg (build_clients env cfg) wk s = Some (r, s') \<and> wire s' = wire s @ tr)"

inductive system_log :: "'w env \<Rightarrow> config \<Rightarrow> event list \<Rightarrow> bool" for env cfg where
  quiet: "system_log env cfg []"
| joined: "system_log env cfg others \<Longrightarrow> service_log env cfg (tr @ unsent) \<Longrightarrow> merged \<in> shuffles tr others \<Longrightarrow>
     system_log env cfg merged"

lemma service_paced: "service_log env cfg tr \<Longrightarrow> paced (in_order env cfg) [] tr"
  unfolding service_log_def
proof (elim disjE exE conjE)
  fix app :: "'a app" and page rqs and s :: "'a st"
  assume "app_config app = cfg" "wire (snd (app_session env None page app rqs s)) = wire s @ tr"
  then show ?thesis
    using logged [where s = s, OF ordered_app_session [of app cfg env page rqs]] by (auto simp: ordered_def)
next
  fix s :: "'a st"
  assume "wire (snd (build_worker env cfg s)) = wire s @ tr"
  with logged [where s = s, OF ordered_build_worker [of env cfg]] show ?thesis by (auto simp: ordered_def)
next
  fix fuel stopping wk r and s s' :: "'a st"
  assume "run_worker fuel stopping env cfg (build_clients env cfg) wk s = Some (r, s')" "wire s' = wire s @ tr"
  with ordered_worker show ?thesis by (fastforce simp: ordered_def)
qed

lemma system_paced: "system_log env cfg tr \<Longrightarrow> paced (in_order env cfg) [] tr"
proof (induction rule: system_log.induct)
  case (joined others tr unsent merged)
  from service_paced [OF joined.hyps(2)] have "paced (in_order env cfg) [] tr" by (simp add: paced_append)
  from paced_shuffles [OF in_order_grows joined.hyps(3) this joined.IH] show ?case .
qed simp

section \<open>Nothing is ever lost from the cloud\<close>

lemma object_step_keeps: "object_step O1 ev O2 \<Longrightarrow> O1 x \<noteq> None \<Longrightarrow> O2 x \<noteq> None"
  by (cases rule: object_step.cases) auto

lemma object_step_stored: "object_step O1 (PutObject b k d t, Returned v) O2 \<Longrightarrow> O2 (b, k) \<noteq> None"
  by (cases rule: object_step.cases) auto

lemma table_step_keeps: "table_step up tbl T ev T' \<Longrightarrow> T j \<noteq> None \<Longrightarrow> T' j \<noteq> None"
  by (cases rule: table_step.cases) auto

lemma table_step_found: "table_step up tbl T ev T' \<Longrightarrow> found tbl j ev \<Longrightarrow> T' j \<noteq> None"
proof (cases "(tbl, j, ev)" rule: found.cases)
  case (1 tbl' job t k c i)
  assume step: "table_step up tbl T ev T'" and f: "found tbl j ev"
  with 1 have ev: "ev = (GetItem tbl j (Some True), Returned (PDict i))" by simp
  from step [unfolded ev] show ?thesis
    by (rule get_stepE) (auto simp: item_answer_def split: option.splits)
qed auto

lemma table_step_put:
  "table_step up tbl T (PutItem tbl item, Returned v) T' \<Longrightarrow> dict_get item ''job_id'' = Some (PStr j) \<Longrightarrow> T' j \<noteq> None"
  by (erule put_stepE) auto

section \<open>Records that are backed by objects\<close>

text \<open>An entry of \<open>outputs\<close> names an object that is stored.\<close>

fun output_stored :: "object_map \<Rightarrow> string \<Rightarrow> pyval \<Rightarrow> bool" where
  "output_stored O1 b (PDict d) \<longleftrightarrow> (case dict_get d ''key'' of Some (PStr k) \<Rightarrow> O1 (b, k) \<noteq> None | _ \<Rightarrow> False)"
| "output_stored O1 b v \<longleftrightarrow> False"

text \<open>One stored thumbnail per configured size.\<close>

definition results_stored :: "object_map \<Rightarrow> config \<Rightarrow> pyval dict \<Rightarrow> bool" where
  "results_stored O1 cfg item \<longleftrightarrow>
     (case dict_get item ''outputs'' of
        Some (PDict os) \<Rightarrow> map fst os = map show_int (sort (remdups (thumbnail_sizes cfg))) \<and>
          list_all (output_stored O1 (s3_bucket cfg)) (map snd os)
      | _ \<Rightarrow> False)"

definition original_stored :: "object_map \<Rightarrow> config \<Rightarrow> pyval dict \<Rightarrow> bool" where
  "original_stored O1 cfg item \<longleftrightarrow>
     (case dict_get item ''input_key'' of Some (PStr k) \<Rightarrow> O1 (s3_bucket cfg, k) \<noteq> None | _ \<Rightarrow> False)"

definition backed :: "object_map \<Rightarrow> config \<Rightarrow> pyval dict \<Rightarrow> bool" where
  "backed O1 cfg item \<longleftrightarrow> original_stored O1 cfg item \<and>
     (case item_status (Some item) of None \<Rightarrow> False
      | Some st \<Rightarrow> if st = COMPLETE then results_stored O1 cfg item else True)"

lemma output_stored_mono: "output_stored O1 b v \<Longrightarrow> (\<And>x. O1 x \<noteq> None \<Longrightarrow> O2 x \<noteq> None) \<Longrightarrow> output_stored O2 b v"
  by (cases v) (auto split: option.splits pyval.splits)

lemma results_stored_mono: "results_stored O1 cfg item \<Longrightarrow> (\<And>x. O1 x \<noteq> None \<Longrightarrow> O2 x \<noteq> None) \<Longrightarrow> results_stored O2 cfg item"
  unfolding results_stored_def by (auto split: option.splits pyval.splits simp: list_all_iff intro: output_stored_mono)

lemma original_stored_mono: "original_stored O1 cfg item \<Longrightarrow> (\<And>x. O1 x \<noteq> None \<Longrightarrow> O2 x \<noteq> None) \<Longrightarrow> original_stored O2 cfg item"
  unfolding original_stored_def by (auto split: option.splits pyval.splits)

lemma backed_mono: "backed O1 cfg item \<Longrightarrow> (\<And>x. O1 x \<noteq> None \<Longrightarrow> O2 x \<noteq> None) \<Longrightarrow> backed O2 cfg item"
  unfolding backed_def by (auto split: option.splits if_splits intro: results_stored_mono original_stored_mono)

lemma item_status_state: "job_state_of (Some i) = In st \<Longrightarrow> item_status (Some i) = Some st"
  by (simp add: job_state_of_def split: option.splits)

lemma backed_by_state:
  assumes "job_state_of (Some i) = In st" "original_stored O1 cfg i" "st = COMPLETE \<Longrightarrow> results_stored O1 cfg i"
  shows "backed O1 cfg i"
  using assms item_status_state [OF assms(1)] by (simp add: backed_def)

lemma backed_initial:
  assumes "initial_item item rc" "O1 (s3_bucket cfg, jr_input_key rc) \<noteq> None"
  shows "backed O1 cfg item"
proof (rule backed_by_state [OF initial_state [OF assms(1)]])
  show "original_stored O1 cfg item"
    using assms by (simp add: original_stored_def initial_item_def to_item_def record_dump_def to_dynamo_dict_def dict_get_def)
  show "results_stored O1 cfg item" if "jr_status rc = COMPLETE"
    using assms(1) that by (simp add: initial_item_def)
qed

text \<open>None of the updates touches the input key.\<close>

lemma sets_to_original:
  assumes "sets_to as removed values (Some before) after" "map_of as ''input_key'' = None" "''input_key'' \<notin> set removed"
    and "original_stored O1 cfg before"
  shows "original_stored O1 cfg after"
  using assms by (simp add: sets_to_def original_stored_def item_attr_def)

text \<open>What \<open>mark_complete\<close> writes as \<open>outputs\<close>.\<close>

lemma complete_outputs:
  "dict_get (complete_values os ex w h f ms now) '':outputs'' =
     Some (PDict (map (\<lambda>(k, t). (k, to_dynamo (thumbnail_dump t))) os))"
proof -
  have "(k, thumbnail_dump t) \<in> set xs \<Longrightarrow> thumbnail_dump t \<noteq> PNone" for k t xs
    by (simp add: thumbnail_dump_def)
  then have "filter (\<lambda>(k, v). v \<noteq> PNone) (map (\<lambda>(k, t). (k, thumbnail_dump t)) os) = map (\<lambda>(k, t). (k, thumbnail_dump t)) os"
    by (induction os) (auto simp: thumbnail_dump_def)
  then show ?thesis
    by (simp add: complete_values_def to_dynamo_dict_def dict_get_def comp_def split_def)
qed

lemma dumped_key:
  "to_dynamo (thumbnail_dump t) = PDict d \<Longrightarrow> dict_get d ''key'' = Some (PStr (to_key t))"
  by (auto simp: thumbnail_dump_def dict_get_def)

lemma dumped_output_stored: "output_stored O1 b (to_dynamo (thumbnail_dump t)) \<longleftrightarrow> O1 (b, to_key t) \<noteq> None"
proof -
  obtain d where d: "to_dynamo (thumbnail_dump t) = PDict d" by (simp add: thumbnail_dump_def)
  from dumped_key [OF d] show ?thesis by (simp add: d)
qed

lemma results_ready_stored:
  assumes "results_ready (s3_bucket cfg) (thumbnail_sizes cfg) job seen vs"
    and "\<And>b k. object_stored seen b k \<Longrightarrow> O1 (b, k) \<noteq> None"
    and "dict_get after ''outputs'' = dict_get vs '':outputs''"
  shows "results_stored O1 cfg after"
proof -
  from assms(1) obtain po ms now tr where po: "set tr \<subseteq> seen" "rendered (s3_bucket cfg) (thumbnail_sizes cfg) job tr po"
      "vs = complete_values (po_outputs po) (po_exif po) (po_width po) (po_height po) (po_format po) ms now"
    unfolding results_ready_def by blast
  from po(2) obtain ts where ts: "map rt_size ts = sort (remdups (thumbnail_sizes cfg))"
      "po_outputs po = map (\<lambda>t. (show_int (rt_size t), thumb_output job t)) ts"
      "\<forall>t \<in> set ts. stored_thumb (s3_bucket cfg) job t \<in> set tr"
    unfolding rendered_def by blast
  have "O1 (s3_bucket cfg, to_key (thumb_output job t)) \<noteq> None" if "t \<in> set ts" for t
  proof -
    from ts(3) that po(1) have "stored_thumb (s3_bucket cfg) job t \<in> seen" by blast
    then have "object_stored seen (s3_bucket cfg) (to_key (thumb_output job t))"
      by (auto simp: object_stored_def stored_thumb_def thumb_output_def)
    then show ?thesis by (rule assms(2))
  qed
  then have "list_all (output_stored O1 (s3_bucket cfg))
      (map snd (map (\<lambda>(k, t). (k, to_dynamo (thumbnail_dump t))) (po_outputs po)))"
    by (simp add: ts(2) list_all_iff dumped_output_stored)
  moreover have "map fst (map (\<lambda>(k, t). (k, to_dynamo (thumbnail_dump t))) (po_outputs po)) =
      map show_int (sort (remdups (thumbnail_sizes cfg)))"
    by (simp add: ts flip: ts(1))
  moreover have "dict_get after ''outputs'' = Some (PDict (map (\<lambda>(k, t). (k, to_dynamo (thumbnail_dump t))) (po_outputs po)))"
    using assms(3) by (simp add: po(3) complete_outputs)
  ultimately show ?thesis by (simp only: results_stored_def option.case pyval.case)
qed

text \<open>An update of the system keeps a record backed.\<close>

lemma backed_update:
  assumes up: "documented up" and w: "table_write tbl j (UpdateItem tbl j u c ns vs)" and i: "up u c ns vs (Some before) = Some after"
    and before: "backed O1 cfg before"
    and ready: "u = COMPLETE_UPDATE \<Longrightarrow> results_ready (s3_bucket cfg) (thumbnail_sizes cfg) j seen vs"
    and seen: "\<And>b k. object_stored seen b k \<Longrightarrow> O1 (b, k) \<noteq> None"
  shows "backed O1 cfg after"
  using w unfolding table_write_def
proof (elim disjE exE)
  have original: "original_stored O1 cfg before" using before by (simp add: backed_def)
  {
    fix now
    assume "UpdateItem tbl j u c ns vs = processing_request tbl j now"
    then have i': "up PROCESSING_UPDATE (Some PROCESSING_CONDITION) [(''#s'', ''status'')] (processing_values now) (Some before) = Some after"
      using i by (simp add: processing_request_def)
    have "sets_to [(''status'', '':processing''), (''started_at'', '':now''), (''updated_at'', '':now'')] [] (processing_values now) (Some before) after"
      using documented_processing [OF up, of "Some before" now] i' by (auto split: if_splits)
    then have "original_stored O1 cfg after" by (rule sets_to_original) (simp_all add: original)
    with documented_claim [OF up i'] show ?thesis by (rule backed_by_state) simp
  }
  {
    fix os ex wd h f ms now
    assume "UpdateItem tbl j u c ns vs = complete_request tbl j os ex wd h f ms now"
    then have eq: "u = COMPLETE_UPDATE" "vs = complete_values os ex wd h f ms now"
      and i': "up COMPLETE_UPDATE None [(''#s'', ''status''), (''#e'', ''error'')] (complete_values os ex wd h f ms now) (Some before) = Some after"
      using i by (simp_all add: complete_request_def)
    have s: "sets_to [(''status'', '':status''), (''outputs'', '':outputs''), (''exif'', '':exif''), (''source_width'', '':width''),
      (''source_height'', '':height''), (''source_format'', '':format''), (''processing_ms'', '':ms''),
      (''completed_at'', '':now''), (''updated_at'', '':now'')] [''error''] (complete_values os ex wd h f ms now) (Some before) after"
      using documented_complete [OF up, of os ex wd h f ms now "Some before"] i' by auto
    have state: "job_state_of (Some after) = In COMPLETE"
      by (rule sets_to_status [OF s _ _ complete_status]) simp_all
    have "original_stored O1 cfg after" by (rule sets_to_original [OF s]) (simp_all add: original)
    moreover have "dict_get after ''outputs'' = dict_get vs '':outputs''"
      using s by (simp add: sets_to_def eq(2))
    then have "results_stored O1 cfg after"
      using results_ready_stored [OF ready [OF eq(1)], of O1 after] seen by blast
    ultimately show ?thesis using state by (intro backed_by_state)
  }
  {
    fix reason now
    assume "UpdateItem tbl j u c ns vs = failed_request tbl j reason now"
    then have i': "up FAILED_UPDATE None [(''#s'', ''status''), (''#e'', ''error'')] (failed_values reason now) (Some before) = Some after"
      using i by (simp add: failed_request_def)
    have s: "sets_to [(''status'', '':status''), (''error'', '':reason''), (''completed_at'', '':now''), (''updated_at'', '':now'')]
        [] (failed_values reason now) (Some before) after"
      using documented_failed [OF up, of reason now "Some before"] i' by auto
    have "job_state_of (Some after) = In FAILED"
      by (rule sets_to_status [OF s _ _ failed_status]) simp_all
    moreover have "original_stored O1 cfg after" by (rule sets_to_original [OF s]) (simp_all add: original)
    ultimately show ?thesis by (rule backed_by_state) simp
  }
qed

section \<open>The invariant of the system\<close>

text \<open>The cloud is where the events seen so far say it is.\<close>

definition reflects :: "config \<Rightarrow> event list \<Rightarrow> cloud \<Rightarrow> bool" where
  "reflects cfg seen c \<longleftrightarrow>
     (\<forall>b k. object_stored (set seen) b k \<longrightarrow> cl_objects c (b, k) \<noteq> None) \<and>
     (\<forall>j. (\<exists>ev \<in> set seen. found (dynamodb_table cfg) j ev) \<longrightarrow> cl_items c j \<noteq> None) \<and>
     (\<forall>item j. (PutItem (dynamodb_table cfg) item, Returned PNone) \<in> set seen \<longrightarrow> dict_get item ''job_id'' = Some (PStr j) \<longrightarrow>
        cl_items c j \<noteq> None)"

text \<open>The message a body stands for has its record and its original.\<close>

definition job_ready :: "'w env \<Rightarrow> config \<Rightarrow> cloud \<Rightarrow> string \<Rightarrow> bool" where
  "job_ready env cfg c body \<longleftrightarrow>
     (\<exists>rc. body = dump_message env (new_message cfg rc) \<and> cl_items c (jr_job_id rc) \<noteq> None \<and>
        cl_objects c (s3_bucket cfg, jr_input_key rc) \<noteq> None)"

definition well_kept :: "'w env \<Rightarrow> config \<Rightarrow> cloud \<Rightarrow> bool" where
  "well_kept env cfg c \<longleftrightarrow>
     (\<forall>j item. cl_items c j = Some item \<longrightarrow> backed (cl_objects c) cfg item) \<and>
     (\<forall>body \<in> cl_sent c. job_ready env cfg c body)"

lemma object_stored_snoc: "object_stored (insert ev S) b k \<longleftrightarrow> object_stored S b k \<or> (\<exists>d t. ev = (PutObject b k d t, Returned PNone))"
  by (auto simp: object_stored_def)

lemma reflects_step:
  assumes "reflects cfg seen c" "cloud_step up cfg c ev c'"
  shows "reflects cfg (seen @ [ev]) c'"
proof -
  from assms(2) have t: "table_step up (dynamodb_table cfg) (cl_items c) ev (cl_items c')"
    and o: "object_step (cl_objects c) ev (cl_objects c')" by (simp_all add: cloud_step_def)
  have "cl_objects c' (b, k) \<noteq> None" if "object_stored (set (seen @ [ev])) b k" for b k
    using that assms(1) object_step_keeps [OF o, of "(b, k)"] object_step_stored [of "cl_objects c" b k _ _ _ "cl_objects c'"] o
    by (auto simp: object_stored_snoc reflects_def)
  moreover have "cl_items c' j \<noteq> None" if "\<exists>ev \<in> set (seen @ [ev]). found (dynamodb_table cfg) j ev" for j
    using that assms(1) table_step_keeps [OF t, of j] table_step_found [OF t, of j]
    unfolding reflects_def set_append list.set by blast
  moreover have "cl_items c' j \<noteq> None"
    if "(PutItem (dynamodb_table cfg) item, Returned PNone) \<in> set (seen @ [ev])" "dict_get item ''job_id'' = Some (PStr j)" for item j
    using that assms(1) table_step_keeps [OF t, of j] table_step_put [of up "dynamodb_table cfg" "cl_items c" item _ "cl_items c'" j] t
    unfolding reflects_def set_append list.set by blast
  ultimately show ?thesis unfolding reflects_def by blast
qed

text \<open>What a step does to a record it changes.\<close>

lemma items_step:
  assumes up: "documented up" and due: "due env cfg seen ev" and seen: "reflects cfg seen c"
    and step: "cloud_step up cfg c ev c'" and kept: "well_kept env cfg c"
    and item: "cl_items c' j = Some item"
  shows "backed (cl_objects c') cfg item"
proof -
  let ?tbl = "dynamodb_table cfg"
  obtain q res where ev: "ev = (q, res)" by (cases ev)
  from step have t: "table_step up ?tbl (cl_items c) (q, res) (cl_items c')"
    and o: "object_step (cl_objects c) ev (cl_objects c')" by (simp_all add: cloud_step_def ev)
  have grown: "backed (cl_objects c') cfg it" if "backed (cl_objects c) cfg it" for it
    by (rule backed_mono [OF that]) (rule object_step_keeps [OF o])
  have old: "backed (cl_objects c') cfg item" if "cl_items c j = Some item"
    by (rule grown) (use kept that in \<open>simp add: well_kept_def\<close>)
  have stored: "cl_objects c (b, k) \<noteq> None" if "object_stored (set seen) b k" for b k
    using seen that by (simp add: reflects_def)
  show ?thesis
  proof (cases q)
    case (PutItem t0 it)
    with due obtain rc where rc: "t0 = ?tbl" "initial_item it rc" "object_stored (set seen) (s3_bucket cfg) (jr_input_key rc)"
      by (auto simp: due_def ev)
    have new: "backed (cl_objects c') cfg it"
      by (rule grown, rule backed_initial [OF rc(2)]) (rule stored [OF rc(3)])
    from t [unfolded PutItem rc(1)] show ?thesis
      by (rule put_stepE) (use item new old in \<open>auto split: if_splits\<close>)
  next
    case (UpdateItem t0 k u cond ns vs)
    with due have d: "table_write ?tbl k (UpdateItem t0 k u cond ns vs)" "\<exists>ev \<in> set seen. found ?tbl k ev"
        "u = COMPLETE_UPDATE \<longrightarrow> results_ready (s3_bucket cfg) (thumbnail_sizes cfg) k (set seen) vs"
      by (simp_all add: due_def ev)
    then have t0: "t0 = ?tbl" by (auto dest: table_write_update)
    from d(2) seen obtain before where before: "cl_items c k = Some before" unfolding reflects_def by blast
    have b: "backed (cl_objects c) cfg before" using kept before by (simp add: well_kept_def)
    from t [unfolded UpdateItem t0] show ?thesis
    proof (rule update_stepE)
      fix i
      assume i: "cl_items c' = (cl_items c)(k \<mapsto> i)" "up u cond ns vs (cl_items c k) = Some i"
      have "backed (cl_objects c') cfg i"
        by (rule grown, rule backed_update [OF up d(1) [unfolded t0] i(2) [unfolded before] b]) (use d(3) stored in auto)
      with i(1) item old show ?thesis by (cases "j = k") auto
    qed (use item old in auto)
  qed (use t item old in \<open>auto elim: table_step.cases\<close>)
qed

lemma job_ready_step:
  assumes "job_ready env cfg c body" "cloud_step up cfg c ev c'"
  shows "job_ready env cfg c' body"
proof -
  from assms(2) have t: "table_step up (dynamodb_table cfg) (cl_items c) ev (cl_items c')" and o: "object_step (cl_objects c) ev (cl_objects c')"
    by (simp_all add: cloud_step_def)
  from assms(1) obtain rc where "body = dump_message env (new_message cfg rc)" "cl_items c (jr_job_id rc) \<noteq> None"
      "cl_objects c (s3_bucket cfg, jr_input_key rc) \<noteq> None"
    unfolding job_ready_def by blast
  then show ?thesis
    unfolding job_ready_def by (intro exI [of _ rc] conjI table_step_keeps [OF t] object_step_keeps [OF o])
qed

lemma sent_step:
  assumes due: "due env cfg seen ev" and seen: "reflects cfg seen c"
    and step: "cloud_step up cfg c ev c'" and kept: "well_kept env cfg c" and body: "body \<in> cl_sent c'"
  shows "job_ready env cfg c' body"
proof (rule job_ready_step [OF _ step])
  have "send_step (sqs_queue_url cfg) (cl_sent c) ev (cl_sent c')" using step by (simp add: cloud_step_def)
  then show "job_ready env cfg c body"
  proof (cases rule: send_step.cases)
    case (accepted b attrs res)
    show ?thesis
    proof (cases "body = b")
      case True
      with due accepted(1) obtain rc where rc: "body = dump_message env (new_message cfg rc)"
          "object_stored (set seen) (s3_bucket cfg) (jr_input_key rc)"
          "(PutItem (dynamodb_table cfg) (to_dynamo_dict (to_item rc)), Returned PNone) \<in> set seen"
        by (auto simp: due_def message_ready_def)
      have "dict_get (to_dynamo_dict (to_item rc)) ''job_id'' = Some (PStr (jr_job_id rc))"
        by (simp add: to_item_def record_dump_def to_dynamo_dict_def dict_get_def)
      with rc seen show ?thesis unfolding job_ready_def reflects_def by blast
    qed (use accepted(2) body kept in \<open>auto simp: well_kept_def\<close>)
  qed (use body kept in \<open>auto simp: well_kept_def\<close>)
qed

lemma well_kept_step:
  assumes "documented up" "due env cfg seen ev" "reflects cfg seen c" "cloud_step up cfg c ev c'" "well_kept env cfg c"
  shows "well_kept env cfg c'"
  unfolding well_kept_def using items_step [OF assms(1,2,3,4,5)] sent_step [OF assms(2,3,4,5)] by blast

lemma well_kept_run:
  assumes up: "documented up"
  shows "cloud_run up cfg c tr c' \<Longrightarrow> paced (due env cfg) seen tr \<Longrightarrow> reflects cfg seen c \<Longrightarrow> well_kept env cfg c \<Longrightarrow>
    well_kept env cfg c'"
proof (induction arbitrary: seen rule: cloud_run.induct)
  case (serve c ev c1 tr c2)
  from serve.prems(1) have d: "due env cfg seen ev" "paced (due env cfg) (seen @ [ev]) tr" by simp_all
  show ?case
    by (rule serve.IH [OF d(2) reflects_step [OF serve.prems(2) serve.hyps(1)] well_kept_step [OF up d(1) serve.prems(2) serve.hyps(1) serve.prems(3)]])
qed

lemma empty_kept: "reflects cfg [] empty_cloud" "well_kept env cfg empty_cloud"
  by (simp_all add: reflects_def well_kept_def empty_cloud_def object_stored_def)

lemma paced_weaken: "paced P S tr \<Longrightarrow> (\<And>S ev. P S ev \<Longrightarrow> Q S ev) \<Longrightarrow> paced Q S tr"
  by (induction tr arbitrary: S) auto

lemma in_order_due: "paced (in_order env cfg) S tr \<Longrightarrow> paced (due env cfg) S tr"
  by (erule paced_weaken) (simp add: in_order_def)

lemma ordered_kept:
  "documented up \<Longrightarrow> paced (in_order env cfg) [] tr \<Longrightarrow> cloud_run up cfg empty_cloud tr c \<Longrightarrow> well_kept env cfg c"
  by (rule well_kept_run [OF _ _ in_order_due empty_kept])

lemma system_kept:
  "documented up \<Longrightarrow> system_log env cfg tr \<Longrightarrow> cloud_run up cfg empty_cloud tr c \<Longrightarrow> well_kept env cfg c"
  by (rule ordered_kept [OF _ system_paced])

section \<open>Deletions, seen from the system\<close>

lemma cloud_run_append: "cloud_run up cfg c (a @ b) c' \<longleftrightarrow> (\<exists>c1. cloud_run up cfg c a c1 \<and> cloud_run up cfg c1 b c')"
  by (induction a arbitrary: c) auto

lemma items_run: "cloud_run up cfg c tr c' \<Longrightarrow> cl_items c j \<noteq> None \<Longrightarrow> cl_items c' j \<noteq> None"
proof (induction rule: cloud_run.induct)
  case (serve c ev c1 tr c2)
  have "table_step up (dynamodb_table cfg) (cl_items c) ev (cl_items c1)" using serve.hyps(1) by (simp add: cloud_step_def)
  from serve.IH [OF table_step_keeps [OF this serve.prems]] show ?case .
qed simp

lemma sent_stays: "cloud_run up cfg c tr c' \<Longrightarrow> b \<in> cl_sent c \<Longrightarrow> b \<in> cl_sent c'"
proof (induction rule: cloud_run.induct)
  case (serve c ev c1 tr c2)
  have "send_step (sqs_queue_url cfg) (cl_sent c) ev (cl_sent c1)" using serve.hyps(1) by (simp add: cloud_step_def)
  then have "b \<in> cl_sent c1" using serve.prems by (cases rule: send_step.cases) auto
  then show ?case by (rule serve.IH)
qed simp

lemma handed_was_sent: "send_step url M ev M' \<Longrightarrow> hands url rh body ev \<Longrightarrow> body \<in> M"
  by (cases rule: send_step.cases) auto

text \<open>A record that is settled and backed has ended.\<close>

lemma settled_ended:
  assumes "settled_item (Some item)" "backed O1 cfg item"
  shows "job_state_of (Some item) = In COMPLETE \<or> job_state_of (Some item) = In FAILED"
proof -
  have "item \<noteq> []" using assms(2) by (auto simp: backed_def original_stored_def dict_get_def)
  with assms(1) show ?thesis by (simp add: settled_item_def)
qed

lemma settled_before_delete:
  assumes up: "documented up" and val: "status_validated env" and codec: "codec_ok env"
    and order: "paced (in_order env cfg) [] a" and ready: "delete_ready env cfg a rh" and run: "cloud_run up cfg empty_cloud a c"
  shows "\<exists>body job l1 l2 c1. body \<in> cl_sent c1 \<and> parse_message env body = Inr job \<and> a = l1 @ l2 \<and> cloud_run up cfg empty_cloud l1 c1 \<and>
     (\<exists>rv \<in> set l1. hands (sqs_queue_url cfg) rh body rv) \<and>
     (job_state_of (cl_items c1 (jm_job_id job)) = In COMPLETE \<or> job_state_of (cl_items c1 (jm_job_id job)) = In FAILED)"
proof -
  from ready obtain body a1 rv b1 where a: "a = a1 @ rv # b1" and h: "hands (sqs_queue_url cfg) rh body rv"
    and st: "case parse_message env body of Inl e \<Rightarrow> True
         | Inr job \<Rightarrow> \<exists>x \<in> set b1. settles (dynamodb_table cfg) (decode_item env) (jm_job_id job) x"
    unfolding delete_ready_def by blast
  from run obtain c1 c2 where r1: "cloud_run up cfg empty_cloud a1 c1" "cloud_step up cfg c1 rv c2" "cloud_run up cfg c2 b1 c"
    unfolding a cloud_run_append by auto
  have body: "body \<in> cl_sent c1" using r1(2) h by (auto simp: cloud_step_def dest: handed_was_sent)
  have "well_kept env cfg c1"
    by (rule ordered_kept [OF up _ r1(1)]) (use order in \<open>simp add: a paced_append\<close>)
  with body obtain rc where rc: "body = dump_message env (new_message cfg rc)" "cl_items c1 (jr_job_id rc) \<noteq> None"
    unfolding well_kept_def job_ready_def by blast
  have parse: "parse_message env body = Inr (new_message cfg rc)"
    using codec by (simp add: codec_ok_def rc(1) new_message_def)
  let ?j = "jr_job_id rc"
  have j: "jm_job_id (new_message cfg rc) = ?j" by (simp add: new_message_def)
  from st obtain x where x: "x \<in> set b1" "settles (dynamodb_table cfg) (decode_item env) ?j x" by (auto simp: parse j)
  from x(1) obtain b2 b3 where b1: "b1 = b2 @ x # b3" by (auto dest: split_list)
  from r1(3) obtain c3 c4 where r2: "cloud_run up cfg c2 b2 c3" "cloud_step up cfg c3 x c4"
    unfolding b1 cloud_run_append by auto
  let ?l1 = "a1 @ rv # b2 @ [x]"
  have run1: "cloud_run up cfg empty_cloud ?l1 c4" unfolding cloud_run_append using r1(1,2) r2 by (auto simp: cloud_run_append)
  have ord1: "paced (in_order env cfg) [] ?l1" and due: "due env cfg (a1 @ rv # b2) x"
    using order by (simp_all add: a b1 paced_append in_order_def)
  have kept: "well_kept env cfg c4" by (rule ordered_kept [OF up ord1 run1])
  have t1: "table_step up (dynamodb_table cfg) (cl_items c1) rv (cl_items c2)"
    and t2: "table_step up (dynamodb_table cfg) (cl_items c3) x (cl_items c4)"
    using r1(2) r2(2) by (simp_all add: cloud_step_def)
  have "cl_items c4 ?j \<noteq> None"
    by (rule table_step_keeps [OF t2 items_run [OF r2(1) table_step_keeps [OF t1 rc(2)]]])
  then obtain item where item: "cl_items c4 ?j = Some item" by blast
  have "settled_item (cl_items c4 ?j)"
    by (rule settles_step [OF up val due_system [OF due] x(2) t2])
  moreover have "backed (cl_objects c4) cfg item" using kept item by (simp add: well_kept_def)
  ultimately have ended: "job_state_of (cl_items c4 ?j) = In COMPLETE \<or> job_state_of (cl_items c4 ?j) = In FAILED"
    unfolding item by (rule settled_ended)
  have "body \<in> cl_sent c4"
  proof -
    have "body \<in> cl_sent c'" if "cloud_run up cfg c0 tr c'" "body \<in> cl_sent c0" for c0 tr c'
      using that by (rule sent_stays)
    from this [of c1 "rv # b2 @ [x]" c4] body run1 r1(2) r2 show ?thesis by (auto simp: cloud_run_append)
  qed
  with parse ended run1 h show ?thesis
    by (intro exI [of _ body] exI [of _ "new_message cfg rc"] exI [of _ ?l1] exI [of _ b3] exI [of _ c4]) (simp add: a b1 j)
qed

section \<open>Properties\<close>

text \<open>
  C3: A record never promises what is not there. However any number of API replicas and workers, each run
  to its end or cut off, are interleaved over an initially empty cloud, every record has a readable status and its
  original stored, and a record that is \<open>COMPLETE\<close> lists one output per configured size, each naming a
  stored object.
\<close>

theorem records_are_backed:
  assumes "documented up" "system_log env cfg tr" "cloud_run up cfg empty_cloud tr c" "cl_items c j = Some item"
  shows "original_stored (cl_objects c) cfg item \<and>
    (\<exists>st. item_status (Some item) = Some st \<and> (if st = COMPLETE then results_stored (cl_objects c) cfg item else True))"
proof -
  from system_kept [OF assms(1-3)] assms(4) have "backed (cl_objects c) cfg item" by (simp add: well_kept_def)
  then show ?thesis by (cases "item_status (Some item)") (simp_all add: backed_def)
qed

text \<open>
  C10: Every message on the queue can be worked on. In any such interleaving, a message the queue has accepted
  parses to a job of the supported schema and the configured bucket whose record exists and whose original is stored.
\<close>

theorem queued_jobs_are_ready:
  assumes "documented up" "codec_ok env" "system_log env cfg tr" "cloud_run up cfg empty_cloud tr c"
    and "body \<in> cl_sent c"
  shows "\<exists>job. parse_message env body = Inr job \<and> jm_schema_version job = MESSAGE_SCHEMA_VERSION \<and>
    jm_bucket job = s3_bucket cfg \<and> cl_items c (jm_job_id job) \<noteq> None \<and> cl_objects c (jm_bucket job, jm_input_key job) \<noteq> None"
proof -
  from system_kept [OF assms(1,3,4)] assms(5) obtain rc where rc: "body = dump_message env (new_message cfg rc)"
      "cl_items c (jr_job_id rc) \<noteq> None" "cl_objects c (s3_bucket cfg, jr_input_key rc) \<noteq> None"
    unfolding well_kept_def job_ready_def by blast
  have "parse_message env body = Inr (new_message cfg rc)"
    using assms(2) by (simp add: codec_ok_def rc(1) new_message_def)
  with rc(2,3) show ?thesis by (intro exI [of _ "new_message cfg rc"]) (simp add: new_message_def)
qed

lemma opt_field_keys: "a \<in> fst ` set (opt_field k f x) \<longleftrightarrow> a = k \<and> x \<noteq> None"
  by (cases x) (auto simp: opt_field_def)

lemma no_outputs:
  assumes "jr_outputs r = None" "jr_extra r = []"
  shows "dict_get (to_dynamo_dict (to_item r)) ''outputs'' = None"
proof -
  have "''outputs'' \<notin> fst ` set (record_dump r)"
    by (simp add: record_dump_def image_Un opt_field_keys assms)
  then have "dict_get (to_item r) ''outputs'' = None"
    by (simp add: to_item_def) (simp add: dict_get_def map_of_eq_None_iff)
  then show ?thesis
    by (auto simp: dict_get_def map_of_eq_None_iff to_dynamo_dict_def rev_image_eqI)
qed

text \<open>
  C4: No accepted job is dropped. In any such interleaving, a worker attempts to delete a message only after the queue
  handed it out, and after that the record of its job, which exists since the upload, was \<open>COMPLETE\<close> or \<open>FAILED\<close> at some
  moment before: a message whose job has not ended is never deleted.
\<close>

theorem no_job_is_dropped:
  assumes "documented up" "status_validated env" "codec_ok env" "system_log env cfg (a @ (DeleteMessage u rh, res) # b)"
    and "cloud_run up cfg empty_cloud (a @ (DeleteMessage u rh, res) # b) c"
  shows "\<exists>body job l1 l2 c1. body \<in> cl_sent c1 \<and> parse_message env body = Inr job \<and> a = l1 @ l2 \<and> cloud_run up cfg empty_cloud l1 c1 \<and>
     (\<exists>rv \<in> set l1. hands (sqs_queue_url cfg) rh body rv) \<and>
     (job_state_of (cl_items c1 (jm_job_id job)) = In COMPLETE \<or> job_state_of (cl_items c1 (jm_job_id job)) = In FAILED)"
proof -
  from system_paced [OF assms(4)] have order: "paced (in_order env cfg) [] a" and "delete_ready env cfg a rh"
    by (simp_all add: paced_append in_order_def delete_due_def)
  moreover from assms(5) obtain c1 where "cloud_run up cfg empty_cloud a c1" by (auto simp: cloud_run_append)
  ultimately show ?thesis by (rule settled_before_delete [OF assms(1-3)])
qed

text \<open>
  When the answer to the send is lost, the upload overwrites its record although a worker may already have
  completed the job: the put takes a \<open>COMPLETE\<close> record to \<open>FAILED\<close>, and its outputs are gone.
\<close>

theorem requeue_put_erases_results:
  assumes "fresh_record env data filename content_type rc" "job_state_of (T (jr_job_id rc)) = In COMPLETE"
  shows "\<exists>T'. table_step up tbl T (PutItem tbl (to_dynamo_dict (to_item (unqueueable rc e updated completed))), Returned PNone) T' \<and>
    job_state_of (T' (jr_job_id rc)) = In FAILED \<and> item_attr (T' (jr_job_id rc)) ''outputs'' = None"
proof -
  let ?rc = "unqueueable rc e updated completed"
  let ?item = "to_dynamo_dict (to_item ?rc)"
  have "dict_get ?item ''job_id'' = Some (PStr (jr_job_id rc))"
    by (simp add: to_item_def record_dump_def to_dynamo_dict_def dict_get_def unqueueable_def)
  moreover have "initial_item ?item ?rc" by (simp add: initial_item_def unqueueable_def)
  then have "job_state_of (Some ?item) = In FAILED" by (simp add: initial_state unqueueable_def)
  moreover from assms(1) have "jr_outputs ?rc = None" "jr_extra ?rc = []"
    by (auto simp: fresh_record_def new_record_def unqueueable_def)
  then have "dict_get ?item ''outputs'' = None" by (rule no_outputs)
  ultimately show ?thesis
    by (intro exI [of _ "T(jr_job_id rc \<mapsto> ?item)"]) (simp add: table_step.put item_attr_def)
qed

section \<open>Witnesses\<close>

text \<open>The upload and the delivery of \<open>Scenario\<close>, one after the other.\<close>

definition scenario_log :: "event list" where
  "scenario_log = upload_log @ delivery_log"

lemma append_shuffled: "xs @ ys \<in> shuffles xs ys"
  by (induction xs) (auto intro: Cons_in_shuffles_leftI)

lemma emits_dispatch:
  assumes "emits call t r"
  shows "emits (dispatch healthy m endpoint call) t r"
proof -
  have books: "emits (bind (modify (\<lambda>s. s\<lparr>http_durations := f s, http_requests_total := g s\<rparr>))
      (\<lambda>_. bind (ask (span_ids healthy)) (\<lambda>ids. of_sum r))) [] r" for f g
    by (rule emits_then [OF emits_modify], simp, rule emits_then [OF emits_ask [where x = "(None, None)"] emits_of_sum], simp)
  show ?thesis
    unfolding dispatch_def Let_def record_http_def
    by (rule emits_then [OF emits_ask [where x = 0]], simp, rule emits_last [OF emits_attempt [OF assms]],
        rule emits_then [OF emits_ask [where x = 0]], simp, rule books)
qed

lemma emits_app_session:
  assumes "app_config app = sample_config" "app_chaos app = ChaosState"
  shows "\<exists>rs. emits (app_session healthy None page app [\<lparr>rq_method = ''POST'', rq_route = CreateJob None ''x'' None (Some ''image/png'')\<rparr>])
     upload_log (Inr rs)"
proof -
  let ?C = "build_clients healthy sample_config" and ?resp = "respond 202 [(''job_id'', PStr (jr_job_id healthy_record)),
      (''status'', PStr (status_value (jr_status healthy_record)))]"
  let ?rq = "\<lparr>rq_method = ''POST'', rq_route = CreateJob None ''x'' None (Some ''image/png'')\<rparr>"
  have chaos: "emits (apply_chaos healthy ChaosState) [] (Inr ())"
    unfolding apply_chaos_def should_fail_request_def
    by (rule emits_then [where x = "()"], simp add: latency_seconds_def ChaosState_def emits_return,
        rule emits_then [where x = False], simp_all add: ChaosState_def emits_return)
  have read: "read_limited (max_upload_bytes sample_config) (upload_reads CHUNK_BYTES ''x'') [] 0 = Inr ''x''"
    by (subst read_limited_acc) (simp_all add: CHUNK_BYTES_def)
  have "emits (bind (of_sum (Inr ''x'')) (\<lambda>data. create_job healthy sample_config ?C data None (Some ''image/png''))) upload_log (Inr healthy_record)"
    by (rule emits_then [OF emits_of_sum]) (rule emits_create_job)
  from emits_attempt [OF this]
  have "emits (route_create_job healthy sample_config ?C None ''x'' None (Some ''image/png'')) upload_log (Inr ?resp)"
    unfolding route_create_job_def check_declared_length_def option.case read
    by (intro emits_then [OF emits_of_sum]) (erule emits_last, simp add: emits_return)
  then have "emits (run_route healthy sample_config ?C page ChaosState (CreateJob None ''x'' None (Some ''image/png''))) upload_log (Inr ?resp)"
    unfolding run_route_def route.case by (rule emits_then [OF chaos])
  from emits_attempt [OF this]
  have "emits (with_handlers (run_route healthy sample_config ?C page ChaosState (CreateJob None ''x'' None (Some ''image/png'')))) upload_log (Inr ?resp)"
    unfolding with_handlers_def by (rule emits_last) (simp add: emits_return)
  from emits_dispatch [OF this]
  have "emits (serve healthy sample_config ?C page ChaosState ?rq) upload_log (Inr ?resp)"
    unfolding serve_def Let_def by (simp add: mounted_def)
  from emits_attempt [OF this]
  have "emits (session healthy sample_config ?C page ChaosState [?rq]) upload_log (Inr [Inr ?resp])"
    unfolding session.simps by (rule emits_last) (intro emits_then [OF emits_return] emits_return)
  moreover have "emits (connect_clients healthy sample_config) [] (Inr ())"
    unfolding connect_clients_def
    by (intro emits_then [OF emits_ask_io [where r = "Inr ()"]] emits_ask_io) simp_all
  ultimately show ?thesis unfolding app_session_started assms by (blast intro: emits_then)
qed

lemma scenario_system: "system_log healthy sample_config scenario_log"
proof -
  let ?C = "build_clients healthy sample_config"
  obtain app :: "unit app" where app: "create_app (\<lambda>_. None) (Some sample_config) None = Inr app" "app_config app = sample_config"
      "app_chaos app = ChaosState" by (simp add: create_app_def)
  let ?rqs = "[\<lparr>rq_method = ''POST'', rq_route = CreateJob None ''x'' None (Some ''image/png'')\<rparr>]"
  from emits_app_session [OF app(2,3), of "\<lambda>_. PNone"] have
    "wire (snd (app_session healthy None (\<lambda>_. PNone) app ?rqs blank)) = wire blank @ (upload_log @ [])" by (auto simp: emits_def)
  with app have "service_log healthy sample_config (upload_log @ [])" unfolding service_log_def by blast
  then have up: "system_log healthy sample_config upload_log"
    by (rule system_log.joined [OF system_log.quiet]) simp
  have once: "emits (run_turn healthy sample_config ?C Worker) delivery_log (Inr ())"
    unfolding run_turn_def by (rule emits_last [OF emits_attempt [OF emits_run_once]]) (simp add: emits_return)
  then obtain s' where s': "run_turn healthy sample_config ?C Worker blank = (Inr (), s')" "wire s' = wire blank @ delivery_log"
    by (cases "run_turn healthy sample_config ?C Worker blank") (auto simp: emits_def dest: spec [of _ blank])
  have "run_worker (Suc 0) (\<lambda>s. wire s \<noteq> []) healthy sample_config ?C Worker blank = Some (Inr (), s')"
    by (subst run_worker.simps) (simp add: s' run_worker.simps [of 0] delivery_log_def)
  with s'(2) have "service_log healthy sample_config (delivery_log @ [])" unfolding service_log_def by fastforce
  moreover have "upload_log @ delivery_log \<in> shuffles delivery_log upload_log"
    by (subst shuffles_commutes) (rule append_shuffled)
  ultimately show ?thesis unfolding scenario_log_def by (rule system_log.joined [OF up])
qed

text \<open>How a cloud answers the requests of the log.\<close>

lemma serve_put_object: "cloud_step up cfg c (PutObject b k d t, res) (c\<lparr>cl_objects := (cl_objects c)((b, k) \<mapsto> d)\<rparr>)"
  by (simp add: cloud_step_def table_step.elsewhere object_step.stored send_step.no_send)

lemma serve_put_item:
  "dict_get item ''job_id'' = Some (PStr j) \<Longrightarrow>
   cloud_step up cfg c (PutItem (dynamodb_table cfg) item, res) (c\<lparr>cl_items := (cl_items c)(j \<mapsto> item)\<rparr>)"
  by (simp add: cloud_step_def table_step.put object_step.no_put send_step.no_send)

lemma serve_send:
  "cloud_step up cfg c (SendMessage (sqs_queue_url cfg) b a, res) (c\<lparr>cl_sent := insert b (cl_sent c)\<rparr>)"
  by (simp add: cloud_step_def table_step.elsewhere object_step.no_put send_step.accepted)

lemma serve_update:
  "up u cond ns vs (cl_items c j) = Some i \<Longrightarrow>
   cloud_step up cfg c (UpdateItem (dynamodb_table cfg) j u cond ns vs, Returned v) (c\<lparr>cl_items := (cl_items c)(j \<mapsto> i)\<rparr>)"
  by (simp add: cloud_step_def table_step.update refuses_def object_step.no_put send_step.no_send)

lemma serve_get: "cloud_step up cfg c (GetItem (dynamodb_table cfg) j cr, Returned (item_answer (cl_items c j))) c"
  by (simp add: cloud_step_def table_step.get object_step.no_put send_step.no_send)

lemma serve_receive:
  "\<forall>m \<in> set ms. opt_get [] (Body m) \<in> cl_sent c \<Longrightarrow>
   cloud_step up cfg c (ReceiveMessage u n w names atts v, Returned (receive_answer (Some ms))) c"
  by (auto simp: cloud_step_def receive_answer_def intro!: table_step.elsewhere object_step.no_put send_step.no_send)

lemma serve_other:
  "\<not> about_table (dynamodb_table cfg) q \<Longrightarrow> \<not> is_send q \<Longrightarrow> (\<forall>b k d t. q \<noteq> PutObject b k d t) \<Longrightarrow>
   (\<forall>u n w names atts v. q \<noteq> ReceiveMessage u n w names atts v) \<Longrightarrow> cloud_step up cfg c (q, res) c"
  unfolding cloud_step_def
  by (intro conjI table_step.elsewhere object_step.no_put send_step.no_send) (auto elim: hands.elims)

lemma scenario_answers:
  "dict_get healthy_item ''job_id'' = Some (PStr ''u'')"
  "\<exists>i. reference_updater PROCESSING_UPDATE (Some PROCESSING_CONDITION) [(''#s'', ''status'')] (processing_values ''t'') (Some healthy_item) = Some i"
proof -
  show "dict_get healthy_item ''job_id'' = Some (PStr ''u'')"
    by (simp add: healthy_item_def healthy_record_def new_record_def to_item_def record_dump_def to_dynamo_dict_def dict_get_def)
  have "item_attr (Some healthy_item) ''status'' = Some (PStr ''PENDING'')"
    by (simp add: healthy_item_def healthy_record_def new_record_def to_item_def record_dump_def to_dynamo_dict_def dict_get_def item_attr_def)
  then show "\<exists>i. reference_updater PROCESSING_UPDATE (Some PROCESSING_CONDITION) [(''#s'', ''status'')] (processing_values ''t'') (Some healthy_item) = Some i"
    using documented_processing [OF reference_documented, of "Some healthy_item" "''t''"] by auto
qed

lemma served_twice: "cloud_run up cfg c a c1 \<Longrightarrow> cloud_run up cfg c1 b c2 \<Longrightarrow> cloud_run up cfg c (a @ b) c2"
  by (auto simp: cloud_run_append)

text \<open>The clouds after the upload, after the claim, and after the end of the delivery.\<close>

definition uploaded_cloud :: cloud where
  "uploaded_cloud = \<lparr>cl_items = [''u'' \<mapsto> healthy_item], cl_objects = [(''b'', jr_input_key healthy_record) \<mapsto> ''x''],
     cl_sent = {sample_dump healthy_job}\<rparr>"

lemma upload_served: "cloud_run reference_updater sample_config empty_cloud upload_log uploaded_cloud"
proof -
  define c1 where "c1 = empty_cloud\<lparr>cl_objects := (cl_objects empty_cloud)((''b'', jr_input_key healthy_record) \<mapsto> ''x'')\<rparr>"
  define c2 where "c2 = c1\<lparr>cl_items := (cl_items c1)(''u'' \<mapsto> healthy_item)\<rparr>"
  have "cloud_step reference_updater sample_config empty_cloud
      (PutObject ''b'' (jr_input_key healthy_record) ''x'' (jr_content_type healthy_record), Returned PNone) c1"
    unfolding c1_def by (rule serve_put_object)
  moreover have "cloud_step reference_updater sample_config c1 (PutItem ''t'' healthy_item, Returned PNone) c2"
    unfolding c2_def using serve_put_item [OF scenario_answers(1), of _ sample_config] by simp
  moreover have "cloud_step reference_updater sample_config c2 (SendMessage ''q'' (sample_dump healthy_job) [(''job_id'', ''u'')], Returned PNone)
      uploaded_cloud"
    using serve_send [of _ sample_config c2 "sample_dump healthy_job"] by (simp add: c2_def c1_def uploaded_cloud_def empty_cloud_def)
  ultimately show ?thesis
    unfolding upload_log_def by (intro cloud_run.serve) (assumption | rule cloud_run.idle)+
qed

lemma delivery_served: "\<exists>c. cloud_run reference_updater sample_config uploaded_cloud delivery_log c"
proof -
  let ?step = "cloud_step reference_updater sample_config" and ?body = "sample_dump healthy_job"
  let ?c = uploaded_cloud
  obtain i where i: "reference_updater PROCESSING_UPDATE (Some PROCESSING_CONDITION) [(''#s'', ''status'')] (processing_values ''t'')
      (cl_items ?c ''u'') = Some i"
    using scenario_answers(2) by (auto simp: uploaded_cloud_def)
  define c4 where "c4 = ?c\<lparr>cl_items := (cl_items ?c)(''u'' \<mapsto> i)\<rparr>"
  define c5 where "c5 = c4\<lparr>cl_objects := (cl_objects c4)((''b'', thumb_key ''u'' 150) \<mapsto> ''jpeg'')\<rparr>"
  define c6 where "c6 = c5\<lparr>cl_objects := (cl_objects c5)((''b'', thumb_key ''u'' 400) \<mapsto> ''jpeg'')\<rparr>"
  obtain d where d: "reference_updater COMPLETE_UPDATE None [(''#s'', ''status''), (''#e'', ''error'')]
      (complete_values (po_outputs healthy_outputs) (po_exif healthy_outputs) (po_width healthy_outputs)
        (po_height healthy_outputs) (po_format healthy_outputs) 0 ''t'') (cl_items c6 ''u'') = Some d"
    using documented_finish [OF reference_documented] by blast
  define c7 where "c7 = c6\<lparr>cl_items := (cl_items c6)(''u'' \<mapsto> d)\<rparr>"
  have "?step ?c (receive_request ''q'' 1 20 None, Returned (receive_answer (Some [sample_sqs ?body]))) ?c"
    by (rule serve_receive) (simp add: uploaded_cloud_def)
  moreover have "cl_items ?c ''u'' = Some healthy_item" by (simp add: uploaded_cloud_def)
  then have "?step ?c (GetItem ''t'' ''u'' (Some True), Returned (item_answer (Some healthy_item))) ?c"
    using serve_get [of _ sample_config ?c "''u''"] by simp
  moreover have "?step ?c (processing_request ''t'' ''u'' ''t'', Returned PNone) c4"
    unfolding c4_def processing_request_def using serve_update [where up = reference_updater and c = ?c and cfg = sample_config, OF i] by simp
  moreover have "?step c4 (GetObject ''b'' k, Returned PNone) c4" "?step c4 (ReadBody ''b'' k, Returned PNone) c4" for k
    by (rule serve_other; simp)+
  moreover have "?step c4 (PutObject ''b'' (thumb_key ''u'' 150) ''jpeg'' THUMBNAIL_CONTENT_TYPE, Returned PNone) c5"
      "?step c5 (PutObject ''b'' (thumb_key ''u'' 400) ''jpeg'' THUMBNAIL_CONTENT_TYPE, Returned PNone) c6"
    unfolding c5_def c6_def by (rule serve_put_object)+
  moreover have "?step c6 (healthy_complete, Returned PNone) c7"
    unfolding c7_def healthy_complete_def complete_request_def
    using serve_update [where up = reference_updater and c = c6 and cfg = sample_config, OF d] by simp
  moreover have "?step c7 (DeleteMessage ''q'' ''h'', Returned PNone) c7"
    by (rule serve_other) simp_all
  ultimately have "cloud_run reference_updater sample_config ?c delivery_log c7"
    unfolding delivery_log_def delivery_head_def fetch_log_def store_log_def append.simps
    by (intro cloud_run.serve) (assumption | rule cloud_run.idle)+
  then show ?thesis ..
qed

lemma scenario_run:
  "\<exists>c. cloud_run reference_updater sample_config empty_cloud scenario_log c \<and> cl_items c ''u'' \<noteq> None \<and>
     sample_dump healthy_job \<in> cl_sent c"
proof -
  obtain c where c: "cloud_run reference_updater sample_config uploaded_cloud delivery_log c" using delivery_served by blast
  moreover have "cl_items c ''u'' \<noteq> None" by (rule items_run [OF c]) (simp add: uploaded_cloud_def)
  moreover have "sample_dump healthy_job \<in> cl_sent c" by (rule sent_stays [OF c]) (simp add: uploaded_cloud_def)
  ultimately show ?thesis using served_twice [OF upload_served c] unfolding scenario_log_def by blast
qed

theorem records_are_backed_witness:
  "\<exists>(c :: cloud) item. cl_items c ''u'' = Some item \<and> original_stored (cl_objects c) sample_config item \<and>
     (\<exists>st. item_status (Some item) = Some st \<and> (if st = COMPLETE then results_stored (cl_objects c) sample_config item else True))"
proof -
  from scenario_run obtain c where c: "cloud_run reference_updater sample_config empty_cloud scenario_log c" "cl_items c ''u'' \<noteq> None"
    by blast
  from c(2) obtain item where i: "cl_items c ''u'' = Some item" by blast
  from records_are_backed [OF reference_documented scenario_system c(1) i] i show ?thesis by blast
qed

theorem queued_jobs_are_ready_witness:
  "\<exists>(c :: cloud) body job. body \<in> cl_sent c \<and> parse_message healthy body = Inr job \<and> jm_schema_version job = MESSAGE_SCHEMA_VERSION \<and>
     jm_bucket job = ''b'' \<and> cl_items c (jm_job_id job) \<noteq> None \<and> cl_objects c (jm_bucket job, jm_input_key job) \<noteq> None"
proof -
  from scenario_run obtain c where c: "cloud_run reference_updater sample_config empty_cloud scenario_log c" "sample_dump healthy_job \<in> cl_sent c"
    by blast
  from queued_jobs_are_ready [OF reference_documented healthy_env(2) scenario_system c, unfolded sample_config_simps] c(2)
  show ?thesis by blast
qed

theorem no_job_is_dropped_witness:
  "\<exists>body job l1 l2 c1. body \<in> cl_sent c1 \<and> parse_message healthy body = Inr job \<and> upload_log @ delivery_head = l1 @ l2 \<and>
     cloud_run reference_updater sample_config empty_cloud l1 c1 \<and> (\<exists>rv \<in> set l1. hands ''q'' ''h'' body rv) \<and>
     (job_state_of (cl_items c1 (jm_job_id job)) = In COMPLETE \<or> job_state_of (cl_items c1 (jm_job_id job)) = In FAILED)"
proof -
  have split: "scenario_log = (upload_log @ delivery_head) @ (DeleteMessage ''q'' ''h'', Returned PNone) # []"
    by (simp add: scenario_log_def delivery_log_def)
  from scenario_run obtain c where c: "cloud_run reference_updater sample_config empty_cloud scenario_log c" by blast
  from no_job_is_dropped [OF reference_documented healthy_env scenario_system [unfolded split] c [unfolded split], unfolded sample_config_simps]
  show ?thesis .
qed

theorem requeue_put_erases_results_witness:
  "\<exists>rc T'. table_step reference_updater ''t'' [jr_job_id rc \<mapsto> [(''job_id'', PStr (jr_job_id rc)), (''status'', PStr ''COMPLETE'')]]
      (PutItem ''t'' (to_dynamo_dict (to_item (unqueueable rc (OtherError ''ReadTimeoutError'' ''lost'') ''1'' ''2''))), Returned PNone) T' \<and>
    job_state_of (T' (jr_job_id rc)) = In FAILED \<and> item_attr (T' (jr_job_id rc)) ''outputs'' = None"
proof -
  obtain probe where "probe_upload calm ''x'' = Inr probe"
    using sample_accepted by (auto simp: upload_refusal_def split: sum.splits)
  then have f: "fresh_record calm ''x'' None None (new_record ''j'' ''1'' ''1'' None ''x'' None probe None)" (is "fresh_record _ _ _ _ ?rc")
    unfolding fresh_record_def by blast
  have "job_state_of ([jr_job_id ?rc \<mapsto> [(''job_id'', PStr (jr_job_id ?rc)), (''status'', PStr ''COMPLETE'')]] (jr_job_id ?rc)) = In COMPLETE"
    by (simp add: job_state_complete item_attr_def dict_get_def)
  from requeue_put_erases_results [where T = "[jr_job_id ?rc \<mapsto> [(''job_id'', PStr (jr_job_id ?rc)), (''status'', PStr ''COMPLETE'')]]",
      OF f this, of reference_updater "''t''"] show ?thesis by blast
qed

end
