(* ===== verification/Results.thy ===== *)
theory Results
  imports System
begin

text \<open>
  What a delivery that ends in \<open>COMPLETED\<close> leaves in the cloud, and that a healthy delivery leaves it: the progress
  theorem for the job, where the progress theorems of \<open>Progress\<close> are about the worker alone.
\<close>

lemma objects_run:
  "cloud_run up cfg c tr c' \<Longrightarrow> cl_objects c x \<noteq> None \<Longrightarrow> cl_objects c' x \<noteq> None"
proof (induction rule: cloud_run.induct)
  case (serve c ev c1 tr c2)
  have "object_step (cl_objects c) ev (cl_objects c1)" using serve.hyps(1) by (simp add: cloud_step_def)
  from serve.IH [OF object_step_keeps [OF this serve.prems]] show ?case .
qed simp

lemma stored_run:
  assumes "cloud_run up cfg c tr c'" "object_stored (set tr) b k"
  shows "cl_objects c' (b, k) \<noteq> None"
proof -
  from assms(2) obtain d t where "(PutObject b k d t, Returned PNone) \<in> set tr" by (auto simp: object_stored_def)
  then obtain a z where tr: "tr = a @ (PutObject b k d t, Returned PNone) # z" by (meson split_list)
  with assms(1) obtain c1 c2 where c: "cloud_step up cfg c1 (PutObject b k d t, Returned PNone) c2" "cloud_run up cfg c2 z c'"
    by (auto simp: cloud_run_append)
  from c(1) have "object_step (cl_objects c1) (PutObject b k d t, Returned PNone) (cl_objects c2)" by (simp add: cloud_step_def)
  from object_step_stored [OF this] show ?thesis by (rule objects_run [OF c(2)])
qed

text \<open>The record of a job whose completion was accepted.\<close>

definition completed_item :: "config \<Rightarrow> cloud \<Rightarrow> string \<Rightarrow> bool" where
  "completed_item cfg c job \<longleftrightarrow>
     (case cl_items c job of None \<Rightarrow> False | Some item \<Rightarrow> job_state_of (Some item) = In COMPLETE \<and> results_stored (cl_objects c) cfg item)"

lemma completed_item_same:
  "completed_item cfg c job \<Longrightarrow> cl_items c' = cl_items c \<Longrightarrow> cl_objects c' = cl_objects c \<Longrightarrow> completed_item cfg c' job"
  by (simp only: completed_item_def)

lemma complete_event:
  assumes up: "documented up"
    and step: "cloud_step up cfg c (complete_request (dynamodb_table cfg) job os ex w h f ms now, res) c'"
    and ready: "results_ready (s3_bucket cfg) (thumbnail_sizes cfg) job seen (complete_values os ex w h f ms now)"
    and seen: "\<And>b k. object_stored seen b k \<Longrightarrow> cl_objects c (b, k) \<noteq> None"
    and before: "completed_item cfg c job \<or> res = Returned v"
  shows "completed_item cfg c' job"
proof -
  let ?tbl = "dynamodb_table cfg"
  from step have t: "table_step up ?tbl (cl_items c) (complete_request ?tbl job os ex w h f ms now, res) (cl_items c')"
    and o: "object_step (cl_objects c) (complete_request ?tbl job os ex w h f ms now, res) (cl_objects c')" by (simp_all add: cloud_step_def)
  have objects: "cl_objects c' = cl_objects c"
    using o by (cases rule: object_step.cases) (auto simp: complete_request_def)
  obtain i where i: "up COMPLETE_UPDATE None [(''#s'', ''status''), (''#e'', ''error'')] (complete_values os ex w h f ms now) (cl_items c job) = Some i"
    and s: "sets_to [(''status'', '':status''), (''outputs'', '':outputs''), (''exif'', '':exif''), (''source_width'', '':width''),
        (''source_height'', '':height''), (''source_format'', '':format''), (''processing_ms'', '':ms''),
        (''completed_at'', '':now''), (''updated_at'', '':now'')] [''error''] (complete_values os ex w h f ms now) (cl_items c job) i"
    using documented_complete [OF up, of os ex w h f ms now "cl_items c job"] by (elim exE conjE)
  have state: "job_state_of (Some i) = In COMPLETE"
    by (rule sets_to_status [OF s _ _ complete_status]) simp_all
  have "dict_get i ''outputs'' = dict_get (complete_values os ex w h f ms now) '':outputs''"
    using s by (simp add: sets_to_def)
  then have new: "results_stored (cl_objects c) cfg i"
    using results_ready_stored [OF ready, of "cl_objects c" i] seen by blast
  from t [unfolded complete_request_def] show ?thesis
  proof (rule update_stepE)
    fix i'
    assume "cl_items c' = (cl_items c)(job \<mapsto> i')"
      "up COMPLETE_UPDATE None [(''#s'', ''status''), (''#e'', ''error'')] (complete_values os ex w h f ms now) (cl_items c job) = Some i'"
    with i state new show ?thesis by (simp add: completed_item_def objects)
  qed (use before i objects completed_item_same in \<open>auto simp: refuses_def\<close>)
qed

lemma complete_events:
  assumes up: "documented up"
  shows "cloud_run up cfg c tr c' \<Longrightarrow> \<forall>ev \<in> set tr. fst ev = complete_request (dynamodb_table cfg) job os ex w h f ms now \<Longrightarrow>
    results_ready (s3_bucket cfg) (thumbnail_sizes cfg) job seen (complete_values os ex w h f ms now) \<Longrightarrow>
    (\<And>b k. object_stored seen b k \<Longrightarrow> cl_objects c (b, k) \<noteq> None) \<Longrightarrow>
    completed_item cfg c job \<or> (\<exists>v. (complete_request (dynamodb_table cfg) job os ex w h f ms now, Returned v) \<in> set tr) \<Longrightarrow>
    completed_item cfg c' job"
proof (induction rule: cloud_run.induct)
  case (serve c ev c1 tr c2)
  let ?q = "complete_request (dynamodb_table cfg) job os ex w h f ms now"
  obtain res where ev: "ev = (?q, res)" using serve.prems(1) by (cases ev) auto
  have o: "object_step (cl_objects c) ev (cl_objects c1)" using serve.hyps(1) by (simp add: cloud_step_def)
  show ?case
  proof (rule serve.IH [OF _ serve.prems(2)])
    show "cl_objects c1 (b, k) \<noteq> None" if "object_stored seen b k" for b k
      by (rule object_step_keeps [OF o]) (rule serve.prems(3) [OF that])
    show "completed_item cfg c1 job \<or> (\<exists>v. (?q, Returned v) \<in> set tr)"
    proof (cases "completed_item cfg c job \<or> (\<exists>v. res = Returned v)")
      case True
      then obtain v where "completed_item cfg c job \<or> res = Returned v" by blast
      from complete_event [OF up serve.hyps(1) [unfolded ev] serve.prems(2,3) this] show ?thesis by blast
    qed (use serve.prems(4) ev in auto)
  qed (use serve.prems(1) in auto)
qed simp

lemma untouched_run:
  assumes "cloud_run up cfg c tr c'" "\<forall>ev \<in> set tr. \<exists>rh. fst ev = DeleteMessage u rh"
  shows "cl_items c' = cl_items c \<and> cl_objects c' = cl_objects c"
  using assms
proof (induction rule: cloud_run.induct)
  case (serve c ev c1 tr c2)
  obtain rh res where ev: "ev = (DeleteMessage u rh, res)" using serve.prems by (cases ev) auto
  have t: "table_step up (dynamodb_table cfg) (cl_items c) ev (cl_items c1)" and o: "object_step (cl_objects c) ev (cl_objects c1)"
    using serve.hyps(1) by (simp_all add: cloud_step_def)
  have "cl_items c1 = cl_items c" using t unfolding ev by (cases rule: table_step.cases) auto
  moreover have "cl_objects c1 = cl_objects c" using o unfolding ev by (cases rule: object_step.cases) auto
  ultimately show ?case using serve by auto
qed simp

lemma completion_served:
  assumes up: "documented up" and run: "cloud_run up cfg c tr c'"
    and compl: "completion (s3_bucket cfg) url (dynamodb_table cfg) (thumbnail_sizes cfg) job rh tr"
  shows "completed_item cfg c' (jm_job_id job)"
proof -
  let ?q = "\<lambda>po ms now. complete_request (dynamodb_table cfg) (jm_job_id job) (po_outputs po) (po_exif po) (po_width po) (po_height po) (po_format po) ms now"
  from compl obtain t1 t2 t3 ms now and po :: processed_outputs where tr: "tr = t1 @ t2 @ t3"
      "rendered (s3_bucket cfg) (thumbnail_sizes cfg) (jm_job_id job) t1 po" "(?q po ms now, Returned PNone) \<in> set t2"
      "\<forall>ev \<in> set t2. fst ev = ?q po ms now" "\<forall>ev \<in> set t3. fst ev = DeleteMessage url rh"
    unfolding completion_def by blast
  from run obtain c1 c2 where c: "cloud_run up cfg c t1 c1" "cloud_run up cfg c1 t2 c2" "cloud_run up cfg c2 t3 c'"
    unfolding tr(1) cloud_run_append by blast
  have "results_ready (s3_bucket cfg) (thumbnail_sizes cfg) (jm_job_id job) (set t1)
      (complete_values (po_outputs po) (po_exif po) (po_width po) (po_height po) (po_format po) ms now)"
    unfolding results_ready_def using tr(2) by blast
  then have "completed_item cfg c2 (jm_job_id job)"
    by (rule complete_events [OF up c(2) tr(4)]) (use stored_run [OF c(1)] tr(3) in blast)+
  moreover have "cl_items c' = cl_items c2 \<and> cl_objects c' = cl_objects c2"
    by (rule untouched_run [OF c(3)]) (use tr(5) in blast)
  ultimately show ?thesis using completed_item_same by blast
qed

lemma delivery_serves_results:
  assumes up: "documented up" and fin: "fst (handle_message env cfg (build_clients env cfg) wk m s) = Inr COMPLETED"
    and parse: "parse_message env (opt_get [] (Body m)) = Inr job"
    and log: "wire (snd (handle_message env cfg (build_clients env cfg) wk m s)) = wire s @ tr" and run: "cloud_run up cfg c tr c'"
  shows "completed_item cfg c' (jm_job_id job)"
proof -
  let ?P = "\<lambda>tr r. r = Inr COMPLETED \<longrightarrow>
      completion (s3_bucket cfg) (sqs_queue_url cfg) (dynamodb_table cfg) (thumbnail_sizes cfg) job (receipt m) tr"
  have "wp (handle_message env cfg (build_clients env cfg) wk m) (\<lambda>r s'. \<forall>t. wire s' = wire s @ t \<longrightarrow> ?P t r) s"
    by (rule wp_logs [OF aws.logs_handle_message])
      (auto simp: delivery_trace_def job_trace_def parse split: if_splits)
  with fin log have "completion (s3_bucket cfg) (sqs_queue_url cfg) (dynamodb_table cfg) (thumbnail_sizes cfg) job (receipt m) tr"
    by (auto simp: wp_def split: prod.splits)
  then show ?thesis by (rule completion_served [OF up run])
qed

text \<open>
  C5: What a healthy delivery delivers. If every request of the worker is answered, its disk works, Pillow renders
  the image and the record waits, then, whatever table and bucket served the requests of the delivery, the record is
  \<open>COMPLETE\<close> afterwards and lists one stored thumbnail per configured size.
\<close>

theorem healthy_delivery_serves_results:
  assumes "documented up" "aws_answers env" "disk_works env" "renders env (thumbnail_sizes cfg)"
    and "parse_message env (opt_get [] (Body m)) = Inr job" "jm_schema_version job \<le> MESSAGE_SCHEMA_VERSION"
    and "job_waits env (jm_job_id job)" "jm_bucket job = s3_bucket cfg"
    and "wire (snd (handle_message env cfg (build_clients env cfg) wk m s)) = wire s @ tr" "cloud_run up cfg c tr c'"
  shows "\<exists>item. cl_items c' (jm_job_id job) = Some item \<and> job_state_of (Some item) = In COMPLETE \<and> results_stored (cl_objects c') cfg item"
proof -
  have "completed_item cfg c' (jm_job_id job)"
    by (rule delivery_serves_results [OF assms(1) delivery_completes [OF assms(2-8)] assms(5,9,10)])
  then show ?thesis by (auto simp: completed_item_def split: option.splits)
qed

section \<open>Witness\<close>

theorem healthy_delivery_serves_results_witness:
  "\<exists>(c :: cloud) item. cl_items c ''u'' = Some item \<and> job_state_of (Some item) = In COMPLETE \<and> results_stored (cl_objects c) sample_config item"
proof -
  let ?m = "sample_sqs (sample_dump healthy_job)" and ?c = uploaded_cloud
  obtain c where c: "cloud_run reference_updater sample_config ?c delivery_log c" using delivery_served by blast
  then obtain c1 where c1: "cloud_run reference_updater sample_config c1 (tl delivery_log) c"
    by (auto simp: delivery_log_def delivery_head_def)
  have answers: "aws_answers healthy" "disk_works healthy"
    by (simp_all add: aws_answers_def disk_works_def)
  have renders: "renders healthy (thumbnail_sizes sample_config)" by (simp add: renders_def healthy_rendering)
  obtain rc where rc: "decode_item healthy healthy_item = Inr rc" "jr_status rc = PENDING" using healthy_decodes by blast
  moreover have "healthy_item \<noteq> []" using scenario_answers(1) by (auto simp: dict_get_def)
  ultimately have waits: "job_waits healthy (jm_job_id healthy_job)" by (auto simp: job_waits_def)
  have parse: "parse_message healthy (opt_get [] (Body ?m)) = Inr healthy_job"
    using healthy_env(2) by (simp add: codec_ok_def healthy_job_def new_message_def)
  have "wire (snd (handle_message healthy sample_config (build_clients healthy sample_config) Worker ?m blank)) = wire blank @ tl delivery_log"
    using emits_handle_message [of Worker] by (simp add: emits_def)
  from healthy_delivery_serves_results [OF reference_documented answers renders parse _ waits _ this c1]
  show ?thesis by (auto simp: healthy_job_simps)
qed

end
