(* ===== verification/Registries.thy ===== *)
theory Registries
  imports Errors
begin

text \<open>
  The declarations of \<open>shared/metrics.py\<close> and the two registries they are attached to, over
  \<open>prometheus_client\<close> as the record \<open>prometheus\<close>. The module is one sequence of registrations, each of which may raise
  \<open>ValueError\<close>, and then the import of the module fails; the values of the metrics are the fields of the state in \<open>Effects\<close>.
\<close>

datatype metric_kind = Counter | Gauge | Histogram "rat list"

record metric =
  mt_name :: string
  mt_kind :: metric_kind
  mt_labels :: "string list"

datatype collector = PROCESS_COLLECTOR | PLATFORM_COLLECTOR | GC_COLLECTOR | Family metric

record 'r prometheus =
  CollectorRegistry :: 'r
  register :: "'r \<Rightarrow> collector \<Rightarrow> exn + 'r"
  generate_latest :: "'r \<Rightarrow> string"
  CONTENT_TYPE_LATEST :: string

section \<open>The metrics\<close>

definition HTTP_REQUESTS_TOTAL :: metric where
  "HTTP_REQUESTS_TOTAL = \<lparr>mt_name = ''pixelforge_http_requests_total'', mt_kind = Counter, mt_labels = [''method'', ''endpoint'', ''status'']\<rparr>"

definition HTTP_REQUEST_DURATION :: metric where
  "HTTP_REQUEST_DURATION = \<lparr>mt_name = ''pixelforge_http_request_duration_seconds'',
     mt_kind = Histogram [5/1000, 1/100, 25/1000, 5/100, 1/10, 25/100, 5/10, 1, 25/10, 5, 10], mt_labels = [''endpoint'']\<rparr>"

definition UPLOADS_TOTAL :: metric where
  "UPLOADS_TOTAL = \<lparr>mt_name = ''pixelforge_uploads_total'', mt_kind = Counter, mt_labels = [''result'']\<rparr>"

definition UPLOAD_SIZE_BYTES :: metric where
  "UPLOAD_SIZE_BYTES = \<lparr>mt_name = ''pixelforge_upload_size_bytes'',
     mt_kind = Histogram [10000, 50000, 100000, 250000, 500000, 1000000, 2500000, 5000000, 10000000, 10485760], mt_labels = []\<rparr>"

definition JOBS_PROCESSED_TOTAL :: metric where
  "JOBS_PROCESSED_TOTAL = \<lparr>mt_name = ''pixelforge_jobs_processed_total'', mt_kind = Counter, mt_labels = [''status'']\<rparr>"

definition JOB_DURATION_SECONDS :: metric where
  "JOB_DURATION_SECONDS = \<lparr>mt_name = ''pixelforge_job_duration_seconds'',
     mt_kind = Histogram [1/10, 25/100, 5/10, 1, 25/10, 5, 10, 30, 60, 120], mt_labels = []\<rparr>"

definition JOBS_INFLIGHT :: metric where
  "JOBS_INFLIGHT = \<lparr>mt_name = ''pixelforge_jobs_inflight'', mt_kind = Gauge, mt_labels = []\<rparr>"

definition JOB_STAGE_DURATION_SECONDS :: metric where
  "JOB_STAGE_DURATION_SECONDS = \<lparr>mt_name = ''pixelforge_job_stage_duration_seconds'',
     mt_kind = Histogram [1/100, 5/100, 1/10, 25/100, 5/10, 1, 25/10, 5, 10, 30], mt_labels = [''stage'']\<rparr>"

definition SQS_ERRORS_TOTAL :: metric where
  "SQS_ERRORS_TOTAL = \<lparr>mt_name = ''pixelforge_sqs_errors_total'', mt_kind = Counter, mt_labels = [''operation'']\<rparr>"

lemmas metric_defs = HTTP_REQUESTS_TOTAL_def HTTP_REQUEST_DURATION_def UPLOADS_TOTAL_def UPLOAD_SIZE_BYTES_def
  JOBS_PROCESSED_TOTAL_def JOB_DURATION_SECONDS_def JOBS_INFLIGHT_def JOB_STAGE_DURATION_SECONDS_def SQS_ERRORS_TOTAL_def

section \<open>The registrations\<close>

text \<open>\<open>contextlib.suppress(ValueError)\<close>: the registry stays as it is.\<close>

fun suppressed :: "exn \<Rightarrow> bool" where
  "suppressed (ValueError m) = True"
| "suppressed e = False"

definition register_quietly :: "'r prometheus \<Rightarrow> collector \<Rightarrow> 'r \<Rightarrow> exn + 'r" where
  "register_quietly P c registry =
     (case register P registry c of Inl e \<Rightarrow> if suppressed e then Inr registry else Inl e | Inr r \<Rightarrow> Inr r)"

definition register_runtime_collectors :: "'r prometheus \<Rightarrow> 'r \<Rightarrow> exn + 'r" where
  "register_runtime_collectors P registry =
     sum_bind (register_quietly P PROCESS_COLLECTOR registry) (\<lambda>registry.
     sum_bind (register_quietly P PLATFORM_COLLECTOR registry) (\<lambda>registry.
       register_quietly P GC_COLLECTOR registry))"

text \<open>A metric whose constructor is given a registry registers itself there.\<close>

fun register_all :: "'r prometheus \<Rightarrow> metric list \<Rightarrow> 'r \<Rightarrow> exn + 'r" where
  "register_all P [] registry = Inr registry"
| "register_all P (m # ms) registry = sum_bind (register P registry (Family m)) (register_all P ms)"

definition API_METRICS :: "metric list" where
  "API_METRICS = [HTTP_REQUESTS_TOTAL, HTTP_REQUEST_DURATION, UPLOADS_TOTAL, UPLOAD_SIZE_BYTES]"

definition WORKER_METRICS :: "metric list" where
  "WORKER_METRICS = [JOBS_PROCESSED_TOTAL, JOB_DURATION_SECONDS, JOBS_INFLIGHT, JOB_STAGE_DURATION_SECONDS, SQS_ERRORS_TOTAL]"

text \<open>The body of the module: \<open>(API_REGISTRY, WORKER_REGISTRY)\<close>.\<close>

definition load_metrics :: "'r prometheus \<Rightarrow> exn + 'r \<times> 'r" where
  "load_metrics P =
     sum_bind (register_runtime_collectors P (CollectorRegistry P)) (\<lambda>api.
     sum_bind (register_runtime_collectors P (CollectorRegistry P)) (\<lambda>worker.
     sum_bind (register_all P API_METRICS api) (\<lambda>api.
     sum_bind (register_all P WORKER_METRICS worker) (\<lambda>worker.
     sum_bind (register P api (Family SQS_ERRORS_TOTAL)) (\<lambda>api.
       Inr (api, worker))))))"

definition render_metrics :: "'r prometheus \<Rightarrow> 'r \<Rightarrow> string \<times> string" where
  "render_metrics P registry = (generate_latest P registry, CONTENT_TYPE_LATEST P)"

section \<open>What each registry holds\<close>

text \<open>The time series a family occupies in a registry, as \<open>prometheus_client\<close> documents them.\<close>

definition family_series :: "metric \<Rightarrow> string list" where
  "family_series m =
     (case mt_kind m of
        Counter \<Rightarrow> (let base = take (length (mt_name m) - length ''_total'') (mt_name m) in [base, base @ ''_total'', base @ ''_created''])
      | Gauge \<Rightarrow> [mt_name m]
      | Histogram buckets \<Rightarrow> mt_name m # map (\<lambda>suffix. mt_name m @ suffix) [''_bucket'', ''_sum'', ''_count'', ''_created''])"

fun series :: "(collector \<Rightarrow> string list) \<Rightarrow> collector \<Rightarrow> string list" where
  "series runtime (Family m) = family_series m"
| "series runtime c = runtime c"

definition RUNTIME :: "collector list" where
  "RUNTIME = [PROCESS_COLLECTOR, PLATFORM_COLLECTOR, GC_COLLECTOR]"

text \<open>
  \<open>view\<close> lists what was registered. A collector that would occupy a series twice is refused with \<open>ValueError\<close>; the
  runtime collectors have series of their own, none of which has this program's prefix.
\<close>

definition registry_ok :: "'r prometheus \<Rightarrow> ('r \<Rightarrow> collector list) \<Rightarrow> (collector \<Rightarrow> string list) \<Rightarrow> bool" where
  "registry_ok P view runtime \<longleftrightarrow>
     view (CollectorRegistry P) = [] \<and>
     (\<forall>r c. if set (series runtime c) \<inter> set (concat (map (series runtime) (view r))) = {}
        then \<exists>r'. register P r c = Inr r' \<and> view r' = view r @ [c]
        else \<exists>m. register P r c = Inl (ValueError m)) \<and>
     distinct (concat (map runtime RUNTIME)) \<and> list_all (\<lambda>x. take 11 x \<noteq> ''pixelforge_'') (concat (map runtime RUNTIME))"

lemma registered:
  assumes "registry_ok P view runtime" "distinct (concat (map (series runtime) (view r @ [c])))"
  shows "\<exists>r'. register P r c = Inr r' \<and> view r' = view r @ [c]"
proof -
  from assms(2) have "set (series runtime c) \<inter> set (concat (map (series runtime) (view r))) = {}" by auto
  moreover from assms(1) have "if set (series runtime c) \<inter> set (concat (map (series runtime) (view r))) = {}
        then \<exists>r'. register P r c = Inr r' \<and> view r' = view r @ [c]
        else \<exists>m. register P r c = Inl (ValueError m)" unfolding registry_ok_def by blast
  ultimately show ?thesis by simp
qed

lemma registered_all:
  assumes "registry_ok P view runtime"
  shows "distinct (concat (map (series runtime) (view r @ map Family ms))) \<Longrightarrow>
    \<exists>r'. register_all P ms r = Inr r' \<and> view r' = view r @ map Family ms"
proof (induction ms arbitrary: r)
  case (Cons m ms)
  from Cons.prems have d: "distinct (concat (map (series runtime) (view r @ [Family m])))" by auto
  from registered [OF assms d] obtain r1 where r1: "register P r (Family m) = Inr r1" "view r1 = view r @ [Family m]" by blast
  with Cons.IH [of r1] Cons.prems show ?case by simp
qed simp

text \<open>The series of each side are distinct and carry the prefix.\<close>

definition prefixed :: "metric list \<Rightarrow> bool" where
  "prefixed ms \<longleftrightarrow> distinct (concat (map family_series ms)) \<and> list_all (\<lambda>x. take 11 x = ''pixelforge_'') (concat (map family_series ms))"

lemma family_names: "prefixed (API_METRICS @ [SQS_ERRORS_TOTAL])" "prefixed WORKER_METRICS"
  by code_simp+

lemma series_families: "concat (map (series runtime) (map Family ms)) = concat (map family_series ms)"
  by (simp add: comp_def)

lemma series_runtime: "map (series runtime) RUNTIME = map runtime RUNTIME"
  by (simp add: RUNTIME_def)

lemma series_distinct:
  assumes "registry_ok P view runtime" "prefixed ms"
  shows "distinct (concat (map (series runtime) (RUNTIME @ map Family ms)))"
proof -
  let ?R = "concat (map runtime RUNTIME)" and ?F = "concat (map family_series ms)"
  from assms have d: "distinct ?R" "distinct ?F" and p: "list_all (\<lambda>x. take 11 x \<noteq> ''pixelforge_'') ?R" "list_all (\<lambda>x. take 11 x = ''pixelforge_'') ?F"
    unfolding registry_ok_def prefixed_def by blast+
  from p have "set ?R \<inter> set ?F = {}" unfolding list_all_iff by blast
  with d show ?thesis
    unfolding map_append concat_append series_families series_runtime distinct_append by blast
qed

lemma runtime_registered:
  assumes ok: "registry_ok P view runtime"
  shows "\<exists>r. register_runtime_collectors P (CollectorRegistry P) = Inr r \<and> view r = RUNTIME"
proof -
  have d: "distinct (concat (map (series runtime) RUNTIME))"
    using ok unfolding registry_ok_def series_runtime by blast
  have empty: "view (CollectorRegistry P) = []" using ok unfolding registry_ok_def by blast
  from registered [OF ok, of "CollectorRegistry P" PROCESS_COLLECTOR] d obtain r1 where
    r1: "register P (CollectorRegistry P) PROCESS_COLLECTOR = Inr r1" "view r1 = [PROCESS_COLLECTOR]"
    by (auto simp: empty RUNTIME_def)
  from registered [OF ok, of r1 PLATFORM_COLLECTOR] d obtain r2 where
    r2: "register P r1 PLATFORM_COLLECTOR = Inr r2" "view r2 = [PROCESS_COLLECTOR, PLATFORM_COLLECTOR]"
    by (auto simp: r1 RUNTIME_def)
  from registered [OF ok, of r2 GC_COLLECTOR] d obtain r3 where
    r3: "register P r2 GC_COLLECTOR = Inr r3" "view r3 = RUNTIME"
    by (auto simp: r2 RUNTIME_def)
  show ?thesis by (simp add: register_runtime_collectors_def register_quietly_def r1 r2 r3)
qed

text \<open>
  The metric module always loads, and each service exposes its own series. With a registry as
  documented no registration is refused, and the two registries share the runtime collectors and
  \<open>pixelforge_sqs_errors_total\<close>, nothing else.
\<close>

theorem registries_are_split:
  assumes "registry_ok P view runtime"
  shows "\<exists>api worker. load_metrics P = Inr (api, worker) \<and> view api = RUNTIME @ map Family (API_METRICS @ [SQS_ERRORS_TOTAL]) \<and>
    view worker = RUNTIME @ map Family WORKER_METRICS \<and>
    set (view api) \<inter> set (view worker) = insert (Family SQS_ERRORS_TOTAL) (set RUNTIME)"
proof -
  from runtime_registered [OF assms] obtain r where r: "register_runtime_collectors P (CollectorRegistry P) = Inr r" "view r = RUNTIME" by blast
  have api: "distinct (concat (map (series runtime) (RUNTIME @ map Family (API_METRICS @ [SQS_ERRORS_TOTAL]))))"
    by (rule series_distinct [OF assms family_names(1)])
  then have "distinct (concat (map (series runtime) (view r @ map Family API_METRICS)))" by (auto simp: r(2))
  from registered_all [OF assms this] obtain a where a: "register_all P API_METRICS r = Inr a" "view a = RUNTIME @ map Family API_METRICS"
    by (auto simp: r(2))
  have "distinct (concat (map (series runtime) (view r @ map Family WORKER_METRICS)))"
    unfolding r(2) by (rule series_distinct [OF assms family_names(2)])
  from registered_all [OF assms this] obtain w where w: "register_all P WORKER_METRICS r = Inr w" "view w = RUNTIME @ map Family WORKER_METRICS"
    by (auto simp: r(2))
  have "distinct (concat (map (series runtime) (view a @ [Family SQS_ERRORS_TOTAL])))" using api by (simp add: a(2))
  from registered [OF assms this] obtain a' where
    a': "register P a (Family SQS_ERRORS_TOTAL) = Inr a'" "view a' = RUNTIME @ map Family (API_METRICS @ [SQS_ERRORS_TOTAL])"
    by (auto simp: a(2))
  have "set (view a') \<inter> set (view w) = insert (Family SQS_ERRORS_TOTAL) (set RUNTIME)"
    unfolding a'(2) w(2) API_METRICS_def WORKER_METRICS_def RUNTIME_def by (auto simp: metric_defs)
  then show ?thesis using a' w by (intro exI [of _ a'] exI [of _ w]) (simp add: load_metrics_def r a)
qed

section \<open>Witness\<close>

text \<open>A registry that is the list of its collectors.\<close>

definition sample_runtime :: "collector \<Rightarrow> string list" where
  "sample_runtime c = (case c of PROCESS_COLLECTOR \<Rightarrow> [''process_open_fds''] | PLATFORM_COLLECTOR \<Rightarrow> [''python_info''] | _ \<Rightarrow> [''python_gc_collections''])"

definition sample_prometheus :: "collector list prometheus" where
  "sample_prometheus =
     \<lparr>CollectorRegistry = [],
      register = (\<lambda>r c. if set (series sample_runtime c) \<inter> set (concat (map (series sample_runtime) r)) = {} then Inr (r @ [c])
        else Inl (ValueError ''Duplicated timeseries in CollectorRegistry'')),
      generate_latest = (\<lambda>r. []), CONTENT_TYPE_LATEST = ''text/plain''\<rparr>"

theorem registries_are_split_witness:
  "\<exists>api worker. load_metrics sample_prometheus = Inr (api, worker) \<and> api = RUNTIME @ map Family (API_METRICS @ [SQS_ERRORS_TOTAL]) \<and>
    worker = RUNTIME @ map Family WORKER_METRICS \<and> set api \<inter> set worker = insert (Family SQS_ERRORS_TOTAL) (set RUNTIME)"
proof -
  have "registry_ok sample_prometheus (\<lambda>r. r) sample_runtime"
    by (simp add: registry_ok_def sample_prometheus_def RUNTIME_def sample_runtime_def)
  from registries_are_split [OF this] show ?thesis .
qed

end
