(* ===== verification/Heartbeat.thy ===== *)
theory Heartbeat
  imports Pipeline
begin

text \<open>
  The threads of \<open>VisibilityHeartbeat\<close> in \<open>worker/heartbeat.py\<close> as a step relation: what \<open>start\<close> and \<open>stop\<close>
  do to the object, and the loop of each thread. The calls themselves are those of \<open>beat\<close> in theory
  \<open>Pipeline\<close>, where they happen at the step boundaries of a render.
\<close>

section \<open>The object and its threads\<close>

text \<open>
  Where a thread is in \<open>_loop\<close>: waiting for the event, past a wait that timed out, inside the call, or
  past the loop.
\<close>

datatype hb_pc = Waiting | Due | Calling | Exited

text \<open>
  \<open>hb_current\<close> is the attribute \<open>_thread\<close>, an index into the threads ever started; \<open>hb_calls\<close> counts the
  calls that were begun, \<open>hb_beats\<close> the attribute \<open>beats\<close>.
\<close>

record hb =
  hb_stop :: bool
  hb_current :: "nat option"
  hb_threads :: "hb_pc list"
  hb_calls :: nat
  hb_beats :: nat

definition hb_new :: hb where
  "hb_new = \<lparr>hb_stop = False, hb_current = None, hb_threads = [], hb_calls = 0, hb_beats = 0\<rparr>"

definition hb_start :: "hb \<Rightarrow> hb" where
  "hb_start h = (if hb_current h \<noteq> None then h
     else h\<lparr>hb_current := Some (length (hb_threads h)), hb_threads := hb_threads h @ [Waiting]\<rparr>)"

text \<open>\<open>stop\<close> returns when the thread has ended or the time of the \<open>join\<close> is over, so it may return at any point.\<close>

definition hb_request_stop :: "hb \<Rightarrow> hb" where
  "hb_request_stop h = h\<lparr>hb_stop := True, hb_current := None\<rparr>"

inductive hb_step :: "hb \<Rightarrow> hb \<Rightarrow> bool" where
  start: "hb_step h (hb_start h)"
| stop: "hb_step h (hb_request_stop h)"
| time_out: "i < length (hb_threads h) \<Longrightarrow> hb_threads h ! i = Waiting \<Longrightarrow> \<not> hb_stop h \<Longrightarrow>
     hb_step h (h\<lparr>hb_threads := (hb_threads h)[i := Due]\<rparr>)"
| exit: "i < length (hb_threads h) \<Longrightarrow> hb_threads h ! i = Waiting \<Longrightarrow> hb_stop h \<Longrightarrow>
     hb_step h (h\<lparr>hb_threads := (hb_threads h)[i := Exited]\<rparr>)"
| call: "i < length (hb_threads h) \<Longrightarrow> hb_threads h ! i = Due \<Longrightarrow>
     hb_step h (h\<lparr>hb_threads := (hb_threads h)[i := Calling], hb_calls := Suc (hb_calls h)\<rparr>)"
| extended: "i < length (hb_threads h) \<Longrightarrow> hb_threads h ! i = Calling \<Longrightarrow>
     hb_step h (h\<lparr>hb_threads := (hb_threads h)[i := Waiting], hb_beats := Suc (hb_beats h)\<rparr>)"
| failed: "i < length (hb_threads h) \<Longrightarrow> hb_threads h ! i = Calling \<Longrightarrow>
     hb_step h (h\<lparr>hb_threads := (hb_threads h)[i := Waiting]\<rparr>)"

text \<open>How many calls a thread may still begin once a stop was requested.\<close>

fun late_calls :: "hb_pc \<Rightarrow> nat" where
  "late_calls Due = 1"
| "late_calls _ = 0"

definition due :: "hb \<Rightarrow> nat" where
  "due h = sum_list (map late_calls (hb_threads h))"

section \<open>Counting\<close>

lemma sum_update:
  fixes f :: "'a \<Rightarrow> nat"
  shows "i < length xs \<Longrightarrow> sum_list (map f (xs[i := x])) + f (xs ! i) = sum_list (map f xs) + f x"
proof (induction xs arbitrary: i)
  case (Cons a xs)
  then show ?case
  proof (cases i)
    case (Suc j)
    with Cons.prems have "j < length xs" by simp
    from Cons.IH [OF this] show ?thesis by (simp add: Suc)
  qed simp
qed simp

fun in_call :: "hb_pc \<Rightarrow> nat" where
  "in_call Calling = 1"
| "in_call _ = 0"

definition calling :: "hb \<Rightarrow> nat" where
  "calling h = sum_list (map in_call (hb_threads h))"

text \<open>
  Every beat is a call that was begun. Without a stop the object has at most one thread; once a stop
  was requested at most one thread is still past its wait, however often \<open>start\<close> is called.
\<close>

definition hb_inv :: "hb \<Rightarrow> bool" where
  "hb_inv h \<longleftrightarrow> hb_beats h + calling h \<le> hb_calls h \<and> due h \<le> 1 \<and>
     (if hb_stop h then True
      else (case hb_current h of None \<Rightarrow> hb_threads h = [] | Some i \<Rightarrow> length (hb_threads h) = 1))"

lemma late_calls_le: "late_calls x \<le> 1"
  by (cases x) simp_all

lemma due_single: "length (hb_threads h) = 1 \<Longrightarrow> due h \<le> 1"
  using late_calls_le by (cases "hb_threads h") (auto simp: due_def)

lemma thread_update:
  assumes "i < length (hb_threads h)"
  shows "sum_list (map late_calls ((hb_threads h)[i := x])) + late_calls (hb_threads h ! i) = due h + late_calls x"
    "sum_list (map in_call ((hb_threads h)[i := x])) + in_call (hb_threads h ! i) = calling h + in_call x"
  using sum_update [OF assms, of late_calls x] sum_update [OF assms, of in_call x] by (simp_all add: due_def calling_def)

lemma hb_step_inv: "hb_step h h' \<Longrightarrow> hb_inv h \<Longrightarrow> hb_inv h'"
proof (induction rule: hb_step.cases)
  case (start h)
  then show ?case
    by (cases "hb_current h") (auto simp: hb_start_def hb_inv_def due_def calling_def)
next
  case (stop h)
  then show ?case by (simp add: hb_request_stop_def hb_inv_def due_def calling_def)
next
  case (time_out i h)
  let ?h = "h\<lparr>hb_threads := (hb_threads h)[i := Due]\<rparr>"
  have "length (hb_threads h) = 1" using time_out by (auto simp: hb_inv_def split: option.splits)
  then have "due ?h \<le> 1" by (intro due_single) simp
  with time_out thread_update [of i h Due] show ?case by (auto simp: hb_inv_def calling_def split: option.splits)
next
  case (exit i h)
  then show ?case using thread_update [of i h Exited] by (auto simp: hb_inv_def due_def calling_def)
next
  case (call i h)
  then show ?case
    using thread_update [of i h Calling] by (auto simp: hb_inv_def due_def calling_def split: option.splits)
next
  case (extended i h)
  then show ?case using thread_update [of i h Waiting] by (auto simp: hb_inv_def due_def calling_def split: option.splits)
next
  case (failed i h)
  then show ?case using thread_update [of i h Waiting] by (auto simp: hb_inv_def due_def calling_def split: option.splits)
qed

lemma hb_new_inv: "hb_inv hb_new"
  by (simp add: hb_inv_def hb_new_def due_def calling_def)

lemma hb_reachable_inv: "hb_step\<^sup>*\<^sup>* hb_new h \<Longrightarrow> hb_inv h"
  by (induction rule: rtranclp_induct) (auto intro: hb_new_inv hb_step_inv)

text \<open>After a stop the calls begun and the threads due add up to no more than before.\<close>

lemma hb_step_stopped:
  "hb_step h h' \<Longrightarrow> hb_stop h \<Longrightarrow> hb_stop h' \<and> hb_calls h' + due h' \<le> hb_calls h + due h"
proof (induction rule: hb_step.cases)
  case (start h)
  then show ?case by (simp add: hb_start_def due_def)
next
  case (stop h)
  then show ?case by (simp add: hb_request_stop_def due_def)
next
  case (exit i h)
  then show ?case using thread_update(1) [of i h Exited] by (simp add: due_def)
next
  case (call i h)
  then show ?case using thread_update(1) [of i h Calling] by (simp add: due_def)
next
  case (extended i h)
  then show ?case using thread_update(1) [of i h Waiting] by (simp add: due_def)
next
  case (failed i h)
  then show ?case using thread_update(1) [of i h Waiting] by (simp add: due_def)
qed simp

lemma hb_steps_stopped:
  "hb_step\<^sup>*\<^sup>* h h' \<Longrightarrow> hb_stop h \<Longrightarrow> hb_stop h' \<and> hb_calls h' + due h' \<le> hb_calls h + due h"
  by (induction rule: rtranclp_induct) (use hb_step_stopped order_trans in blast)+

section \<open>Property\<close>

text \<open>
  C29: A heartbeat stops. However \<open>start\<close> and \<open>stop\<close> are called, at most one more call to extend the
  visibility is begun once a stop was requested, the one of a thread whose wait had just timed out; and
  \<open>beats\<close> never exceeds the calls begun.
\<close>

theorem heartbeat_stops:
  assumes "hb_step\<^sup>*\<^sup>* hb_new h" "hb_stop h" "hb_step\<^sup>*\<^sup>* h h'"
  shows "hb_calls h' \<le> hb_calls h + 1 \<and> hb_beats h' \<le> hb_calls h'"
proof -
  have "hb_inv h" by (rule hb_reachable_inv [OF assms(1)])
  moreover have "hb_inv h'" by (rule hb_reachable_inv [OF rtranclp_trans [OF assms(1,3)]])
  ultimately show ?thesis using hb_steps_stopped [OF assms(3,2)] by (auto simp: hb_inv_def)
qed

theorem heartbeat_stops_witness:
  "hb_calls (hb_request_stop (hb_start hb_new)) \<le> hb_calls (hb_request_stop (hb_start hb_new)) + 1 \<and>
   hb_beats (hb_request_stop (hb_start hb_new)) \<le> hb_calls (hb_request_stop (hb_start hb_new))"
proof (rule heartbeat_stops)
  show "hb_step\<^sup>*\<^sup>* hb_new (hb_request_stop (hb_start hb_new))"
    by (rule rtranclp.rtrancl_into_rtrancl [OF r_into_rtranclp [where r = hb_step]]) (rule hb_step.start, rule hb_step.stop)
qed (simp_all add: hb_request_stop_def)

end
