(* ===== verification/Timestamps.thy ===== *)
theory Timestamps
  imports Errors
begin

text \<open>
  \<open>shared/timeutil.py\<close>. A \<open>datetime\<close> is its wall-clock time in microseconds since the start of year 1,
  the first instant Python can represent, and the offset of its time zone, which may be missing.
  Calendar fields are those of the proleptic Gregorian calendar, as in the standard library.
\<close>

section \<open>The code\<close>

record datetime =
  dt_micros :: int
  dt_utcoffset :: "int option"

definition leap_year :: "nat \<Rightarrow> bool" where
  "leap_year y \<longleftrightarrow> y mod 4 = 0 \<and> (y mod 100 \<noteq> 0 \<or> y mod 400 = 0)"

definition days_in_year :: "nat \<Rightarrow> nat" where
  "days_in_year y = (if leap_year y then 366 else 365)"

definition days_in_month :: "nat \<Rightarrow> nat \<Rightarrow> nat" where
  "days_in_month y m =
     (if m = 2 then (if leap_year y then 29 else 28) else if m \<in> {4, 6, 9, 11} then 30 else 31)"

lemma days_positive [simp, termination_simp]: "0 < days_in_year y" "0 < days_in_month y m"
  by (simp_all add: days_in_year_def days_in_month_def)

lemma days_smaller [termination_simp]: "\<not> d < days_in_year y \<Longrightarrow> d - days_in_year y < d"
  using days_positive(1) [of y] by linarith

text \<open>The year and the day in it, the month and the day in it, counted from 0, for a day counted from \<open>y\<close> or \<open>m\<close> on.\<close>

fun split_year :: "nat \<Rightarrow> nat \<Rightarrow> nat \<times> nat" where
  "split_year y d = (if d < days_in_year y then (y, d) else split_year (Suc y) (d - days_in_year y))"

function split_month :: "nat \<Rightarrow> nat \<Rightarrow> nat \<Rightarrow> nat \<times> nat" where
  "split_month y m d = (if 12 \<le> m \<or> d < days_in_month y m then (m, d) else split_month y (Suc m) (d - days_in_month y m))"
  by pat_completeness auto
termination
  by (relation "measure (\<lambda>(y, m, d). 12 - m)") auto

declare split_year.simps [simp del] split_month.simps [simp del]

text \<open>\<open>format(n, "0<width>d")\<close>.\<close>

definition pad :: "nat \<Rightarrow> nat \<Rightarrow> string" where
  "pad width n = replicate (width - length (show_nat n)) (CHR ''0'') @ show_nat n"

text \<open>\<open>isoformat(timespec="milliseconds")\<close> of an instant in UTC.\<close>

definition isoformat_utc :: "nat \<Rightarrow> string" where
  "isoformat_utc micros =
     (let ms = micros div 1000; (y, n) = split_year 1 (ms div 86400000); (m, d) = split_month y 1 n in
      pad 4 y @ ''-'' @ pad 2 m @ ''-'' @ pad 2 (d + 1) @ ''T'' @ pad 2 (ms div 3600000 mod 24) @ '':'' @
      pad 2 (ms div 60000 mod 60) @ '':'' @ pad 2 (ms div 1000 mod 60) @ ''.'' @ pad 3 (ms mod 1000) @ ''+00:00'')"

function py_replace :: "string \<Rightarrow> string \<Rightarrow> string \<Rightarrow> string" where
  "py_replace old new [] = []"
| "py_replace old new (c # cs) =
     (if old \<noteq> [] \<and> py_startswith (c # cs) old then new @ py_replace old new (drop (length old) (c # cs))
      else c # py_replace old new cs)"
  by pat_completeness auto
termination
  by (relation "measure (\<lambda>(old, new, s). length s)") auto

text \<open>The microseconds from the start of year 1 to the end of year 9999.\<close>

definition MAX_MICROS :: int where "MAX_MICROS = 3652059 * 86400000000"

definition utc_micros :: "datetime \<Rightarrow> int" where
  "utc_micros moment = dt_micros moment - opt_get 0 (dt_utcoffset moment)"

definition to_iso :: "datetime \<Rightarrow> exn + string" where
  "to_iso moment =
     (let instant = utc_micros moment in
      if 0 \<le> instant \<and> instant < MAX_MICROS
      then Inr (py_replace ''+00:00'' ''Z'' (isoformat_utc (nat instant)))
      else Inl (OtherError ''OverflowError'' ''date value out of range''))"

definition utc_now :: "int \<Rightarrow> datetime" where
  "utc_now now = \<lparr>dt_micros = now, dt_utcoffset = Some 0\<rparr>"

definition utc_now_iso :: "int \<Rightarrow> exn + string" where
  "utc_now_iso now = to_iso (utc_now now)"

section \<open>Padded numbers in order\<close>

fun digits :: "nat \<Rightarrow> nat \<Rightarrow> string" where
  "digits 0 n = []"
| "digits (Suc k) n = digits k (n div 10) @ [char_of (48 + n mod 10)]"

lemma char_48: "char_of (48 :: nat) = CHR ''0''"
  by code_simp

lemma digits_zero: "digits k 0 = replicate k (CHR ''0'')"
  by (induction k) (simp_all add: replicate_append_same char_48)

lemma pad_digits: "0 < k \<Longrightarrow> n < 10 ^ k \<Longrightarrow> pad k n = digits k n"
proof (induction k arbitrary: n)
  case 0
  then show ?case by simp
next
  case (Suc k)
  show ?case
  proof (cases "n < 10")
    case True
    then show ?thesis by (simp add: pad_def show_nat.simps [of n] digits_zero)
  next
    case False
    with Suc.prems have k: "0 < k" "n div 10 < 10 ^ k"
      by (cases k; simp add: less_mult_imp_div_less mult.commute)+
    have "pad (Suc k) n = pad k (n div 10) @ [char_of (48 + n mod 10)]"
      using False by (simp add: pad_def show_nat.simps [of n])
    with Suc.IH [OF k] show ?thesis by simp
  qed
qed

lemma length_digits [simp]: "length (digits k n) = k"
  by (induction k arbitrary: n) simp_all

lemma less_prefix: "s < t \<Longrightarrow> length s = length t \<Longrightarrow> s @ x < t @ y" for s t x y :: string
  by (simp add: list_less_def lexord_sufI)

lemma less_suffix: "x < y \<Longrightarrow> s @ x < s @ y" for s x y :: string
  by (simp add: list_less_def lexord_append_leftI)

lemma less_digit: "a < b \<Longrightarrow> b < 10 \<Longrightarrow> [char_of (48 + a :: nat)] < [char_of (48 + b)]"
  by (simp add: less_char_def of_char_of)

lemma digits_less: "m < n \<Longrightarrow> n < 10 ^ k \<Longrightarrow> digits k m < digits k n"
proof (induction k arbitrary: m n)
  case 0
  then show ?case by simp
next
  case (Suc k)
  then have d: "n div 10 < 10 ^ k" by (simp add: less_mult_imp_div_less mult.commute)
  consider "m div 10 < n div 10" | "m div 10 = n div 10" "m mod 10 < n mod 10"
    using \<open>m < n\<close> by (metis div_le_mono div_mult_mod_eq le_neq_implies_less less_imp_le nat_add_left_cancel_less)
  then show ?case
  proof cases
    case 1
    with Suc.IH [OF 1 d] show ?thesis by (simp add: less_prefix)
  next
    case 2
    have "[char_of (48 + m mod 10)] < [char_of (48 + n mod 10)]" by (rule less_digit) (use 2 in simp_all)
    from less_suffix [OF this] show ?thesis by (simp add: 2)
  qed
qed

lemma field_less:
  assumes "m < n \<or> m = n \<and> x < y" "n < 10 ^ k"
  shows "digits k m @ [c] @ x < digits k n @ [c] @ y"
  using assms(1)
proof
  assume "m < n"
  from less_prefix [OF digits_less [OF this assms(2)]] show ?thesis by simp
next
  assume "m = n \<and> x < y"
  then have "[c] @ x < [c] @ y" "digits k m = digits k n" by (simp_all only: less_suffix)
  with less_suffix [of "[c] @ x" "[c] @ y" "digits k n"] show ?thesis by (simp only:)
qed

section \<open>The calendar in order\<close>

lemma split_year_ge: "split_year y d = (y', r) \<Longrightarrow> y \<le> y'"
proof (induction y d rule: split_year.induct)
  case (1 y d)
  then show ?case by (subst (asm) (2) split_year.simps) (auto split: if_splits)
qed

lemma split_year_less:
  "d < e \<Longrightarrow> split_year y d = (y1, r1) \<Longrightarrow> split_year y e = (y2, r2) \<Longrightarrow> y1 < y2 \<or> y1 = y2 \<and> r1 < r2"
proof (induction y d arbitrary: e rule: split_year.induct)
  case (1 y d)
  consider "e < days_in_year y" | "d < days_in_year y" "\<not> e < days_in_year y" | "\<not> d < days_in_year y"
    by blast
  then show ?case
  proof cases
    case 1
    with \<open>d < e\<close> have "split_year y d = (y, d)" "split_year y e = (y, e)"
      by (simp_all add: split_year.simps [of y])
    with "1.prems" show ?thesis by simp
  next
    case 2
    then have "split_year y d = (y, d)" "split_year y e = split_year (Suc y) (e - days_in_year y)"
      by (simp_all add: split_year.simps [of y])
    with "1.prems" have "split_year (Suc y) (e - days_in_year y) = (y2, r2)" "y1 = y" by simp_all
    with split_year_ge show ?thesis by fastforce
  next
    case 3
    with "1.prems" have "d - days_in_year y < e - days_in_year y"
      "split_year (Suc y) (d - days_in_year y) = (y1, r1)" "split_year (Suc y) (e - days_in_year y) = (y2, r2)"
      by (simp_all add: split_year.simps [of y])
    with "1.IH" [OF 3] show ?thesis by blast
  qed
qed

lemma split_month_range: "split_month y m d = (m', r) \<Longrightarrow> m \<le> 12 \<Longrightarrow> m \<le> m' \<and> m' \<le> 12 \<and> r \<le> d"
proof (induction y m d rule: split_month.induct)
  case (1 y m d)
  show ?case
  proof (cases "12 \<le> m \<or> d < days_in_month y m")
    case True
    with 1 show ?thesis by (subst (asm) split_month.simps) auto
  next
    case False
    with 1 show ?thesis by (subst (asm) split_month.simps) auto
  qed
qed

lemma split_month_less:
  "d < e \<Longrightarrow> split_month y m d = (m1, r1) \<Longrightarrow> split_month y m e = (m2, r2) \<Longrightarrow> m \<le> 12 \<Longrightarrow>
   m1 < m2 \<or> m1 = m2 \<and> r1 < r2"
proof (induction y m d arbitrary: e rule: split_month.induct)
  case (1 y m d)
  let ?stop = "\<lambda>d. 12 \<le> m \<or> d < days_in_month y m"
  consider "?stop e" "?stop d" | "?stop d" "\<not> ?stop e" | "\<not> ?stop d" using \<open>d < e\<close> by linarith
  then show ?case
  proof cases
    case 1
    with "1.prems" show ?thesis by (simp add: split_month.simps [of y m])
  next
    case 2
    then have "split_month y (Suc m) (e - days_in_month y m) = (m2, r2)" "m1 = m"
      using "1.prems" by (simp_all add: split_month.simps [of y m])
    with split_month_range 2 show ?thesis by fastforce
  next
    case 3
    with "1.prems" have "d - days_in_month y m < e - days_in_month y m"
      "split_month y (Suc m) (d - days_in_month y m) = (m1, r1)" "split_month y (Suc m) (e - days_in_month y m) = (m2, r2)" "Suc m \<le> 12"
      by (auto simp: split_month.simps [of y m])
    with "1.IH" [OF 3] show ?thesis by blast
  qed
qed

text \<open>The days before the first of January of year \<open>n + 1\<close>.\<close>

definition days_before :: "nat \<Rightarrow> nat" where
  "days_before n = 365 * n + n div 4 + n div 400 - n div 100"

lemma days_before_eq: "days_before k + k div 100 = 365 * k + k div 4 + k div 400"
proof -
  have "k div 100 \<le> k div 4" by (simp add: div_le_mono2)
  then show ?thesis by (simp add: days_before_def)
qed
lemma days_before_Suc: "days_before (Suc n) = days_before n + days_in_year (Suc n)"
proof -
  have d: "Suc n mod 400 = 0 \<Longrightarrow> Suc n mod 100 = 0" "Suc n mod 100 = 0 \<Longrightarrow> Suc n mod 4 = 0"
    by presburger+
  have s: "Suc n div 4 = n div 4 + (if Suc n mod 4 = 0 then 1 else 0)"
    "Suc n div 100 = n div 100 + (if Suc n mod 100 = 0 then 1 else 0)"
    "Suc n div 400 = n div 400 + (if Suc n mod 400 = 0 then 1 else 0)"
    by (simp_all only: div_Suc) simp_all
  have e: "days_before (Suc n) + n div 100 = days_before n + n div 100 + days_in_year (Suc n)"
    using days_before_eq [of n] days_before_eq [of "Suc n"] d unfolding s days_in_year_def leap_year_def
    by (simp split: if_splits)
  then show ?thesis by linarith
qed

lemma days_before_mono: "m \<le> n \<Longrightarrow> days_before m \<le> days_before n"
  by (induction n) (auto simp: le_Suc_eq days_before_Suc)

lemma split_year_days:
  "split_year (Suc n) d = (y', r) \<Longrightarrow> \<exists>n'. y' = Suc n' \<and> days_before n + d = days_before n' + r \<and> r < days_in_year y'"
proof (induction "Suc n" d arbitrary: n rule: split_year.induct)
  case (1 d n)
  show ?case
  proof (cases "d < days_in_year (Suc n)")
    case True
    with "1.prems" show ?thesis by (subst (asm) split_year.simps) auto
  next
    case False
    with "1.prems" have "split_year (Suc (Suc n)) (d - days_in_year (Suc n)) = (y', r)"
      by (subst (asm) split_year.simps) simp
    from "1.hyps" [OF False this] False show ?thesis by (auto simp: days_before_Suc)
  qed
qed

lemma split_year_range:
  assumes "split_year 1 d = (y, r)" "d < 3652059"
  shows "y < 10000 \<and> r < 366"
proof -
  from split_year_days [of 0 d y r] assms(1)
  obtain n where n: "y = Suc n" "days_before 0 + d = days_before n + r" "r < days_in_year y" by auto
  have "n < 9999"
  proof (rule ccontr)
    assume "\<not> n < 9999"
    then have "days_before 9999 \<le> days_before n" by (intro days_before_mono) simp
    with n assms(2) show False by (simp add: days_before_def)
  qed
  with n show ?thesis by (auto simp: days_in_year_def split: if_splits)
qed

text \<open>Outside December a day is below 31; before December at least 28 days a month are gone.\<close>

lemma split_month_rest:
  "split_month y m d = (m', r) \<Longrightarrow> m \<le> 12 \<Longrightarrow> r < 31 \<or> r + 28 * (12 - m) \<le> d"
proof (induction y m d rule: split_month.induct)
  case (1 y m d)
  have days: "28 \<le> days_in_month y m" "days_in_month y m \<le> 31" by (simp_all add: days_in_month_def)
  show ?case
  proof (cases "12 \<le> m \<or> d < days_in_month y m")
    case True
    with "1.prems" have "m' = m" "r = d" by (simp_all add: split_month.simps [of y m])
    with True days "1.prems" show ?thesis by auto
  next
    case False
    with "1.prems" have "split_month y (Suc m) (d - days_in_month y m) = (m', r)" "Suc m \<le> 12"
      by (simp_all add: split_month.simps [of y m])
    from "1.IH" [OF False this] False days show ?thesis by auto
  qed
qed

lemma split_month_day: "split_month y 1 n = (m, d) \<Longrightarrow> n < 366 \<Longrightarrow> m < 100 \<and> d < 99"
  using split_month_range [of y 1 n m d] split_month_rest [of y 1 n m d] by auto

section \<open>The text in order\<close>

definition date_text :: "nat \<Rightarrow> string" where
  "date_text day = (let (y, n) = split_year 1 day; (m, d) = split_month y 1 n in
     digits 4 y @ ''-'' @ digits 2 m @ ''-'' @ digits 2 (d + 1))"

definition time_text :: "nat \<Rightarrow> string" where
  "time_text ms = digits 2 (ms div 3600000 mod 24) @ '':'' @ digits 2 (ms div 60000 mod 60) @ '':'' @
     digits 2 (ms div 1000 mod 60) @ ''.'' @ digits 3 (ms mod 1000)"

lemma length_date_text [simp]: "length (date_text day) = 10"
  by (simp add: date_text_def split: prod.split)

lemma length_time_text [simp]: "length (time_text ms) = 12"
  by (simp add: time_text_def)

lemma date_text_less:
  assumes "a < b" "b < 3652059"
  shows "date_text a < date_text b"
proof -
  obtain y1 n1 where y1: "split_year 1 a = (y1, n1)" by (cases "split_year 1 a")
  obtain y2 n2 where y2: "split_year 1 b = (y2, n2)" by (cases "split_year 1 b")
  obtain m1 d1 where m1: "split_month y1 1 n1 = (m1, d1)" by (cases "split_month y1 1 n1")
  obtain m2 d2 where m2: "split_month y2 1 n2 = (m2, d2)" by (cases "split_month y2 1 n2")
  have range: "y2 < 10 ^ 4" "m2 < 10 ^ 2" "d2 + 1 < 10 ^ 2"
    using split_year_range [OF y2] split_month_day [OF m2] assms(2) by auto
  have "y1 < y2 \<or> y1 = y2 \<and> (m1 < m2 \<or> m1 = m2 \<and> d1 < d2)"
    using split_year_less [OF assms(1) y1 y2] split_month_less [OF _ m1] m2 by auto
  then have "digits 4 y1 @ ''-'' @ digits 2 m1 @ ''-'' @ digits 2 (d1 + 1) <
      digits 4 y2 @ ''-'' @ digits 2 m2 @ ''-'' @ digits 2 (d2 + 1)"
    using field_less [OF _ range(1)] field_less [OF _ range(2)] digits_less [OF _ range(3), of "d1 + 1"]
    by (metis add_less_cancel_right)
  then show ?thesis by (simp only: date_text_def y1 y2 m1 m2 prod.case Let_def)
qed

lemma radix_less: "a < b \<Longrightarrow> a div k < b div k \<or> a div k = b div k \<and> a mod k < b mod k" for a b k :: nat
  by (metis div_le_mono div_mult_mod_eq le_neq_implies_less less_imp_le nat_add_left_cancel_less)

lemma time_text_less:
  assumes "a < b" "b < 86400000"
  shows "time_text a < time_text b"
proof -
  define h where "h = (\<lambda>t :: nat. t div 1000 div 60 div 60)"
  define mi where "mi = (\<lambda>t :: nat. t div 1000 div 60 mod 60)"
  define se where "se = (\<lambda>t :: nat. t div 1000 mod 60)"
  define ms where "ms = (\<lambda>t :: nat. t mod 1000)"
  have fields: "time_text t = digits 2 (h t) @ '':'' @ digits 2 (mi t) @ '':'' @ digits 2 (se t) @ ''.'' @ digits 3 (ms t)"
    if "t < 86400000" for t
  proof -
    have "h t < 24" using that by (simp add: h_def less_mult_imp_div_less)
    then show ?thesis by (simp add: time_text_def h_def mi_def se_def ms_def div_mult2_eq [symmetric])
  qed
  have less: "h a < h b \<or> h a = h b \<and> (mi a < mi b \<or> mi a = mi b \<and> (se a < se b \<or> se a = se b \<and> ms a < ms b))"
    using radix_less [OF assms(1), of 1000] radix_less [of "a div 1000" "b div 1000" 60]
      radix_less [of "a div 1000 div 60" "b div 1000 div 60" 60]
    by (auto simp: h_def mi_def se_def ms_def)
  have bound: "h b < 10 ^ 2" "mi b < 10 ^ 2" "se b < 10 ^ 2" "ms b < 10 ^ 3"
  proof -
    have "h b < 24" using assms(2) by (simp add: h_def less_mult_imp_div_less)
    moreover have "mi b < 60" "se b < 60" "ms b < 1000" by (simp_all add: mi_def se_def ms_def)
    ultimately show "h b < 10 ^ 2" "mi b < 10 ^ 2" "se b < 10 ^ 2" "ms b < 10 ^ 3" by simp_all
  qed
  let ?s = "\<lambda>t. digits 2 (se t) @ ''.'' @ digits 3 (ms t)"
  let ?m = "\<lambda>t. digits 2 (mi t) @ '':'' @ ?s t"
  have s: "se a < se b \<or> se a = se b \<and> ms a < ms b \<Longrightarrow> ?s a < ?s b"
    using digits_less [OF _ bound(4)] by (intro field_less [OF _ bound(3)]) blast
  have m: "mi a < mi b \<or> mi a = mi b \<and> (se a < se b \<or> se a = se b \<and> ms a < ms b) \<Longrightarrow> ?m a < ?m b"
    using s by (intro field_less [OF _ bound(2)]) blast
  have "digits 2 (h a) @ '':'' @ ?m a < digits 2 (h b) @ '':'' @ ?m b"
    using less m by (intro field_less [OF _ bound(1)]) blast
  then show ?thesis using fields [of a] fields [of b] assms by simp
qed

definition iso_text :: "nat \<Rightarrow> string" where
  "iso_text ms = date_text (ms div 86400000) @ ''T'' @ time_text (ms mod 86400000) @ ''Z''"

lemma iso_text_less:
  assumes "a < b" "b < 3652059 * 86400000"
  shows "iso_text a < iso_text b"
proof -
  have day: "b div 86400000 < 3652059" using assms(2) by (simp add: less_mult_imp_div_less)
  from radix_less [OF assms(1), of 86400000] show ?thesis
  proof
    assume "a div 86400000 < b div 86400000"
    from date_text_less [OF this day] show ?thesis
      unfolding iso_text_def by (rule less_prefix) simp
  next
    assume eq: "a div 86400000 = b div 86400000 \<and> a mod 86400000 < b mod 86400000"
    have "time_text (a mod 86400000) < time_text (b mod 86400000)"
      by (rule time_text_less) (use eq in simp_all)
    then have "time_text (a mod 86400000) @ ''Z'' < time_text (b mod 86400000) @ ''Z''"
      by (rule less_prefix) simp
    with eq show ?thesis unfolding iso_text_def by (auto intro!: less_suffix)
  qed
qed

lemma replace_suffix:
  "CHR ''+'' \<notin> set b \<Longrightarrow> py_replace ''+00:00'' ''Z'' (b @ ''+00:00'') = b @ ''Z''"
  by (induction b) (auto simp: py_startswith_def)

lemma mod_div_nat: "0 < k \<Longrightarrow> t mod (k * l) div k = t div k mod l" for k l t :: nat
  by (simp add: mod_mult2_eq)

lemma time_text_mod: "time_text (t mod 86400000) = time_text t"
proof -
  have "t mod 86400000 div 3600000 mod 24 = t div 3600000 mod 24"
    using mod_div_nat [of 3600000 t 24] by simp
  moreover have "t mod 86400000 div 60000 mod 60 = t div 60000 mod 60"
    using mod_div_nat [of 60000 t 1440] by (simp add: mod_mod_cancel)
  moreover have "t mod 86400000 div 1000 mod 60 = t div 1000 mod 60"
    using mod_div_nat [of 1000 t 86400] by (simp add: mod_mod_cancel)
  moreover have "t mod 86400000 mod 1000 = t mod 1000"
    by (simp add: mod_mod_cancel)
  ultimately show ?thesis by (simp only: time_text_def)
qed

lemma digits_no_plus: "CHR ''+'' \<notin> set (digits k n)"
proof (induction k arbitrary: n)
  case (Suc k)
  have "is_dec (char_of (48 + n mod 10))" by (rule is_dec_digit) simp
  then have "char_of (48 + n mod 10) \<noteq> CHR ''+''" using dec_not_minus by blast
  with Suc show ?case by auto
qed simp

lemma isoformat_iso_text:
  assumes "micros div 1000 < 3652059 * 86400000"
  shows "py_replace ''+00:00'' ''Z'' (isoformat_utc micros) = iso_text (micros div 1000)"
proof -
  let ?ms = "micros div 1000"
  obtain y n where y: "split_year 1 (?ms div 86400000) = (y, n)" by (cases "split_year 1 (?ms div 86400000)")
  obtain m d where m: "split_month y 1 n = (m, d)" by (cases "split_month y 1 n")
  have range: "y < 10 ^ 4" "m < 10 ^ 2" "d + 1 < 10 ^ 2"
    using split_year_range [OF y] split_month_day [OF m] assms by (auto simp: less_mult_imp_div_less)
  let ?b = "date_text (?ms div 86400000) @ ''T'' @ time_text ?ms"
  have "isoformat_utc micros = ?b @ ''+00:00''"
    unfolding isoformat_utc_def date_text_def time_text_def Let_def y m prod.case
    using range by (simp add: pad_digits)
  moreover have "CHR ''+'' \<notin> set ?b"
    by (auto simp: date_text_def y m time_text_def digits_no_plus)
  ultimately show ?thesis using replace_suffix [of ?b] by (simp add: iso_text_def time_text_mod)
qed

section \<open>Properties\<close>

text \<open>
  C23: Timestamps sort as the instants they stand for, at the resolution of a millisecond: of two texts
  that \<open>to_iso\<close> returns, whatever the time zones of the two moments, the one that is less or equal
  as a string is the one whose instant in UTC is. Every text has 24 characters and ends in \<open>Z\<close>, and
  \<open>to_iso\<close> only fails on an instant outside the years 1 to 9999.
\<close>

theorem timestamps_sort_as_instants:
  "case (to_iso a, to_iso b) of
     (Inr s, Inr t) \<Rightarrow> (s \<le> t) = (utc_micros a div 1000 \<le> utc_micros b div 1000) \<and> length s = 24 \<and> last s = CHR ''Z''
   | (Inr s, Inl e) \<Rightarrow> utc_micros b < 0 \<or> MAX_MICROS \<le> utc_micros b
   | (Inl e, _) \<Rightarrow> utc_micros a < 0 \<or> MAX_MICROS \<le> utc_micros a"
proof -
  define ms where "ms = (\<lambda>m. nat (utc_micros m) div 1000)"
  have iso: "to_iso m = (if 0 \<le> utc_micros m \<and> utc_micros m < MAX_MICROS then Inr (iso_text (ms m))
      else Inl (OtherError ''OverflowError'' ''date value out of range''))" for m
  proof (cases "0 \<le> utc_micros m \<and> utc_micros m < MAX_MICROS")
    case True
    then have "ms m < 3652059 * 86400000" by (simp add: ms_def MAX_MICROS_def less_mult_imp_div_less nat_less_iff)
    then have "py_replace ''+00:00'' ''Z'' (isoformat_utc (nat (utc_micros m))) = iso_text (ms m)"
      unfolding ms_def by (rule isoformat_iso_text)
    with True show ?thesis by (simp add: to_iso_def Let_def)
  next
    case False
    then show ?thesis by (simp only: to_iso_def Let_def if_False)
  qed
  have order: "(iso_text (ms a) \<le> iso_text (ms b)) = (utc_micros a div 1000 \<le> utc_micros b div 1000)"
    if "0 \<le> utc_micros a" "utc_micros a < MAX_MICROS" "0 \<le> utc_micros b" "utc_micros b < MAX_MICROS"
  proof -
    have bound: "ms a < 3652059 * 86400000" "ms b < 3652059 * 86400000"
      using that by (simp_all add: ms_def MAX_MICROS_def less_mult_imp_div_less nat_less_iff)
    have "(iso_text (ms a) \<le> iso_text (ms b)) = (ms a \<le> ms b)"
      using iso_text_less [OF _ bound(1)] iso_text_less [OF _ bound(2)] by (metis le_less not_le)
    also have "\<dots> = (utc_micros a div 1000 \<le> utc_micros b div 1000)"
      using that nat_div_distrib [of "utc_micros a" 1000] nat_div_distrib [of "utc_micros b" 1000]
        nat_le_eq_zle [of "utc_micros a div 1000" "utc_micros b div 1000"]
      by (simp only: ms_def pos_imp_zdiv_nonneg_iff) simp
    finally show ?thesis .
  qed
  have "length (iso_text k) = 24" "last (iso_text k) = CHR ''Z''" for k
    by (simp_all add: iso_text_def)
  then show ?thesis
    using order by (auto simp: iso)
qed

end
