(* ===== verification/Loadgen.thy ===== *)
theory Loadgen
  imports Api Sample
begin

text \<open>
  The sequential functions of \<open>loadgen/generate.py\<close>: measurements and their percentiles, the upload
  and poll requests, one scheduled upload, one followed job, the schedule and the command line. The
  threads that run them are in theory \<open>Loadrun\<close>. HTTP, JSON, the clock, random choices and the
  synthetic image are parameters. So is the float arithmetic whose rounding can decide a rank or a
  number of uploads: \<open>floats_ok\<close> says that it is monotone and how accurate it is; printing is left out.
\<close>

section \<open>Measurements\<close>

definition PERCENTILES :: "nat list" where "PERCENTILES = [50, 90, 95, 99]"
definition POLL_INTERVAL_SECONDS :: rat where "POLL_INTERVAL_SECONDS = 1 / 2"
definition TERMINAL_STATUSES :: "string list" where "TERMINAL_STATUSES = [''COMPLETE'', ''FAILED'']"
definition DEFAULT_BASE_URL :: string where "DEFAULT_BASE_URL = ''http://localhost:8000''"

record results =
  upload_latencies :: "rat list"
  completion_latencies :: "rat list"
  status_counts :: "nat dict"
  terminal_counts :: "nat dict"
  error_counts :: "nat dict"
  started_at :: rat
  finished_at :: rat

definition no_results :: results where
  "no_results = \<lparr>upload_latencies = [], completion_latencies = [], status_counts = [], terminal_counts = [],
     error_counts = [], started_at = 0, finished_at = 0\<rparr>"

text \<open>\<open>counter[key] += 1\<close> on a \<open>Counter\<close>, and the sum of its values.\<close>

definition counter_inc :: "string \<Rightarrow> nat dict \<Rightarrow> nat dict" where
  "counter_inc key counts = dict_set key (Suc (opt_get 0 (dict_get counts key))) counts"

definition counter_sum :: "nat dict \<Rightarrow> nat" where
  "counter_sum counts = sum_list (map snd counts)"

definition wall_seconds :: "results \<Rightarrow> rat" where
  "wall_seconds R = max (finished_at R - started_at R) (1 / 1000000000)"

definition accepted :: "results \<Rightarrow> nat" where
  "accepted R = opt_get 0 (dict_get (status_counts R) ''202'')"

definition total_requests :: "results \<Rightarrow> nat" where
  "total_requests R = counter_sum (status_counts R) + counter_sum (error_counts R)"

text \<open>The float operations: product, quotient, and \<open>round(x, 2)\<close>.\<close>

record floats =
  fl_mul :: "rat \<Rightarrow> rat \<Rightarrow> rat"
  fl_div :: "rat \<Rightarrow> rat \<Rightarrow> rat"
  fl_round2 :: "rat \<Rightarrow> rat"

text \<open>\<open>round(x)\<close> rounds halves to even.\<close>

definition py_round :: "rat \<Rightarrow> int" where
  "py_round x =
     (let f = \<lfloor>x\<rfloor>; rest = x - of_int f in
      if rest < 1 / 2 then f else if rest > 1 / 2 then f + 1 else if even f then f else f + 1)"

definition percentile_index :: "floats \<Rightarrow> nat \<Rightarrow> nat \<Rightarrow> nat" where
  "percentile_index F n percentile =
     nat (max (min (int n - 1) (py_round (fl_mul F (fl_div F (of_nat percentile) 100) (of_nat n)) - 1)) 0)"

definition percentiles :: "floats \<Rightarrow> rat list \<Rightarrow> rat dict" where
  "percentiles F samples =
     (if samples = [] then map (\<lambda>p. (''p'' @ show_nat p, 0)) PERCENTILES
      else let ordered = sort samples in
        map (\<lambda>p. (''p'' @ show_nat p, fl_round2 F (fl_mul F (ordered ! percentile_index F (length ordered) p) 1000))) PERCENTILES)"

text \<open>One line of the report: \<open>", ".join(f"{name}={count}" for ... in sorted(...)) or "none"\<close>.\<close>

definition counts_text :: "nat dict \<Rightarrow> string" where
  "counts_text counts =
     (let parts = map (\<lambda>(name, count). name @ ''='' @ show_nat count) (sort_key fst counts)
      in if py_join '', '' parts = [] then ''none'' else py_join '', '' parts)"

section \<open>Requests\<close>

text \<open>The random bytes of a seed, and the expansion of the noise and its encoding by Pillow.\<close>

record synth =
  sy_randbytes :: "int \<Rightarrow> int \<Rightarrow> bytes"
  sy_encode :: "int \<times> int \<Rightarrow> bytes \<Rightarrow> int \<times> int \<Rightarrow> exn + bytes"

definition make_image :: "synth \<Rightarrow> int \<Rightarrow> int \<Rightarrow> int \<Rightarrow> exn + bytes" where
  "make_image Y width height seed =
     (let small_width = max 1 (width div 8); small_height = max 1 (height div 8);
          noise = sy_randbytes Y seed (small_width * small_height * 3)
      in sy_encode Y (small_width, small_height) noise (width, height))"

definition CRLF :: string where "CRLF = [CHR 0x0D, CHR 0x0A]"

definition multipart :: "bytes \<Rightarrow> string \<Rightarrow> string \<Rightarrow> bytes \<times> string" where
  "multipart payload filename hex =
     (let boundary = ''----pixelforge'' @ hex; quote = [CHR 0x22];
          head = ''--'' @ boundary @ CRLF @
            ''Content-Disposition: form-data; name='' @ quote @ ''file'' @ quote @ ''; filename='' @ quote @ filename @ quote @ CRLF @
            ''Content-Type: image/jpeg'' @ CRLF @ CRLF;
          tail = CRLF @ ''--'' @ boundary @ ''--'' @ CRLF
      in (head @ payload @ tail, ''multipart/form-data; boundary='' @ boundary))"

record load_request =
  lr_url :: string
  lr_method :: string
  lr_headers :: "(string \<times> string) list"
  lr_body :: bytes

text \<open>
  What \<open>urlopen\<close>, used in a \<open>with\<close> that reads the body, can do: a status and a body, an \<open>HTTPError\<close> (whose
  body could be read), another \<open>OSError\<close> with its class name, or an exception of some other class.
\<close>

datatype http_answer = Answer int bytes | HttpStatus int | Transport string | Fault exn

record 'v net =
  net_open :: "load_request \<Rightarrow> rat \<Rightarrow> 'v \<Rightarrow> http_answer \<times> 'v"
  net_clock :: "'v \<Rightarrow> rat \<times> 'v"
  net_sleep :: "rat \<Rightarrow> 'v \<Rightarrow> 'v"
  net_choice :: "'v \<Rightarrow> nat \<times> 'v"
  net_hex :: "'v \<Rightarrow> string \<times> 'v"
  net_json :: "bytes \<Rightarrow> exn + pyval"
  net_str :: "pyval \<Rightarrow> string"

definition doc_get :: "pyval \<Rightarrow> string \<Rightarrow> pyval \<Rightarrow> exn + pyval" where
  "doc_get document key dflt =
     (case document of PDict d \<Rightarrow> Inr (opt_get dflt (dict_get d key))
      | _ \<Rightarrow> Inl (OtherError ''AttributeError'' ''object has no attribute get''))"

text \<open>An \<open>OSError\<close> that is not an \<open>HTTPError\<close> is told apart from the exceptions nothing catches.\<close>

datatype load_error = OsError string | Uncaught exn

definition upload_request :: "string \<Rightarrow> bytes \<Rightarrow> string \<Rightarrow> string \<Rightarrow> load_request" where
  "upload_request base_url payload filename hex =
     (let (body, content_type) = multipart payload filename hex in
      \<lparr>lr_url = base_url @ ''/api/v1/jobs'', lr_method = ''POST'',
       lr_headers = [(''Content-Type'', content_type), (''Content-Length'', show_nat (length body))], lr_body = body\<rparr>)"

definition post_upload ::
  "'v net \<Rightarrow> string \<Rightarrow> bytes \<Rightarrow> string \<Rightarrow> rat \<Rightarrow> 'v \<Rightarrow> (load_error + string \<times> pyval) \<times> 'v" where
  "post_upload N base_url payload filename timeout w =
     (case net_hex N w of (hex, w1) \<Rightarrow>
       (case net_open N (upload_request base_url payload filename hex) timeout w1 of
          (Answer status raw, w2) \<Rightarrow>
            (case sum_bind (net_json N raw) (\<lambda>document. doc_get document ''job_id'' PNone) of
               Inl e \<Rightarrow> (Inl (Uncaught e), w2)
             | Inr job_id \<Rightarrow> (Inr (show_int status, job_id), w2))
        | (HttpStatus status, w2) \<Rightarrow> (Inr (show_int status, PNone), w2)
        | (Transport name, w2) \<Rightarrow> (Inl (OsError name), w2)
        | (Fault e, w2) \<Rightarrow> (Inl (Uncaught e), w2)))"

text \<open>One round of \<open>_poll_job\<close>: the value it returns, an exception it lets through, or another round.\<close>

definition poll_once :: "'v net \<Rightarrow> string \<Rightarrow> string \<Rightarrow> rat \<Rightarrow> 'v \<Rightarrow> (exn + string) option \<times> 'v" where
  "poll_once N base_url job_id timeout w =
     (case net_open N \<lparr>lr_url = base_url @ ''/api/v1/jobs/'' @ job_id, lr_method = ''GET'', lr_headers = [], lr_body = []\<rparr> timeout w of
        (Answer _ raw, w1) \<Rightarrow>
          (case sum_bind (net_json N raw) (\<lambda>document. doc_get document ''status'' (PStr ''UNKNOWN'')) of
             Inl e \<Rightarrow> (Some (Inl e), w1)
           | Inr status \<Rightarrow>
               if net_str N status \<in> set TERMINAL_STATUSES then (Some (Inr (net_str N status)), w1) else (None, w1))
      | (HttpStatus status, w1) \<Rightarrow> (if status \<noteq> 404 then (Some (Inr (''HTTP_'' @ show_int status)), w1) else (None, w1))
      | (Transport _, w1) \<Rightarrow> (None, w1)
      | (Fault e, w1) \<Rightarrow> (Some (Inl e), w1))"

fun poll_job :: "nat \<Rightarrow> 'v net \<Rightarrow> string \<Rightarrow> string \<Rightarrow> rat \<Rightarrow> rat \<Rightarrow> 'v \<Rightarrow> ((exn + string) \<times> 'v) option" where
  "poll_job fuel N base_url job_id timeout deadline w =
     (case net_clock N w of (now, w1) \<Rightarrow>
        if now < deadline
        then (case fuel of 0 \<Rightarrow> None
              | Suc fuel' \<Rightarrow>
                  (case poll_once N base_url job_id timeout w1 of
                     (Some r, w2) \<Rightarrow> Some (r, w2)
                   | (None, w2) \<Rightarrow> poll_job fuel' N base_url job_id timeout deadline (net_sleep N POLL_INTERVAL_SECONDS w2)))
        else Some (Inr ''TIMEOUT'', w1))"

declare poll_job.simps [simp del]

section \<open>Arguments\<close>

record load_args =
  ar_base_url :: string
  ar_rate :: rat
  ar_duration :: rat
  ar_concurrency :: int
  ar_width :: int
  ar_height :: int
  ar_distinct_images :: int
  ar_poll :: bool
  ar_poll_timeout :: rat
  ar_timeout :: rat

text \<open>The defaults of \<open>build_parser\<close>; the argument is the environment variable \<open>PIXELFORGE_BASE_URL\<close>.\<close>

definition default_args :: "string option \<Rightarrow> load_args" where
  "default_args base_url_var =
     \<lparr>ar_base_url = opt_get DEFAULT_BASE_URL base_url_var, ar_rate = 5, ar_duration = 30, ar_concurrency = 8,
      ar_width = 1600, ar_height = 1200, ar_distinct_images = 4, ar_poll = False, ar_poll_timeout = 120, ar_timeout = 30\<rparr>"

text \<open>What \<open>main\<close> does with parsed arguments before the run: exit code 2, or the normalised arguments.\<close>

definition check_args :: "load_args \<Rightarrow> int + load_args" where
  "check_args args =
     (if ar_rate args \<le> 0 \<or> ar_duration args \<le> 0 \<or> ar_concurrency args \<le> 0 then Inl 2
      else Inr (args\<lparr>ar_base_url := py_rstrip_char (CHR ''/'') (ar_base_url args),
                     ar_distinct_images := max 1 (ar_distinct_images args)\<rparr>))"

definition load_exit :: "results \<Rightarrow> int" where
  "load_exit R = (if accepted R \<noteq> 0 then 0 else 1)"

text \<open>The queue \<open>run_load\<close> fills: a send time for every upload, then one \<open>None\<close> for every thread.\<close>

definition total_uploads :: "floats \<Rightarrow> load_args \<Rightarrow> int" where
  "total_uploads F args = max 1 (py_round (fl_mul F (ar_rate args) (ar_duration args)))"

definition task_queue :: "floats \<Rightarrow> load_args \<Rightarrow> rat option list" where
  "task_queue F args =
     map (\<lambda>index. Some (fl_div F (of_nat index) (ar_rate args))) [0..<nat (total_uploads F args)] @
     replicate (nat (ar_concurrency args)) None"

definition load_payloads :: "synth \<Rightarrow> load_args \<Rightarrow> exn + bytes list" where
  "load_payloads Y args =
     sum_map (\<lambda>index. make_image Y (ar_width args) (ar_height args) (int index)) [0..<nat (ar_distinct_images args)]"

section \<open>One scheduled upload, one followed job\<close>

text \<open>What one turn of \<open>_worker\<close> learns about its upload; \<open>UploadAnswered\<close> has status, latency, job id and start.\<close>

datatype upload_event = UploadAnswered string rat pyval rat | UploadFailed string

definition issue_upload ::
  "'v net \<Rightarrow> load_args \<Rightarrow> bytes list \<Rightarrow> rat \<Rightarrow> rat \<Rightarrow> 'v \<Rightarrow> (exn + upload_event) \<times> 'v" where
  "issue_upload N args payloads origin scheduled w =
     (case net_clock N w of (now, w1) \<Rightarrow>
      let wait = origin + scheduled - now; w2 = (if wait > 0 then net_sleep N wait w1 else w1) in
      if payloads = [] then (Inl (OtherError ''IndexError'' ''Cannot choose from an empty sequence''), w2)
      else (case net_choice N w2 of (i, w3) \<Rightarrow>
           (case net_clock N w3 of (started, w4) \<Rightarrow>
           (case net_hex N w4 of (hex, w5) \<Rightarrow>
           (case post_upload N (ar_base_url args) (payloads ! (i mod length payloads))
                  (''load-'' @ take 8 hex @ ''.jpg'') (ar_timeout args) w5 of
              (Inl (OsError name), w6) \<Rightarrow> (Inr (UploadFailed name), w6)
            | (Inl (Uncaught e), w6) \<Rightarrow> (Inl e, w6)
            | (Inr (status, job_id), w6) \<Rightarrow>
                (case net_clock N w6 of (finished, w7) \<Rightarrow>
                   (Inr (UploadAnswered status (finished - started) job_id started), w7)))))))"

fun record_upload :: "upload_event \<Rightarrow> results \<Rightarrow> results" where
  "record_upload (UploadAnswered status seconds job_id started) R =
     R\<lparr>status_counts := counter_inc status (status_counts R), upload_latencies := upload_latencies R @ [seconds]\<rparr>"
| "record_upload (UploadFailed name) R = R\<lparr>error_counts := counter_inc name (error_counts R)\<rparr>"

fun truthy :: "pyval \<Rightarrow> bool" where
  "truthy PNone = False"
| "truthy (PBool b) = b"
| "truthy (PInt i) = (i \<noteq> 0)"
| "truthy (PFloat x) = (x \<noteq> 0)"
| "truthy (PNonFinite x) = True"
| "truthy (PDecimal x) = (x \<noteq> 0)"
| "truthy (PDecimalNonFinite x) = True"
| "truthy (PRational p q) = (p \<noteq> 0)"
| "truthy (PStr s) = (s \<noteq> [])"
| "truthy (PBytes b) = (b \<noteq> [])"
| "truthy (PList xs) = (xs \<noteq> [])"
| "truthy (PTuple xs) = (xs \<noteq> [])"
| "truthy (PDict d) = (d \<noteq> [])"
| "truthy (PObj s) = True"

text \<open>The job \<open>_worker\<close> hands to the pool of pollers: its id and the start of its upload.\<close>

fun followed :: "load_args \<Rightarrow> upload_event \<Rightarrow> (pyval \<times> rat) list" where
  "followed args (UploadAnswered status seconds job_id started) = (if ar_poll args \<and> truthy job_id then [(job_id, started)] else [])"
| "followed args (UploadFailed name) = []"

text \<open>\<open>_follow_job\<close>; an exception of the poll stays in the pool's future and nothing is recorded.\<close>

definition follow_job ::
  "nat \<Rightarrow> 'v net \<Rightarrow> load_args \<Rightarrow> pyval \<times> rat \<Rightarrow> results \<Rightarrow> 'v \<Rightarrow> ((exn + results) \<times> 'v) option" where
  "follow_job fuel N args job R w =
     (case net_clock N w of (now, w1) \<Rightarrow>
       (case poll_job fuel N (ar_base_url args) (net_str N (fst job)) (ar_timeout args) (now + ar_poll_timeout args) w1 of
          None \<Rightarrow> None
        | Some (Inl e, w2) \<Rightarrow> Some (Inl e, w2)
        | Some (Inr final, w2) \<Rightarrow>
            (let R' = R\<lparr>terminal_counts := counter_inc final (terminal_counts R)\<rparr> in
             if final \<in> set TERMINAL_STATUSES
             then (case net_clock N w2 of (finished, w3) \<Rightarrow>
                     Some (Inr (R'\<lparr>completion_latencies := completion_latencies R' @ [finished - snd job]\<rparr>), w3))
             else Some (Inr R', w2))))"

section \<open>Percentiles\<close>

text \<open>
  What the float operations are relied on for: they keep the order of their first argument, and where the
  rank is computed (percents, and factors up to \<open>2 ^ 40\<close>) they are accurate to the relative error \<open>2 ^ -53\<close>
  of a correctly rounded double.
\<close>

definition floats_ok :: "floats \<Rightarrow> bool" where
  "floats_ok F \<longleftrightarrow>
     (\<forall>x y c. x \<le> y \<and> 0 \<le> c \<longrightarrow> fl_mul F x c \<le> fl_mul F y c) \<and>
     (\<forall>x y c. x \<le> y \<and> 0 < c \<longrightarrow> fl_div F x c \<le> fl_div F y c) \<and>
     (\<forall>x y. x \<le> y \<longrightarrow> fl_round2 F x \<le> fl_round2 F y) \<and>
     (\<forall>p \<le> 100. \<bar>fl_div F (of_nat p) 100 - of_nat p / 100\<bar> \<le> of_nat p / 100 / 2 ^ 53) \<and>
     (\<forall>x n. 1 / 100 \<le> x \<and> x \<le> 1 \<and> n \<le> 2 ^ 40 \<longrightarrow> \<bar>fl_mul F x (of_nat n) - x * of_nat n\<bar> \<le> x * of_nat n / 2 ^ 53)"

lemma floats_okD:
  assumes "floats_ok F"
  shows "x \<le> y \<Longrightarrow> 0 \<le> c \<Longrightarrow> fl_mul F x c \<le> fl_mul F y c"
    "x \<le> y \<Longrightarrow> 0 < c \<Longrightarrow> fl_div F x c \<le> fl_div F y c"
    "x \<le> y \<Longrightarrow> fl_round2 F x \<le> fl_round2 F y"
    "p \<le> 100 \<Longrightarrow> \<bar>fl_div F (of_nat p) 100 - of_nat p / 100\<bar> \<le> of_nat p / 100 / 2 ^ 53"
    "1 / 100 \<le> x \<Longrightarrow> x \<le> 1 \<Longrightarrow> n \<le> 2 ^ 40 \<Longrightarrow> \<bar>fl_mul F x (of_nat n) - x * of_nat n\<bar> \<le> x * of_nat n / 2 ^ 53"
  using assms unfolding floats_ok_def by blast+

lemma py_round_range: "\<lfloor>x\<rfloor> \<le> py_round x \<and> py_round x \<le> \<lfloor>x\<rfloor> + 1"
  by (simp add: py_round_def Let_def)

lemma py_round_mono:
  assumes "x \<le> y"
  shows "py_round x \<le> py_round y"
proof (cases "\<lfloor>x\<rfloor> = \<lfloor>y\<rfloor>")
  case True
  then have "x - of_int \<lfloor>x\<rfloor> \<le> y - of_int \<lfloor>y\<rfloor>" using assms by simp
  then show ?thesis unfolding py_round_def Let_def True by (simp split: if_splits)
next
  case False
  then have "\<lfloor>x\<rfloor> + 1 \<le> \<lfloor>y\<rfloor>" using floor_mono [OF assms] by simp
  then show ?thesis using py_round_range [of x] py_round_range [of y] by linarith
qed

lemma percentile_index_less: "0 < n \<Longrightarrow> percentile_index F n p < n"
  by (auto simp: percentile_index_def nat_less_iff)

lemma percentile_index_mono: "floats_ok F \<Longrightarrow> p \<le> q \<Longrightarrow> percentile_index F n p \<le> percentile_index F n q"
  unfolding percentile_index_def
  by (intro nat_mono max.mono min.mono diff_mono py_round_mono floats_okD(1) floats_okD(2)) simp_all

text \<open>Python rounds to a nearest integer.\<close>

lemma py_round_nearest: "\<bar>of_int (py_round x) - x\<bar> \<le> 1 / 2"
proof -
  define f where "f = x - of_int \<lfloor>x\<rfloor>"
  have f: "0 \<le> f" "f < 1" "x = of_int \<lfloor>x\<rfloor> + f" unfolding f_def by linarith+
  show ?thesis
    unfolding py_round_def Let_def f_def [symmetric] using f by (auto simp: abs_if split: if_splits)
qed

text \<open>The product of the percent and the number of samples, before it is rounded, is close to the exact one.\<close>

lemma percent_close:
  assumes F: "floats_ok F" and p: "50 \<le> p" "p \<le> 99" and n: "n \<le> 2 ^ 40"
  shows "\<bar>fl_mul F (fl_div F (of_nat p) 100) (of_nat n) - of_nat p * of_nat n / 100\<bar> < 1 / 100"
proof -
  define x :: rat where "x = fl_div F (of_nat p) 100"
  define m :: rat where "m = of_nat n"
  define q :: rat where "q = of_nat p / 100"
  have q: "1 / 2 \<le> q" "q \<le> 99 / 100" using p by (simp_all add: q_def)
  have m: "0 \<le> m" "m \<le> 2 ^ 40" using n of_nat_mono [OF n, where 'a = rat] by (simp_all add: m_def)
  have x: "\<bar>x - q\<bar> \<le> q / 2 ^ 53"
    using floats_okD(4) [OF F, of p] p unfolding x_def q_def by simp
  have "\<bar>x - q\<bar> \<le> 1 / 100" by (rule order_trans [OF x]) (use q in simp)
  then have x1: "1 / 100 \<le> x" "x \<le> 1" using q unfolding abs_le_iff by linarith+
  have a: "\<bar>fl_mul F x m - x * m\<bar> \<le> x * m / 2 ^ 53"
    using floats_okD(5) [OF F x1 n] unfolding m_def .
  have "x * m \<le> 1 * 2 ^ 40" using x1 m by (intro mult_mono) simp_all
  then have a': "x * m / 2 ^ 53 \<le> 2 ^ 40 / 2 ^ 53" by (intro divide_right_mono) simp_all
  have "\<bar>x * m - q * m\<bar> = \<bar>x - q\<bar> * m" using m(1) by (simp add: abs_mult left_diff_distrib [symmetric])
  also have "\<dots> \<le> 1 / 2 ^ 53 * 2 ^ 40"
    using x q m by (intro mult_mono) (auto intro: order_trans [OF x] divide_right_mono)
  finally have "\<bar>fl_mul F x m - q * m\<bar> \<le> 2 ^ 40 / 2 ^ 53 + 1 / 2 ^ 53 * 2 ^ 40"
    using a a' by linarith
  also have "\<dots> < (1 / 100 :: rat)" by simp
  finally show ?thesis unfolding x_def m_def q_def by simp
qed

text \<open>The index is that of a rank nearest to \<open>p\<close> percent of the number of samples.\<close>

lemma percentile_index_nearest:
  assumes F: "floats_ok F" and p: "50 \<le> p" "p \<le> 99" and n: "0 < n" "n \<le> 2 ^ 40"
  shows "\<bar>100 * (int (percentile_index F n p) + 1) - int p * int n\<bar> \<le> 50"
proof -
  define r where "r = py_round (fl_mul F (fl_div F (of_nat p) 100) (of_nat n))"
  have "\<bar>of_int r - of_nat p * of_nat n / 100 :: rat\<bar> < 51 / 100"
    using percent_close [OF F p n(2)] py_round_nearest [of "fl_mul F (fl_div F (of_nat p) 100) (of_nat n)"]
    unfolding r_def [symmetric] by linarith
  then have "\<bar>of_int (100 * r - int p * int n) :: rat\<bar> < of_int 51" by (simp add: abs_less_iff field_simps)
  then have r: "\<bar>100 * r - int p * int n\<bar> \<le> 50" by linarith
  have pn: "50 * int n \<le> int p * int n" "int p * int n \<le> 99 * int n" using p by (simp_all add: mult_right_mono)
  then have bounds: "0 \<le> r" "r \<le> int n" using r n(1) by linarith+
  have i: "int (percentile_index F n p) = max (r - 1) 0"
    using bounds by (simp add: percentile_index_def r_def [symmetric])
  show ?thesis
  proof (cases "r = 0")
    case True
    with r pn n(1) have "int p * int n = 50" by linarith
    with True i show ?thesis by simp
  next
    case False
    with bounds(1) i have "int (percentile_index F n p) + 1 = r" by simp
    with r show ?thesis by simp
  qed
qed

lemma filter_take_sorted:
  assumes "sorted xs" "i < length xs"
  shows "Suc i \<le> length (filter (\<lambda>y. y \<le> xs ! i) xs)" "length xs - i \<le> length (filter (\<lambda>y. xs ! i \<le> y) xs)"
proof -
  have "filter (\<lambda>y. y \<le> xs ! i) (take (Suc i) xs) = take (Suc i) xs"
    using assms by (auto simp: filter_id_conv in_set_conv_nth intro!: sorted_nth_mono)
  moreover have "filter (\<lambda>y. y \<le> xs ! i) xs = filter (\<lambda>y. y \<le> xs ! i) (take (Suc i) xs) @ filter (\<lambda>y. y \<le> xs ! i) (drop (Suc i) xs)"
    by (simp only: filter_append [symmetric] append_take_drop_id)
  ultimately show "Suc i \<le> length (filter (\<lambda>y. y \<le> xs ! i) xs)" using assms(2) by simp
  have "filter (\<lambda>y. xs ! i \<le> y) (drop i xs) = drop i xs"
    using assms by (auto simp: filter_id_conv in_set_conv_nth intro!: sorted_nth_mono)
  moreover have "filter (\<lambda>y. xs ! i \<le> y) xs = filter (\<lambda>y. xs ! i \<le> y) (take i xs) @ filter (\<lambda>y. xs ! i \<le> y) (drop i xs)"
    by (simp only: filter_append [symmetric] append_take_drop_id)
  ultimately show "length xs - i \<le> length (filter (\<lambda>y. xs ! i \<le> y) xs)" by simp
qed

lemma length_filter_sort: "length (filter P (sort xs)) = length (filter P xs)"
  by (simp add: filter_sort)

text \<open>\<open>rank_of\<close>: a sample with at least \<open>k\<close> samples at or below it and at least \<open>n - k + 1\<close> at or above it.\<close>

definition has_rank :: "rat list \<Rightarrow> nat \<Rightarrow> rat \<Rightarrow> bool" where
  "has_rank samples k x \<longleftrightarrow> x \<in> set samples \<and> k \<le> length (filter (\<lambda>y. y \<le> x) samples) \<and>
     length samples < k + length (filter (\<lambda>y. x \<le> y) samples)"

lemma sorted_has_rank: "i < length samples \<Longrightarrow> has_rank samples (Suc i) (sort samples ! i)"
  using filter_take_sorted [of "sort samples" i] nth_mem [of i "sort samples"]
  by (simp add: has_rank_def length_filter_sort)

lemma percentile_name_inj: "''p'' @ show_nat p = ''p'' @ show_nat q \<longleftrightarrow> p = q"
  by (simp add: show_nat_inj)

lemma percentiles_nonempty:
  assumes "samples \<noteq> []" "p \<in> set PERCENTILES"
  shows "dict_get (percentiles F samples) (''p'' @ show_nat p) =
    Some (fl_round2 F (fl_mul F (sort samples ! percentile_index F (length samples) p) 1000))"
  using assms by (auto simp: percentiles_def Let_def PERCENTILES_def dict_get_def show_nat_inj)

section \<open>Properties\<close>

text \<open>
  C38: The report names the four percentiles in order and their values never decrease. Without samples
  they are 0; otherwise \<open>p\<close> percent is, in milliseconds, a measured sample \<open>x\<close> of a rank \<open>k\<close> (at least \<open>k\<close> of
  the \<open>n\<close> samples are at or below \<open>x\<close>, at least \<open>n - k + 1\<close> at or above it), and \<open>k\<close> is a rank between 1 and \<open>n\<close>
  nearest to \<open>p * n / 100\<close>: it differs from it by at most one half.
\<close>

theorem percentiles_are_order_statistics:
  assumes F: "floats_ok F" and n: "length samples \<le> 2 ^ 40"
  shows "map fst (percentiles F samples) = map (\<lambda>p. ''p'' @ show_nat p) [50, 90, 95, 99] \<and>
    sorted (map snd (percentiles F samples)) \<and>
    (if samples = [] then list_all (\<lambda>(name, v). v = 0) (percentiles F samples)
     else list_all (\<lambda>p. \<exists>x k. dict_get (percentiles F samples) (''p'' @ show_nat p) = Some (fl_round2 F (fl_mul F x 1000)) \<and>
            has_rank samples k x \<and> 1 \<le> k \<and> k \<le> length samples \<and>
            \<bar>100 * int k - int p * int (length samples)\<bar> \<le> 50) [50, 90, 95, 99])"
proof (cases "samples = []")
  case True
  then show ?thesis by (simp add: percentiles_def PERCENTILES_def)
next
  case False
  let ?i = "percentile_index F (length samples)"
  let ?v = "\<lambda>p. fl_round2 F (fl_mul F (sort samples ! ?i p) 1000)"
  have less: "?i p < length samples" for p using False by (simp add: percentile_index_less)
  have "?v p \<le> ?v q" if "p \<le> q" for p q
    using percentile_index_mono [OF F that] less by (intro floats_okD [OF F] sorted_nth_mono) simp_all
  then have "sorted (map ?v [50, 90, 95, 99])" by simp
  moreover have "map snd (percentiles F samples) = map ?v [50, 90, 95, 99]"
    using False by (simp add: percentiles_def Let_def PERCENTILES_def)
  moreover have "list_all (\<lambda>p. \<exists>x k. dict_get (percentiles F samples) (''p'' @ show_nat p) = Some (fl_round2 F (fl_mul F x 1000)) \<and>
      has_rank samples k x \<and> 1 \<le> k \<and> k \<le> length samples \<and>
      \<bar>100 * int k - int p * int (length samples)\<bar> \<le> 50) [50, 90, 95, 99]"
    unfolding list_all_iff
  proof
    fix p assume p: "p \<in> set [50, 90, 95, 99 :: nat]"
    then have "\<bar>100 * int (Suc (?i p)) - int p * int (length samples)\<bar> \<le> 50"
      using percentile_index_nearest [OF F _ _ _ n, of p] False by (auto simp: algebra_simps)
    with percentiles_nonempty [OF False, of p F] p sorted_has_rank [OF less] less [of p]
    show "\<exists>x k. dict_get (percentiles F samples) (''p'' @ show_nat p) = Some (fl_round2 F (fl_mul F x 1000)) \<and>
      has_rank samples k x \<and> 1 \<le> k \<and> k \<le> length samples \<and> \<bar>100 * int k - int p * int (length samples)\<bar> \<le> 50"
      by (intro exI [of _ "sort samples ! ?i p"] exI [of _ "Suc (?i p)"]) (auto simp: PERCENTILES_def)
  qed
  moreover have "map fst (percentiles F samples) = map (\<lambda>p. ''p'' @ show_nat p) [50, 90, 95, 99]"
    using False by (simp add: percentiles_def Let_def PERCENTILES_def)
  ultimately show ?thesis using False by (simp only: if_False simp_thms)
qed

definition exact :: floats where
  "exact = \<lparr>fl_mul = (*), fl_div = (/), fl_round2 = (\<lambda>x. x)\<rparr>"

lemma exact_ok: "floats_ok exact"
  by (simp add: floats_ok_def exact_def mult_right_mono divide_right_mono)

theorem percentiles_are_order_statistics_witness:
  "map fst (percentiles exact [3, 1, 2]) = map (\<lambda>p. ''p'' @ show_nat p) [50, 90, 95, 99] \<and>
    sorted (map snd (percentiles exact [3, 1, 2])) \<and>
    (if [3, 1, 2 :: rat] = [] then list_all (\<lambda>(name, v). v = 0) (percentiles exact [3, 1, 2])
     else list_all (\<lambda>p. \<exists>x k. dict_get (percentiles exact [3, 1, 2]) (''p'' @ show_nat p) = Some (fl_round2 exact (fl_mul exact x 1000)) \<and>
            has_rank [3, 1, 2] k x \<and> 1 \<le> k \<and> k \<le> length [3, 1, 2 :: rat] \<and>
            \<bar>100 * int k - int p * int (length [3, 1, 2 :: rat])\<bar> \<le> 50) [50, 90, 95, 99])"
  by (rule percentiles_are_order_statistics [OF exact_ok]) simp

text \<open>
  The generator never trips the API's own length check: for a payload within the upload limit, the
  \<open>Content-Length\<close> of the generated request, framing included, is accepted by the handler.
\<close>

theorem generated_upload_passes_length_check:
  assumes "int (length payload) \<le> max_upload_bytes cfg" "max_upload_bytes cfg < 10 ^ 18"
    and "length filename \<le> 64" "length hex \<le> 32"
  shows "check_declared_length cfg (map_of (lr_headers (upload_request base_url payload filename hex)) ''Content-Length'') = Inr ()"
proof -
  obtain body ctype where body: "multipart payload filename hex = (body, ctype)" by (cases "multipart payload filename hex")
  then have len: "length body \<le> length payload + 300"
    using assms(3,4) by (auto simp: multipart_def Let_def CRLF_def)
  have digits: "\<forall>c \<in> set (show_nat (length body)). is_digit_char c"
    using show_nat_dec [of "length body"] by (simp add: is_digit_char_def)
  have "length body < 10 ^ 19" using len assms(1,2) by simp
  then have "length (show_nat (length body)) \<le> 19" using length_show_nat [of "length body" 19] by simp
  then have "py_int (show_nat (length body)) = Some (int (length body))" by (intro py_int_show) simp
  moreover have "int (length body) \<le> max_upload_bytes cfg + MULTIPART_OVERHEAD_BYTES"
    using len assms(1) by (simp add: MULTIPART_OVERHEAD_BYTES_def)
  ultimately show ?thesis
    using digits by (simp add: upload_request_def body check_declared_length_def)
qed

theorem generated_upload_passes_length_check_witness:
  "check_declared_length sample_config
     (map_of (lr_headers (upload_request ''http://localhost:8000'' ''jpeg'' ''load-0.jpg'' ''0'')) ''Content-Length'') = Inr ()"
  by (rule generated_upload_passes_length_check) simp_all

text \<open>The clock as the poll relies on it: it never goes back, and a pause takes at least as long as asked for.\<close>

definition clock_ok :: "'v net \<Rightarrow> ('v \<Rightarrow> rat) \<Rightarrow> bool" where
  "clock_ok N time \<longleftrightarrow>
     (\<forall>w. net_clock N w = (time w, w)) \<and>
     (\<forall>q t w. time w \<le> time (snd (net_open N q t w))) \<and>
     (\<forall>d w. 0 \<le> d \<longrightarrow> time w + d \<le> time (net_sleep N d w))"

lemma poll_once_clock: "clock_ok N time \<Longrightarrow> poll_once N base job timeout w = (r, w') \<Longrightarrow> time w \<le> time w'"
  unfolding poll_once_def clock_ok_def
  by (auto split: prod.splits http_answer.splits sum.splits if_splits) (metis snd_conv)+

text \<open>What the poll reports as a value.\<close>

definition poll_result :: "string \<Rightarrow> bool" where
  "poll_result status \<longleftrightarrow> status \<in> set TERMINAL_STATUSES \<or> (\<exists>c. c \<noteq> 404 \<and> status = ''HTTP_'' @ show_int c)"

lemma poll_once_result: "poll_once N base job timeout w = (Some (Inr status), w') \<Longrightarrow> poll_result status"
  unfolding poll_once_def poll_result_def
  by (auto split: prod.splits http_answer.splits sum.splits if_splits)

text \<open>
  Following a job ends. With two rounds of fuel for every second until the deadline the poll
  returns, whatever the server answers; a value it returns is \<open>COMPLETE\<close>, \<open>FAILED\<close>, an HTTP status other
  than 404, or \<open>TIMEOUT\<close>, and \<open>TIMEOUT\<close> only at or after the deadline.
\<close>

theorem polling_ends:
  assumes "clock_ok N time" "deadline - time w \<le> of_nat fuel / 2"
  shows "\<exists>r w'. poll_job fuel N base job timeout deadline w = Some (r, w') \<and>
    (case r of Inl e \<Rightarrow> True | Inr status \<Rightarrow> poll_result status \<or> status = ''TIMEOUT'' \<and> deadline \<le> time w')"
  using assms(2)
proof (induction fuel arbitrary: w)
  case 0
  have "net_clock N w = (time w, w)" using assms(1) by (simp add: clock_ok_def)
  with 0 show ?case by (simp add: poll_job.simps)
next
  case (Suc fuel)
  have clock: "net_clock N w = (time w, w)" using assms(1) by (simp add: clock_ok_def)
  obtain r w1 where once: "poll_once N base job timeout w = (r, w1)" by (cases "poll_once N base job timeout w")
  show ?case
  proof (cases "time w < deadline")
    case False
    with clock show ?thesis by (simp add: poll_job.simps)
  next
    case True
    show ?thesis
    proof (cases r)
      case (Some res)
      with True clock once poll_once_result [of N base job timeout w _ w1] show ?thesis
        by (auto simp: poll_job.simps split: sum.splits)
    next
      case None
      let ?w2 = "net_sleep N POLL_INTERVAL_SECONDS w1"
      have "time w + 1 / 2 \<le> time ?w2"
        using poll_once_clock [OF assms(1) once] assms(1) unfolding clock_ok_def POLL_INTERVAL_SECONDS_def
        by (metis (no_types, opaque_lifting) add_right_mono order_trans zero_le_divide_1_iff zero_le_numeral)
      then have "deadline - time ?w2 \<le> of_nat fuel / 2"
        using Suc.prems by (simp add: field_simps)
      from Suc.IH [OF this] show ?thesis
        using True clock once None by (simp add: poll_job.simps [of "Suc fuel"])
    qed
  qed
qed

text \<open>A server that never knows the job; the world is the clock.\<close>

definition sample_net :: "rat net" where
  "sample_net =
     \<lparr>net_open = (\<lambda>q t w. (HttpStatus 404, w)), net_clock = (\<lambda>w. (w, w)), net_sleep = (\<lambda>d w. w + d),
      net_choice = (\<lambda>w. (0, w)), net_hex = (\<lambda>w. (''0'', w)), net_json = (\<lambda>_. Inr PNone), net_str = (\<lambda>_. '''')\<rparr>"

theorem polling_ends_witness:
  "\<exists>r w'. poll_job 2 sample_net ''u'' ''j'' 30 1 0 = Some (r, w') \<and>
    (case r of Inl e \<Rightarrow> True | Inr status \<Rightarrow> poll_result status \<or> status = ''TIMEOUT'' \<and> 1 \<le> w')"
  by (rule polling_ends [where time = "\<lambda>w. w"]) (simp_all add: clock_ok_def sample_net_def)

end
