(* ===== verification/Loadrun.thy ===== *)
theory Loadrun
  imports Loadgen
begin

text \<open>
  The threads of \<open>run_load\<close> in \<open>loadgen/generate.py\<close> as a step relation. The senders share the queue of
  send times and the measurements, whose every update the code makes under a lock; the pool of
  pollers takes submitted jobs in any order. A step is one operation on the queue, one upload with
  its record, or one followed job with its record, by any thread that can make it.
\<close>

section \<open>The state and its steps\<close>

datatype sender = Idle | Sending rat | Finished | Died

text \<open>\<open>ld_lost\<close> counts the followed jobs whose poll ended in an exception, which the code keeps nowhere.\<close>

record 'v load =
  ld_world :: 'v
  ld_queue :: "rat option list"
  ld_senders :: "sender list"
  ld_results :: results
  ld_pool :: "(pyval \<times> rat) list"
  ld_lost :: nat

definition load_init :: "floats \<Rightarrow> load_args \<Rightarrow> rat \<Rightarrow> 'v \<Rightarrow> 'v load" where
  "load_init F args origin w =
     \<lparr>ld_world = w, ld_queue = task_queue F args, ld_senders = replicate (nat (ar_concurrency args)) Idle,
      ld_results = no_results\<lparr>started_at := origin\<rparr>, ld_pool = [], ld_lost = 0\<rparr>"

inductive load_step :: "'v net \<Rightarrow> load_args \<Rightarrow> bytes list \<Rightarrow> rat \<Rightarrow> 'v load \<Rightarrow> 'v load \<Rightarrow> bool"
  for N args payloads origin where
  take_task: "i < length (ld_senders s) \<Longrightarrow> ld_senders s ! i = Idle \<Longrightarrow> ld_queue s = Some t # q \<Longrightarrow>
     load_step N args payloads origin s (s\<lparr>ld_queue := q, ld_senders := (ld_senders s)[i := Sending t]\<rparr>)"
| leave: "i < length (ld_senders s) \<Longrightarrow> ld_senders s ! i = Idle \<Longrightarrow> ld_queue s = None # q \<Longrightarrow>
     load_step N args payloads origin s (s\<lparr>ld_queue := q, ld_senders := (ld_senders s)[i := Finished]\<rparr>)"
| answered: "i < length (ld_senders s) \<Longrightarrow> ld_senders s ! i = Sending t \<Longrightarrow>
     issue_upload N args payloads origin t (ld_world s) = (Inr ev, w) \<Longrightarrow>
     load_step N args payloads origin s (s\<lparr>ld_world := w, ld_senders := (ld_senders s)[i := Idle],
       ld_results := record_upload ev (ld_results s), ld_pool := ld_pool s @ followed args ev\<rparr>)"
| crashed: "i < length (ld_senders s) \<Longrightarrow> ld_senders s ! i = Sending t \<Longrightarrow>
     issue_upload N args payloads origin t (ld_world s) = (Inl e, w) \<Longrightarrow>
     load_step N args payloads origin s (s\<lparr>ld_world := w, ld_senders := (ld_senders s)[i := Died]\<rparr>)"
| follow: "ld_pool s = a @ job # b \<Longrightarrow> follow_job fuel N args job (ld_results s) (ld_world s) = Some (Inr R, w) \<Longrightarrow>
     load_step N args payloads origin s (s\<lparr>ld_world := w, ld_results := R, ld_pool := a @ b\<rparr>)"
| lose: "ld_pool s = a @ job # b \<Longrightarrow> follow_job fuel N args job (ld_results s) (ld_world s) = Some (Inl e, w) \<Longrightarrow>
     load_step N args payloads origin s (s\<lparr>ld_world := w, ld_pool := a @ b, ld_lost := Suc (ld_lost s)\<rparr>)"

fun is_sending :: "sender \<Rightarrow> bool" where
  "is_sending (Sending t) = True"
| "is_sending _ = False"

fun has_ended :: "sender \<Rightarrow> bool" where
  "has_ended Finished = True"
| "has_ended Died = True"
| "has_ended _ = False"

definition census :: "(sender \<Rightarrow> bool) \<Rightarrow> sender list \<Rightarrow> nat" where
  "census P senders = length (filter P senders)"

section \<open>Counting\<close>

lemma census_update:
  "i < length xs \<Longrightarrow> census P (xs[i := x]) + of_bool (P (xs ! i)) = census P xs + of_bool (P x)"
proof (induction xs arbitrary: i)
  case Nil
  then show ?case by simp
next
  case (Cons a xs)
  show ?case
  proof (cases i)
    case 0
    then show ?thesis by (simp add: census_def)
  next
    case (Suc j)
    with Cons.prems have "j < length xs" by simp
    from Cons.IH [OF this] show ?thesis by (simp add: census_def Suc)
  qed
qed

lemma census_replicate: "census P (replicate n x) = (if P x then n else 0)"
  by (simp add: census_def)

lemma census_split: "census has_ended xs = census (\<lambda>t. t = Finished) xs + census (\<lambda>t. t = Died) xs"
proof (induction xs)
  case (Cons a xs)
  then show ?case by (cases a) (auto simp: census_def)
qed (simp add: census_def)

lemma census_all: "census has_ended xs + census is_sending xs + census (\<lambda>t. t = Idle) xs = length xs"
proof (induction xs)
  case (Cons a xs)
  then show ?case by (cases a) (auto simp: census_def)
qed (simp add: census_def)

lemma census_pos: "0 < census P xs \<longleftrightarrow> (\<exists>x \<in> set xs. P x)"
  by (auto simp: census_def filter_empty_conv)

lemma counter_sum_inc [simp]: "counter_sum (counter_inc k c) = Suc (counter_sum c)"
proof -
  have "counter_sum (dict_set k v d) + opt_get 0 (dict_get d k) = counter_sum d + v" for v and d :: "nat dict"
    by (induction d) (auto simp: counter_sum_def dict_get_def)
  from this [of "Suc (opt_get 0 (dict_get c k))" c] show ?thesis by (simp add: counter_inc_def)
qed

lemma counter_get_inc:
  "opt_get 0 (dict_get (counter_inc k c) j) = opt_get 0 (dict_get c j) + (if j = k then 1 else 0)"
  by (simp add: counter_inc_def)

text \<open>The measurements agree with each other: a latency per answer, a completion time per finished job.\<close>

definition completions :: "results \<Rightarrow> nat" where
  "completions R = opt_get 0 (dict_get (terminal_counts R) ''COMPLETE'') + opt_get 0 (dict_get (terminal_counts R) ''FAILED'')"

definition consistent :: "results \<Rightarrow> bool" where
  "consistent R \<longleftrightarrow> length (upload_latencies R) = counter_sum (status_counts R) \<and>
     length (completion_latencies R) = completions R"

lemma record_upload_counts:
  "terminal_counts (record_upload ev R) = terminal_counts R"
  "total_requests (record_upload ev R) = Suc (total_requests R)"
  "consistent R \<Longrightarrow> consistent (record_upload ev R)"
  by (cases ev; simp add: total_requests_def consistent_def completions_def)+

lemma length_followed:
  "length (followed args ev) + counter_sum (status_counts R) \<le> counter_sum (status_counts (record_upload ev R))"
  by (cases ev) simp_all

lemma follow_job_counts:
  assumes "follow_job fuel N args job R w = Some (Inr R', w')"
  shows "total_requests R' = total_requests R" "status_counts R' = status_counts R"
    "counter_sum (terminal_counts R') = Suc (counter_sum (terminal_counts R))"
    "consistent R \<Longrightarrow> consistent R'"
proof -
  obtain now w1 where now: "net_clock N w = (now, w1)" by (cases "net_clock N w")
  obtain final w2 where poll: "poll_job fuel N (ar_base_url args) (net_str N (fst job)) (ar_timeout args) (now + ar_poll_timeout args) w1 =
      Some (Inr final, w2)"
    using assms unfolding follow_job_def now prod.case by (auto split: option.splits prod.splits sum.splits)
  obtain finished w3 where finished: "net_clock N w2 = (finished, w3)" by (cases "net_clock N w2")
  let ?extra = "if final \<in> set TERMINAL_STATUSES then [finished - snd job] else []"
  have R': "R' = R\<lparr>terminal_counts := counter_inc final (terminal_counts R),
      completion_latencies := completion_latencies R @ ?extra\<rparr>"
    using assms unfolding follow_job_def now poll finished prod.case option.case sum.case Let_def
    by (cases R) (auto split: if_splits)
  show "total_requests R' = total_requests R" "status_counts R' = status_counts R"
    "counter_sum (terminal_counts R') = Suc (counter_sum (terminal_counts R))"
    by (simp_all add: R' total_requests_def)
  show "consistent R \<Longrightarrow> consistent R'"
    by (auto simp: R' consistent_def completions_def counter_get_inc TERMINAL_STATUSES_def)
qed

section \<open>The invariant\<close>

abbreviation finished :: "sender list \<Rightarrow> nat" where
  "finished senders \<equiv> census (\<lambda>t. t = Finished) senders"

abbreviation died :: "sender list \<Rightarrow> nat" where
  "died senders \<equiv> census (\<lambda>t. t = Died) senders"

text \<open>
  The queue holds the uploads nobody took and one \<open>None\<close> for each sender that has not left, in this
  order; every upload is waiting, being sent, recorded, or lost with its sender.
\<close>

definition queue_inv :: "nat \<Rightarrow> nat \<Rightarrow> rat option list \<Rightarrow> sender list \<Rightarrow> nat \<Rightarrow> bool" where
  "queue_inv n c queue senders recorded \<longleftrightarrow> length senders = c \<and>
     (\<exists>ts k. queue = map Some ts @ replicate k None \<and> k + finished senders = c \<and>
        (0 < finished senders \<longrightarrow> ts = []) \<and>
        recorded + died senders + census is_sending senders + length ts = n)"

definition load_inv :: "nat \<Rightarrow> nat \<Rightarrow> 'v load \<Rightarrow> bool" where
  "load_inv n c s \<longleftrightarrow> queue_inv n c (ld_queue s) (ld_senders s) (total_requests (ld_results s)) \<and>
     consistent (ld_results s) \<and>
     counter_sum (terminal_counts (ld_results s)) + ld_lost s + length (ld_pool s) \<le> counter_sum (status_counts (ld_results s))"

text \<open>How the three census counts move when one sender does.\<close>

lemma census_moves:
  assumes "i < length xs"
  shows "xs ! i = Idle \<Longrightarrow> census is_sending (xs[i := Sending t]) = Suc (census is_sending xs)"
    "xs ! i = Idle \<Longrightarrow> finished (xs[i := Sending t]) = finished xs"
    "xs ! i = Idle \<Longrightarrow> died (xs[i := Sending t]) = died xs"
    "xs ! i = Idle \<Longrightarrow> census is_sending (xs[i := Finished]) = census is_sending xs"
    "xs ! i = Idle \<Longrightarrow> finished (xs[i := Finished]) = Suc (finished xs)"
    "xs ! i = Idle \<Longrightarrow> died (xs[i := Finished]) = died xs"
    "xs ! i = Sending t \<Longrightarrow> Suc (census is_sending (xs[i := Idle])) = census is_sending xs"
    "xs ! i = Sending t \<Longrightarrow> finished (xs[i := Idle]) = finished xs"
    "xs ! i = Sending t \<Longrightarrow> died (xs[i := Idle]) = died xs"
    "xs ! i = Sending t \<Longrightarrow> Suc (census is_sending (xs[i := Died])) = census is_sending xs"
    "xs ! i = Sending t \<Longrightarrow> finished (xs[i := Died]) = finished xs"
    "xs ! i = Sending t \<Longrightarrow> died (xs[i := Died]) = Suc (died xs)"
  using census_update [OF assms, of is_sending] census_update [OF assms, of "\<lambda>t. t = Finished"]
    census_update [OF assms, of "\<lambda>t. t = Died"]
  by (fastforce simp: of_bool_def dest: spec)+

lemma queue_inv_take:
  assumes "queue_inv n c (Some t # q) xs r" "i < length xs" "xs ! i = Idle"
  shows "queue_inv n c q (xs[i := Sending t]) r"
proof -
  from assms(1) obtain ts k where q: "Some t # q = map Some ts @ replicate k None" and c: "k + finished xs = c" "length xs = c"
    "0 < finished xs \<longrightarrow> ts = []" "r + died xs + census is_sending xs + length ts = n"
    by (auto simp: queue_inv_def)
  from q obtain ts' where ts: "ts = t # ts'" "q = map Some ts' @ replicate k None"
    by (cases ts) (auto simp: Cons_replicate_eq)
  show ?thesis
    unfolding queue_inv_def
    by (intro conjI exI [of _ ts'] exI [of _ k]) (use c ts assms(2,3) in \<open>simp_all add: census_moves\<close>)
qed

lemma queue_inv_leave:
  assumes "queue_inv n c (None # q) xs r" "i < length xs" "xs ! i = Idle"
  shows "queue_inv n c q (xs[i := Finished]) r"
proof -
  from assms(1) obtain ts k where q: "None # q = map Some ts @ replicate k None" and c: "k + finished xs = c" "length xs = c"
    "r + died xs + census is_sending xs + length ts = n"
    by (auto simp: queue_inv_def)
  from q obtain k' where ts: "ts = []" "k = Suc k'" "q = replicate k' None"
    by (cases ts; cases k) auto
  show ?thesis
    unfolding queue_inv_def
    by (intro conjI exI [of _ "[]"] exI [of _ k']) (use c ts assms(2,3) in \<open>simp_all add: census_moves\<close>)
qed

lemma queue_inv_frame:
  assumes "queue_inv n c q xs r" "length xs' = length xs" "finished xs' = finished xs"
    "r' + died xs' + census is_sending xs' = r + died xs + census is_sending xs"
  shows "queue_inv n c q xs' r'"
proof -
  from assms(1) obtain ts k where "q = map Some ts @ replicate k None" "k + finished xs = c" "length xs = c"
    "0 < finished xs \<longrightarrow> ts = []" "r + died xs + census is_sending xs + length ts = n"
    by (auto simp: queue_inv_def)
  with assms(2-4) show ?thesis
    unfolding queue_inv_def by (intro conjI exI [of _ ts] exI [of _ k]) simp_all
qed

lemma queue_inv_answered:
  "queue_inv n c q xs r \<Longrightarrow> i < length xs \<Longrightarrow> xs ! i = Sending t \<Longrightarrow> queue_inv n c q (xs[i := Idle]) (Suc r)"
  by (erule queue_inv_frame) (use census_moves(7-9) [of i xs t] in simp_all)

lemma queue_inv_crashed:
  "queue_inv n c q xs r \<Longrightarrow> i < length xs \<Longrightarrow> xs ! i = Sending t \<Longrightarrow> queue_inv n c q (xs[i := Died]) r"
  by (erule queue_inv_frame) (use census_moves(10-12) [of i xs t] in simp_all)

lemma load_step_inv: "load_step N args payloads origin s s' \<Longrightarrow> load_inv n c s \<Longrightarrow> load_inv n c s'"
proof (induction rule: load_step.cases)
  case (take_task i s t q)
  then show ?case by (auto simp: load_inv_def intro: queue_inv_take)
next
  case (leave i s q)
  then show ?case by (auto simp: load_inv_def intro: queue_inv_leave)
next
  case (answered i s t ev w)
  then show ?case
    using length_followed [of args ev "ld_results s"] queue_inv_answered [of n c "ld_queue s" "ld_senders s" _ i t]
    by (auto simp: load_inv_def record_upload_counts simp del: record_upload.simps followed.simps)
next
  case (crashed i s t e w)
  then show ?case by (auto simp: load_inv_def intro: queue_inv_crashed)
next
  case (follow s a job b fuel R w)
  then show ?case using follow_job_counts [OF follow(4)] by (auto simp: load_inv_def)
next
  case (lose s a job b fuel e w)
  then show ?case by (auto simp: load_inv_def)
qed

lemma load_init_inv: "load_inv (nat (total_uploads F args)) (nat (ar_concurrency args)) (load_init F args origin w)"
proof -
  let ?ts = "map (\<lambda>index. fl_div F (of_nat index) (ar_rate args)) [0..<nat (total_uploads F args)]"
  have "task_queue F args = map Some ?ts @ replicate (nat (ar_concurrency args)) None"
    by (simp add: task_queue_def o_def)
  then show ?thesis
    unfolding load_inv_def queue_inv_def
    by (intro conjI exI [of _ ?ts] exI [of _ "nat (ar_concurrency args)"])
      (simp_all add: load_init_def census_replicate no_results_def total_requests_def counter_sum_def consistent_def
        completions_def dict_get_def)
qed

lemma reachable_inv:
  "(load_step N args payloads origin)\<^sup>*\<^sup>* (load_init F args origin w) s \<Longrightarrow>
   load_inv (nat (total_uploads F args)) (nat (ar_concurrency args)) s"
  by (induction rule: rtranclp_induct) (auto intro: load_init_inv load_step_inv)

section \<open>Progress\<close>

definition load_measure :: "'v load \<Rightarrow> nat" where
  "load_measure s = 3 * length (ld_queue s) + 2 * census is_sending (ld_senders s) + length (ld_pool s)"

lemma length_followed_le: "length (followed args ev) \<le> 1"
  by (cases ev) simp_all

lemma load_step_measure: "load_step N args payloads origin s s' \<Longrightarrow> load_measure s' < load_measure s"
proof (induction rule: load_step.cases)
  case (answered i s t ev w)
  then show ?case
    using length_followed_le [of args ev] census_moves(7) [of i "ld_senders s" t] by (simp add: load_measure_def)
next
  case (crashed i s t e w)
  then show ?case using census_moves(10) [of i "ld_senders s" t] by (simp add: load_measure_def)
qed (simp_all add: load_measure_def census_moves)

lemma load_steps_measure:
  "(load_step N args payloads origin ^^ k) s s' \<Longrightarrow> k + load_measure s' \<le> load_measure s"
proof (induction k arbitrary: s')
  case 0
  then show ?case by simp
next
  case (Suc k)
  then obtain t where "(load_step N args payloads origin ^^ k) s t" "load_step N args payloads origin t s'" by auto
  with Suc.IH [of t] load_step_measure [of N args payloads origin t s'] show ?case by simp
qed

lemma sender_progress:
  assumes inv: "load_inv n c s" and busy: "\<not> list_all has_ended (ld_senders s)"
  shows "\<exists>s'. load_step N args payloads origin s s'"
proof -
  obtain i where i: "i < length (ld_senders s)" "\<not> has_ended (ld_senders s ! i)"
    using busy by (auto simp: list_all_length)
  show ?thesis
  proof (cases "ld_senders s ! i")
    case Idle
    have "0 < census (\<lambda>t. t = Idle) (ld_senders s)"
      using i Idle by (auto simp: census_pos in_set_conv_nth)
    then have "finished (ld_senders s) < length (ld_senders s)"
      using census_all [of "ld_senders s"] census_split [of "ld_senders s"] by linarith
    then have "ld_queue s \<noteq> []" using inv by (auto simp: load_inv_def queue_inv_def)
    then obtain t q where "ld_queue s = t # q" by (cases "ld_queue s") auto
    with i Idle show ?thesis by (cases t) (auto intro: load_step.take_task load_step.leave)
  next
    case (Sending t)
    obtain r w where "issue_upload N args payloads origin t (ld_world s) = (r, w)"
      by (cases "issue_upload N args payloads origin t (ld_world s)")
    with i Sending show ?thesis by (cases r) (auto intro: load_step.answered load_step.crashed)
  qed (use i in simp_all)
qed

section \<open>Properties\<close>

text \<open>The uploads nobody has taken from the queue: its entries but for the \<open>None\<close>s that send the senders home.\<close>

definition waiting :: "'v load \<Rightarrow> nat" where
  "waiting s = length (filter (\<lambda>t. t \<noteq> None) (ld_queue s))"

text \<open>
  C20: No upload is lost or counted twice, however the threads interleave. At every moment of a run the scheduled
  uploads are exactly those answered or failed in transport (\<open>total_requests\<close>), those that went down with a sender
  that died of an exception the code does not catch, those being sent, and those still waiting in the queue. None is
  being sent when all senders have ended, and none waits once a sender has finished; so uploads are left in the queue
  at the end only if every sender died. There is one latency per answer and one completion time per
  job seen to finish, and no more jobs were followed than uploads answered.
\<close>

theorem every_upload_is_accounted_for:
  assumes "(load_step N args payloads origin)\<^sup>*\<^sup>* (load_init F args origin w) s"
  shows "total_requests (ld_results s) + died (ld_senders s) + census is_sending (ld_senders s) + waiting s = nat (total_uploads F args) \<and>
    (if list_all has_ended (ld_senders s) then census is_sending (ld_senders s) = 0 else True) \<and>
    (if Finished \<in> set (ld_senders s) then waiting s = 0 else True) \<and>
    length (upload_latencies (ld_results s)) = counter_sum (status_counts (ld_results s)) \<and>
    length (completion_latencies (ld_results s)) = completions (ld_results s) \<and>
    counter_sum (terminal_counts (ld_results s)) + ld_lost s + length (ld_pool s) \<le> counter_sum (status_counts (ld_results s))"
proof -
  have inv: "load_inv (nat (total_uploads F args)) (nat (ar_concurrency args)) s"
    by (rule reachable_inv [OF assms])
  then obtain ts k where q: "ld_queue s = map Some ts @ replicate k None" "0 < finished (ld_senders s) \<longrightarrow> ts = []"
      "total_requests (ld_results s) + died (ld_senders s) + census is_sending (ld_senders s) + length ts = nat (total_uploads F args)"
    by (auto simp: load_inv_def queue_inv_def)
  have "waiting s = length ts" by (simp add: waiting_def q(1) o_def)
  moreover have "census is_sending (ld_senders s) = 0" if "list_all has_ended (ld_senders s)"
    using that census_pos [of is_sending "ld_senders s"] by (fastforce simp: list_all_iff elim: is_sending.elims)
  ultimately show ?thesis
    using inv q(2,3) census_pos [of "\<lambda>t. t = Finished" "ld_senders s"]
    by (auto simp: load_inv_def consistent_def)
qed

text \<open>
  C37: The upload phase ends and never deadlocks: a run makes at most three steps for each entry of the
  queue, and as long as a sender has not ended, some step is possible.
\<close>

theorem load_run_ends:
  assumes "(load_step N args payloads origin ^^ k) (load_init F args origin w) s"
  shows "k \<le> 3 * length (task_queue F args) \<and>
    (list_all has_ended (ld_senders s) \<or> (\<exists>s'. load_step N args payloads origin s s'))"
proof -
  have "load_measure (load_init F args origin w) = 3 * length (task_queue F args)"
    by (simp add: load_measure_def load_init_def census_replicate)
  then have "k \<le> 3 * length (task_queue F args)"
    using load_steps_measure [OF assms] by simp
  moreover have "(load_step N args payloads origin)\<^sup>*\<^sup>* (load_init F args origin w) s"
    using assms by (auto simp: rtranclp_power)
  ultimately show ?thesis
    using sender_progress [of _ _ s N args payloads origin] reachable_inv [of N args payloads origin F w s] by blast
qed

section \<open>Witnesses\<close>

definition sample_args :: load_args where
  "sample_args = (default_args None)\<lparr>ar_rate := 1, ar_duration := 1, ar_concurrency := 1\<rparr>"

lemma sample_queue: "task_queue exact sample_args = [Some 0, None]"
  by (simp add: task_queue_def total_uploads_def sample_args_def default_args_def exact_def py_round_def)

lemma sample_concurrency: "ar_concurrency sample_args = 1"
  by (simp add: sample_args_def)

lemma show_404: "show_int 404 = ''404''"
  by code_simp

lemma sample_issue: "issue_upload sample_net sample_args [''jpeg''] 0 0 0 = (Inr (UploadAnswered ''404'' 0 PNone 0), 0)"
  by (simp add: issue_upload_def post_upload_def sample_net_def show_404)

definition sample_state :: "rat option list \<Rightarrow> sender \<Rightarrow> results \<Rightarrow> rat load" where
  "sample_state q sender R = \<lparr>ld_world = 0, ld_queue = q, ld_senders = [sender], ld_results = R, ld_pool = [], ld_lost = 0\<rparr>"

definition sample_sent :: "rat load" where
  "sample_sent = sample_state [] Finished (record_upload (UploadAnswered ''404'' 0 PNone 0) (no_results\<lparr>started_at := 0\<rparr>))"

lemma sample_state_simps [simp]:
  "ld_world (sample_state q x R) = 0" "ld_queue (sample_state q x R) = q" "ld_senders (sample_state q x R) = [x]"
  "ld_results (sample_state q x R) = R" "ld_pool (sample_state q x R) = []"
  by (simp_all add: sample_state_def)

lemma sample_init: "load_init exact sample_args 0 0 = sample_state [Some 0, None] Idle (no_results\<lparr>started_at := 0\<rparr>)"
  by (simp add: load_init_def sample_queue sample_concurrency sample_state_def)

lemma sample_steps: "(load_step sample_net sample_args [''jpeg''] 0 ^^ 3) (load_init exact sample_args 0 0) sample_sent"
proof -
  let ?step = "load_step sample_net sample_args [''jpeg''] 0"
  let ?R = "no_results\<lparr>started_at := 0\<rparr>"
  let ?ev = "UploadAnswered ''404'' 0 PNone 0"
  have "?step (sample_state [Some 0, None] Idle ?R) (sample_state [None] (Sending 0) ?R)"
    using load_step.take_task [of 0 "sample_state [Some 0, None] Idle ?R" 0 "[None]" sample_net sample_args "[''jpeg'']" 0]
    by (simp add: sample_state_def)
  moreover have "?step (sample_state [None] (Sending 0) ?R) (sample_state [None] Idle (record_upload ?ev ?R))"
  proof -
    have "issue_upload sample_net sample_args [''jpeg''] 0 0 (ld_world (sample_state [None] (Sending 0) ?R)) = (Inr ?ev, 0)"
      by (simp add: sample_issue)
    from load_step.answered [OF _ _ this, of 0] show ?thesis by (simp add: sample_state_def)
  qed
  moreover have "?step (sample_state [None] Idle (record_upload ?ev ?R)) sample_sent"
    using load_step.leave [of 0 "sample_state [None] Idle (record_upload ?ev ?R)" "[]" sample_net sample_args "[''jpeg'']" 0]
    by (simp add: sample_sent_def sample_state_def)
  ultimately show ?thesis unfolding sample_init by (auto simp: numeral_3_eq_3 relcompp_apply)
qed

theorem every_upload_is_accounted_for_witness:
  "total_requests (ld_results sample_sent) + died (ld_senders sample_sent) + census is_sending (ld_senders sample_sent) + waiting sample_sent =
      nat (total_uploads exact sample_args) \<and>
    (if list_all has_ended (ld_senders sample_sent) then census is_sending (ld_senders sample_sent) = 0 else True) \<and>
    (if Finished \<in> set (ld_senders sample_sent) then waiting sample_sent = 0 else True) \<and>
    length (upload_latencies (ld_results sample_sent)) = counter_sum (status_counts (ld_results sample_sent)) \<and>
    length (completion_latencies (ld_results sample_sent)) = completions (ld_results sample_sent) \<and>
    counter_sum (terminal_counts (ld_results sample_sent)) + ld_lost sample_sent + length (ld_pool sample_sent)
      \<le> counter_sum (status_counts (ld_results sample_sent))"
proof (rule every_upload_is_accounted_for)
  show "(load_step sample_net sample_args [''jpeg''] 0)\<^sup>*\<^sup>* (load_init exact sample_args 0 0) sample_sent"
    using sample_steps by (auto simp: rtranclp_power)
qed

theorem load_run_ends_witness:
  "3 \<le> 3 * length (task_queue exact sample_args) \<and>
    (list_all has_ended (ld_senders sample_sent) \<or> (\<exists>s'. load_step sample_net sample_args [''jpeg''] 0 sample_sent s'))"
  by (rule load_run_ends [OF sample_steps])

end
