(* ===== verification/Report.thy ===== *)
theory Report
  imports Loadgen
begin

text \<open>
  \<open>report\<close> of \<open>loadgen/generate.py\<close>: the text printed after a run. Its lines are the bytes of their UTF-8
  encoding, so that the box-drawing rule and the arrow have their three bytes each. How a float is
  printed is a parameter: \<open>show1\<close> is the format \<open>.1f\<close>, \<open>showf\<close> the text of \<open>str\<close>.
\<close>

record printing =
  show1 :: "rat \<Rightarrow> string"
  showf :: "rat \<Rightarrow> string"
  fmean :: "rat list \<Rightarrow> rat"

text \<open>The alignment \<open>:>9\<close>.\<close>

definition rjust :: "nat \<Rightarrow> string \<Rightarrow> string" where
  "rjust width s = replicate (width - length s) (CHR '' '') @ s"

definition RULE_CHAR :: string where "RULE_CHAR = [CHR 0xE2, CHR 0x94, CHR 0x80]"
definition ARROW_CHAR :: string where "ARROW_CHAR = [CHR 0xE2, CHR 0x86, CHR 0x92]"

text \<open>The line of the four percentiles; a missing key would be a \<open>KeyError\<close>, which \<open>percentile_keys\<close> excludes.\<close>

definition percentile_line :: "printing \<Rightarrow> rat dict \<Rightarrow> string" where
  "percentile_line P ps =
     ''  p50 '' @ rjust 9 (showf P (opt_get 0 (dict_get ps ''p50''))) @ ''   p90 '' @ rjust 9 (showf P (opt_get 0 (dict_get ps ''p90''))) @
     ''   p95 '' @ rjust 9 (showf P (opt_get 0 (dict_get ps ''p95''))) @ ''   p99 '' @ rjust 9 (showf P (opt_get 0 (dict_get ps ''p99'')))"

definition report_lines :: "floats \<Rightarrow> printing \<Rightarrow> results \<Rightarrow> load_args \<Rightarrow> string list" where
  "report_lines F P R args =
     ['''', ''pixelforge load report'', concat (replicate 22 RULE_CHAR),
      ''target            '' @ ar_base_url args,
      ''upload phase      '' @ show1 P (wall_seconds R) @ ''s'',
      ''requests          '' @ show_nat (total_requests R),
      ''accepted (202)    '' @ show_nat (accepted R),
      ''throughput        '' @ show1 P (fl_div F (of_nat (accepted R)) (wall_seconds R)) @ '' accepted/s'',
      '''', ''upload latency (ms)'', percentile_line P (percentiles F (upload_latencies R)),
      '''', ''status codes      '' @ counts_text (status_counts R)] @
     (if error_counts R = [] then [] else [''transport errors  '' @ counts_text (error_counts R)]) @
     (if \<not> ar_poll args then []
      else ['''', ''end-to-end completion (ms, upload '' @ ARROW_CHAR @ '' COMPLETE)'',
            percentile_line P (percentiles F (completion_latencies R)),
            ''terminal states   '' @ counts_text (terminal_counts R)] @
           (if completion_latencies R = [] then []
            else [''  mean '' @ showf P (fl_round2 F (fl_mul F (fmean P (completion_latencies R)) 1000)) @ '' ms''])) @
     ['''']"

text \<open>What \<open>print\<close> writes to the standard output.\<close>

definition report :: "floats \<Rightarrow> printing \<Rightarrow> results \<Rightarrow> load_args \<Rightarrow> string" where
  "report F P R args = py_join [CHR 0x0A] (report_lines F P R args) @ [CHR 0x0A]"

text \<open>
  \<open>main\<close>: the exit code and what is printed. \<open>run\<close> stands for \<open>run_load\<close>, whose threads are the step relation
  of theory \<open>Loadrun\<close>.
\<close>

definition load_main ::
  "floats \<Rightarrow> printing \<Rightarrow> (load_args \<Rightarrow> exn + results) \<Rightarrow> load_args \<Rightarrow> exn + int \<times> string" where
  "load_main F P run args =
     (case check_args args of
        Inl exit_status \<Rightarrow> Inr (exit_status, '''')
      | Inr args' \<Rightarrow> sum_bind (run args') (\<lambda>results.
          Inr (load_exit results, report F P results args')))"

section \<open>The report never fails and adds up\<close>

lemma percentile_keys: "p \<in> set PERCENTILES \<Longrightarrow> dict_get (percentiles F xs) (''p'' @ show_nat p) \<noteq> None"
  by (simp add: percentiles_def dict_get_def map_of_eq_None_iff image_image Let_def)

lemma wall_seconds_positive: "0 < wall_seconds R"
  by (simp add: wall_seconds_def max_def)

lemma rjust_width: "length (rjust width s) = max width (length s)"
  by (simp add: rjust_def)

lemma counts_text_nonempty: "counts \<noteq> [] \<Longrightarrow> counts_text counts = py_join '', '' (map (\<lambda>(name, n). name @ ''='' @ show_nat n) (sort_key fst counts))"
proof -
  assume c: "counts \<noteq> []"
  let ?parts = "map (\<lambda>(name, n). name @ ''='' @ show_nat n) (sort_key fst counts)"
  have "length (sort_key fst counts) = length counts" by simp
  with c obtain x xs where p: "sort_key fst counts = x # xs" by (cases "sort_key fst counts") auto
  have "py_join '', '' ?parts \<noteq> []"
    unfolding p by (cases x; cases xs) (auto split: prod.splits)
  then show ?thesis by (simp add: counts_text_def Let_def)
qed

text \<open>The columns of the percentile lines are aligned whenever the numbers fit.\<close>

theorem percentile_lines_align:
  assumes "\<And>x. length (showf P x) \<le> 9"
  shows "length (percentile_line P ps) = 63"
  using assms by (simp add: percentile_line_def rjust_width max.absorb1)

theorem percentile_lines_align_witness:
  "length (percentile_line \<lparr>show1 = \<lambda>_. ''0.0'', showf = \<lambda>_. ''12.5'', fmean = \<lambda>_. 0\<rparr> []) = 63"
  by (rule percentile_lines_align) simp

text \<open>
  The exit code agrees with the report: a run that is not refused ends with 0 exactly if the line of accepted
  uploads shows a number other than 0.
\<close>

theorem exit_code_agrees_with_report:
  assumes "check_args args = Inr args'" "run args' = Inr R"
  shows "load_main F P run args = Inr (if accepted R = 0 then 1 else 0, report F P R args') \<and>
    (''accepted (202)    '' @ show_nat (accepted R)) \<in> set (report_lines F P R args')"
  using assms by (simp add: load_main_def load_exit_def report_lines_def)

theorem exit_code_agrees_with_report_witness:
  "\<exists>out. load_main exact \<lparr>show1 = \<lambda>_. ''0.0'', showf = \<lambda>_. ''12.5'', fmean = \<lambda>_. 0\<rparr> (\<lambda>_. Inr no_results) (default_args None) = Inr (1, out)"
proof -
  have "check_args (default_args None) = Inr (default_args None)"
    by (simp add: check_args_def default_args_def DEFAULT_BASE_URL_def py_rstrip_char_def)
  from exit_code_agrees_with_report [OF this refl, of exact] show ?thesis
    by (auto simp: no_results_def accepted_def dict_get_def)
qed

end
