(* ===== verification/Logging.thy ===== *)
theory Logging
  imports Effects
begin

text \<open>
  The redaction processors of \<open>shared/logging_setup.py\<close>: what a structlog event dictionary looks like
  after them; and what \<open>configure_logging\<close> does to the loggers. Rendering to JSON is a library call and left out. The
  horizontal ellipsis the source appends to a truncated value lies outside the modelled characters;
  the code point 133, which is its place in Windows-1252, stands for it.
\<close>

definition SECRET_KEY_MARKERS :: "string list" where
  "SECRET_KEY_MARKERS =
    [''password'', ''passwd'', ''secret'', ''token'', ''authorization'', ''access_key'', ''accesskey'',
     ''session_token'', ''credential'', ''api_key'', ''apikey'', ''private_key'']"

definition GPS_KEY_MARKERS :: "string list" where
  "GPS_KEY_MARKERS = [''gps'', ''geolocation'', ''latitude'', ''longitude'']"

definition REDACTED :: string where "REDACTED = ''[redacted]''"
definition MAX_VALUE_CHARS :: nat where "MAX_VALUE_CHARS = 512"

definition is_secret_key :: "string \<Rightarrow> bool" where
  "is_secret_key key = (\<exists>marker \<in> set SECRET_KEY_MARKERS. py_contains marker (py_lower key))"

definition is_gps_key :: "string \<Rightarrow> bool" where
  "is_gps_key key = (\<exists>marker \<in> set GPS_KEY_MARKERS. py_contains marker (py_lower key))"

definition redact_exif :: "pyval dict option \<Rightarrow> pyval dict" where
  "redact_exif exif = filter (\<lambda>(key, v). \<not> is_gps_key key) (opt_get [] exif)"

lemma size_take_list [termination_simp]: "x \<in> set (take n xs) \<Longrightarrow> size x < Suc (size_list size xs)"
  by (induction xs arbitrary: n) (auto simp: take_Cons split: nat.splits, fastforce)

fun scrub_value :: "nat \<Rightarrow> pyval \<Rightarrow> pyval" where
  "scrub_value depth (PDict d) =
     (if depth > 4 then PStr ''[truncated]''
      else PDict (map (\<lambda>(key, v). (key, if is_secret_key key then PStr REDACTED else scrub_value (depth + 1) v))
                    (filter (\<lambda>(key, v). \<not> is_gps_key key) d)))"
| "scrub_value depth (PList xs) =
     (if depth > 4 then PStr ''[truncated]'' else PList (map (scrub_value (depth + 1)) (take 32 xs)))"
| "scrub_value depth (PTuple xs) =
     (if depth > 4 then PStr ''[truncated]'' else PList (map (scrub_value (depth + 1)) (take 32 xs)))"
| "scrub_value depth (PBytes b) =
     (if depth > 4 then PStr ''[truncated]'' else PStr (''['' @ show_nat (length b) @ '' bytes]''))"
| "scrub_value depth (PStr s) =
     (if depth > 4 then PStr ''[truncated]''
      else if MAX_VALUE_CHARS < length s then PStr (take MAX_VALUE_CHARS s @ CHR 0x85 # ''[truncated]'')
      else PStr s)"
| "scrub_value depth v = (if depth > 4 then PStr ''[truncated]'' else v)"

text \<open>\<open>_redaction_processor\<close>: one pass over the keys in order.\<close>

definition redaction_processor :: "pyval dict \<Rightarrow> pyval dict" where
  "redaction_processor event_dict = concat (map (\<lambda>(key, v).
     if is_gps_key key \<and> key \<noteq> ''event'' then []
     else if is_secret_key key then [(key, PStr REDACTED)]
     else [(key, scrub_value 0 v)]) event_dict)"

definition service_processor :: "string \<Rightarrow> pyval dict \<Rightarrow> pyval dict" where
  "service_processor service event_dict = dict_setdefault ''service'' (PStr service) event_dict"

definition trace_processor :: "string option \<times> string option \<Rightarrow> pyval dict \<Rightarrow> pyval dict" where
  "trace_processor ids event_dict =
     (let with_trace = (if opt_get [] (fst ids) \<noteq> [] then dict_setdefault ''trace_id'' (PStr (opt_get [] (fst ids))) event_dict
                        else event_dict)
      in if opt_get [] (snd ids) \<noteq> [] then dict_setdefault ''span_id'' (PStr (opt_get [] (snd ids))) with_trace
         else with_trace)"

definition rename_message :: "pyval dict \<Rightarrow> pyval dict" where
  "rename_message event_dict =
     (case dict_get event_dict ''event'' of
        None \<Rightarrow> event_dict
      | Some event \<Rightarrow> if event = PNone then event_dict else dict_set ''message'' event event_dict)"

text \<open>
  The part of the chain that this module defines, in its order; the library's own processors
  (context merge, level, timestamp, exception text) run before the redaction and only add keys.
\<close>

definition log_chain :: "string \<Rightarrow> string option \<times> string option \<Rightarrow> (pyval dict \<Rightarrow> pyval dict) \<Rightarrow> pyval dict \<Rightarrow> pyval dict" where
  "log_chain service ids library event_dict =
     rename_message (redaction_processor (library (trace_processor ids (service_processor service event_dict))))"

section \<open>What a log line may contain\<close>

definition bytes_note :: "string \<Rightarrow> bool" where
  "bytes_note s \<longleftrightarrow> (\<exists>n. s = ''['' @ show_nat n @ '' bytes]'')"

text \<open>
  No location key and no unredacted secret at any level, no bytes, no string above 524 characters
  (apart from the note that replaces bytes), no list above 32 items.
\<close>

fun clean_value :: "pyval \<Rightarrow> bool" where
  "clean_value (PDict d) \<longleftrightarrow>
     (\<forall>(key, v) \<in> set d. \<not> is_gps_key key \<and> (is_secret_key key \<longrightarrow> v = PStr REDACTED) \<and> clean_value v)"
| "clean_value (PList xs) \<longleftrightarrow> length xs \<le> 32 \<and> (\<forall>x \<in> set xs. clean_value x)"
| "clean_value (PTuple xs) \<longleftrightarrow> False"
| "clean_value (PBytes b) \<longleftrightarrow> False"
| "clean_value (PStr s) \<longleftrightarrow> length s \<le> 524 \<or> bytes_note s"
| "clean_value v \<longleftrightarrow> True"

definition clean_line :: "pyval dict \<Rightarrow> bool" where
  "clean_line d \<longleftrightarrow>
     (\<forall>(key, v) \<in> set d. \<not> is_gps_key key \<and> (is_secret_key key \<longrightarrow> v = PStr REDACTED) \<and> clean_value v)"

lemma length_redacted [simp]: "length REDACTED \<le> 524"
  by (simp add: REDACTED_def)

lemma clean_redacted: "clean_value (PStr REDACTED)"
  by (simp add: REDACTED_def)

lemma scrub_clean: "clean_value (scrub_value depth v)"
proof (induction depth v rule: scrub_value.induct)
  case (1 depth d)
  then show ?case by auto
next
  case (4 depth b)
  then show ?case by (auto simp: bytes_note_def)
qed (auto simp: MAX_VALUE_CHARS_def)

lemma event_keys: "\<not> is_gps_key ''event''" "\<not> is_gps_key ''message''" "\<not> is_secret_key ''message''" "\<not> is_secret_key ''event''"
  by (simp_all add: is_gps_key_def is_secret_key_def GPS_KEY_MARKERS_def SECRET_KEY_MARKERS_def py_lower_def lower_char_def
      py_ord_def Let_def py_startswith_def)

lemma redaction_clean: "clean_line (redaction_processor d)"
  by (auto simp: clean_line_def redaction_processor_def clean_redacted scrub_clean event_keys split: if_splits)

lemma rename_clean: "clean_line d \<Longrightarrow> clean_line (rename_message d)"
proof -
  assume d: "clean_line d"
  have "clean_line (dict_set ''message'' v d)" if "clean_value v" for v
    unfolding clean_line_def
    by (rule dict_set_all [OF d [unfolded clean_line_def]]) (simp add: event_keys that)
  moreover have "clean_value v" if "dict_get d ''event'' = Some v" for v
    using d that by (auto simp: clean_line_def dict_get_def dest: map_of_SomeD)
  ultimately show ?thesis
    by (auto simp: rename_message_def d split: option.split)
qed

text \<open>
  C27: Whatever is logged, the line that reaches the renderer has no key that names a location and no
  secret in clear, at any depth of nested dictionaries and lists, and no raw bytes or oversized
  strings and lists; the message is the scrubbed event.
\<close>

theorem log_line_is_clean:
  "clean_line (log_chain service ids library event_dict)"
  unfolding log_chain_def by (rule rename_clean [OF redaction_clean])

section \<open>Handlers and levels\<close>

text \<open>
  The standard library's loggers as a function from dotted names, the root logger being the empty
  name. A handler is the JSON handler of \<open>configure_logging\<close>, which runs \<open>log_chain\<close> for its service, or
  any other.
\<close>

datatype log_handler = JsonHandler string | OtherHandler string

record logger =
  lg_handlers :: "log_handler list"
  lg_level :: int
  lg_propagate :: bool

definition NOISY_LOGGERS :: "string list" where
  "NOISY_LOGGERS = [''botocore'', ''boto3'', ''urllib3'', ''s3transfer'', ''PIL'']"

definition UVICORN_LOGGERS :: "string list" where
  "UVICORN_LOGGERS = [''uvicorn'', ''uvicorn.error'', ''uvicorn.access'', ''uvicorn.asgi'']"

text \<open>\<open>logging.getLevelName\<close> on a name: its number, or a text that is not a number.\<close>

definition level_number :: "string \<Rightarrow> int option" where
  "level_number = map_of [(''CRITICAL'', 50), (''FATAL'', 50), (''ERROR'', 40), (''WARN'', 30), (''WARNING'', 30),
     (''INFO'', 20), (''DEBUG'', 10), (''NOTSET'', 0)]"

definition configure_logging :: "string \<Rightarrow> string \<Rightarrow> (string \<Rightarrow> logger) \<Rightarrow> string \<Rightarrow> logger" where
  "configure_logging service level tree =
     (let numeric_level = opt_get 20 (level_number (py_upper level));
          root = (tree [])\<lparr>lg_handlers := [JsonHandler service], lg_level := numeric_level\<rparr>;
          with_root = tree([] := root);
          strip = (\<lambda>t name. t(name := (t name)\<lparr>lg_handlers := [], lg_propagate := True\<rparr>));
          quiet = (\<lambda>t name. t(name := (t name)\<lparr>lg_level := max numeric_level 30\<rparr>))
      in foldl quiet (foldl strip with_root UVICORN_LOGGERS) NOISY_LOGGERS)"

text \<open>The handlers a record logged under a name reaches: its own, then its ancestors', while they propagate.\<close>

definition parent_name :: "string \<Rightarrow> string" where
  "parent_name name = rev (tl (dropWhile (\<lambda>c. c \<noteq> CHR ''.'') (rev name)))"

lemma length_parent_name [termination_simp]: "name \<noteq> [] \<Longrightarrow> length (parent_name name) < length name"
proof -
  assume "name \<noteq> []"
  then have "0 < length name" by simp
  moreover have "length (parent_name name) = length (dropWhile (\<lambda>c. c \<noteq> CHR ''.'') (rev name)) - 1"
    by (simp only: parent_name_def length_rev length_tl)
  moreover have "length (dropWhile (\<lambda>c. c \<noteq> CHR ''.'') (rev name)) \<le> length name"
    using length_dropWhile [of "\<lambda>c. c \<noteq> CHR ''.''" "rev name"] by (simp only: length_rev)
  ultimately show ?thesis by linarith
qed

function effective_handlers :: "(string \<Rightarrow> logger) \<Rightarrow> string \<Rightarrow> log_handler list" where
  "effective_handlers tree name =
     lg_handlers (tree name) @
     (if name = [] \<or> \<not> lg_propagate (tree name) then [] else effective_handlers tree (parent_name name))"
  by pat_completeness auto
termination
  by (relation "measure (\<lambda>(tree, name). length name)") (auto simp: length_parent_name)

declare effective_handlers.simps [simp del]

lemma parents [simp]:
  "parent_name ''uvicorn'' = []" "parent_name ''uvicorn.error'' = ''uvicorn''"
  "parent_name ''uvicorn.access'' = ''uvicorn''" "parent_name ''uvicorn.asgi'' = ''uvicorn''"
  by (simp_all add: parent_name_def)

lemma configured_root:
  "lg_handlers (configure_logging service level tree []) = [JsonHandler service]"
  "lg_level (configure_logging service level tree []) = opt_get 20 (level_number (py_upper level))"
  by (simp_all add: configure_logging_def UVICORN_LOGGERS_def NOISY_LOGGERS_def Let_def)

lemma configured_uvicorn:
  "name \<in> set UVICORN_LOGGERS \<Longrightarrow> lg_handlers (configure_logging service level tree name) = []"
  "name \<in> set UVICORN_LOGGERS \<Longrightarrow> lg_propagate (configure_logging service level tree name)"
  by (auto simp: configure_logging_def UVICORN_LOGGERS_def NOISY_LOGGERS_def Let_def)

text \<open>
  \<open>configure_logging\<close> is safe to call more than once, and the last call wins; afterwards whatever the
  loggers were before, a record of the root logger or of any of uvicorn's reaches the JSON handler
  of the service once and no other handler, and the chatty libraries are never below \<open>WARNING\<close>.
\<close>

theorem logging_has_one_format:
  "configure_logging service level (configure_logging service' level' tree) = configure_logging service level tree \<and>
   list_all (\<lambda>name. effective_handlers (configure_logging service level tree) name = [JsonHandler service])
     ([] # UVICORN_LOGGERS) \<and>
   list_all (\<lambda>name. 30 \<le> lg_level (configure_logging service level tree name)) NOISY_LOGGERS"
proof -
  let ?t = "configure_logging service level tree"
  have "configure_logging service level (configure_logging service' level' tree) name = ?t name" for name
    by (simp add: configure_logging_def UVICORN_LOGGERS_def NOISY_LOGGERS_def Let_def)
  then have "configure_logging service level (configure_logging service' level' tree) = ?t" by (rule ext)
  moreover have root: "effective_handlers ?t [] = [JsonHandler service]"
    by (simp add: effective_handlers.simps [of _ "[]"] configured_root)
  moreover have uv: "effective_handlers ?t ''uvicorn'' = [JsonHandler service]"
    by (simp add: effective_handlers.simps [of _ "''uvicorn''"] configured_uvicorn UVICORN_LOGGERS_def root)
  moreover have "effective_handlers ?t ''uvicorn.error'' = [JsonHandler service]"
    by (simp add: effective_handlers.simps [of _ "''uvicorn.error''"] configured_uvicorn UVICORN_LOGGERS_def uv)
  moreover have "effective_handlers ?t ''uvicorn.access'' = [JsonHandler service]"
    by (simp add: effective_handlers.simps [of _ "''uvicorn.access''"] configured_uvicorn UVICORN_LOGGERS_def uv)
  moreover have "effective_handlers ?t ''uvicorn.asgi'' = [JsonHandler service]"
    by (simp add: effective_handlers.simps [of _ "''uvicorn.asgi''"] configured_uvicorn UVICORN_LOGGERS_def uv)
  moreover have "list_all (\<lambda>name. 30 \<le> lg_level (?t name)) NOISY_LOGGERS"
    by (simp add: configure_logging_def UVICORN_LOGGERS_def NOISY_LOGGERS_def Let_def)
  ultimately show ?thesis by (simp add: UVICORN_LOGGERS_def)
qed

end
