(* ===== verification/Spec2Isabelle.thy ===== *)
theory Spec2Isabelle
  imports Results Registries Application Startup Heartbeat Timestamps Loadrun Report Logging
begin

text \<open>
  Pixelforge is an asynchronous image pipeline: an HTTP API stores an upload in S3, writes a job record
  to DynamoDB and sends a message to SQS; a worker receives the message, renders thumbnails, stores
  them, marks the record \<open>COMPLETE\<close> and deletes the message; a load generator drives the API. This
  development models the Python code of both services, of the package they share and of the
  generator, and proves what makes the pipeline safe to run with several replicas and an unreliable
  cloud underneath.

  Every piece of code is a HOL function on an explicit process state. A program of type \<open>('w, 'a) prog\<close>
  (theory \<open>Effects\<close>) maps a state to an outcome, an exception \<open>Inl\<close> or a result \<open>Inr\<close>, and a new state. The state holds the
  metric registries of \<open>shared/metrics.py\<close>, the log context, the temporary directories, the delays slept,
  and the wire: the log of all requests sent to AWS, each with its outcome. AWS, the clock, the random
  number generator, the file system, Pillow and the pydantic parsers are the record \<open>env\<close>, an argument
  of every definition that uses them; nothing is assumed of it except where a theorem says so.

  Theories and the code they model.

  \<^item> \<open>Prelude\<close>: Python's string operations (\<open>strip\<close>, \<open>split\<close>, \<open>join\<close>, \<open>lower\<close>, \<open>int\<close>, \<open>repr\<close>),
    dictionaries as association lists in insertion order, and facts about them.
  \<^item> \<open>Errors\<close>, \<open>Models\<close>: \<open>shared/errors.py\<close>, the exceptions of the libraries that the code tells apart, dynamic
    values; the records and the dump functions of \<open>shared/models.py\<close>.
  \<^item> \<open>Config\<close>: \<open>shared/config.py\<close>.
  \<^item> \<open>Dynamo\<close>: the value marshalling of \<open>shared/aws.py\<close>.
  \<^item> \<open>Effects\<close>: the state, the environment, the primitives, weakest preconditions \<open>wp\<close>, and the three
    kinds of contract the components are specified by: \<open>talks\<close> and \<open>logs\<close> relate the requests a program adds to
    the wire to its outcome, \<open>tallies\<close> relates its books before and after.
  \<^item> \<open>Retry\<close>: \<open>shared/retry.py\<close>. The abstract specification is \<open>ladder\<close>, a predicate on the wire log.
  \<^item> \<open>Aws\<close>, \<open>Clients\<close>: the operations of \<open>S3Store\<close>, \<open>JobQueue\<close> and \<open>JobTable\<close> in \<open>shared/aws.py\<close>, and the bundle
    \<open>AwsClients\<close> with the arguments of its boto3 clients, which \<open>aws_build\<close> creates and boto3 may refuse. The locale \<open>aws_clients\<close> is the contract the services rely on; it is interpreted on
    \<open>build_clients\<close>, the bundle it returns.
  \<^item> \<open>Readiness\<close>: \<open>ReadinessProbe\<close> and \<open>wait_for_dependencies\<close>.
  \<^item> \<open>Images\<close>: \<open>shared/images.py\<close>: upload gate, EXIF extraction, rendering.
  \<^item> \<open>Service\<close>: \<open>api/service.py\<close>. \<open>Api\<close>: \<open>api/chaos.py\<close>, \<open>api/routes\<close>, the exception handlers and the router set-up of
    \<open>api/main.py\<close>, \<open>api/middleware.py\<close>.
  \<^item> \<open>Pipeline\<close>, \<open>Consumer\<close>, \<open>Deliveries\<close>: \<open>shared/tempfiles.py\<close>, \<open>worker/heartbeat.py\<close> and
    \<open>worker/consumer.py\<close>; the last theory holds the theorems about whole deliveries.
  \<^item> \<open>Logging\<close>: the redaction processors of \<open>shared/logging_setup.py\<close>, and what \<open>configure_logging\<close> does to
    the standard loggers.
  \<^item> \<open>Expressions\<close>: a reading of the update and condition expressions of \<open>JobTable\<close>, in which the documented
    behaviour of DynamoDB, the hypothesis \<open>documented\<close>, is stated once for all texts.
  \<^item> \<open>Lifecycle\<close>: the job record over time. \<open>table_step\<close> gives the requests of the services their meaning on a
    table, \<open>served\<close> runs an interleaving of several processes, and \<open>job_move\<close> is the abstract life of a job
    that they refine.
  \<^item> \<open>Progress\<close>: that healthy uploads and deliveries succeed, and what an upload that could not be queued leaves.
  \<^item> \<open>Discipline\<close>: what must have happened before each request is sent (\<open>in_order\<close>), kept by every upload and every
    iteration of a worker, and by interleavings. \<open>Processes\<close>: that a replica serving any requests and a worker over its
    whole life keep it. \<open>System\<close>: the cloud of table, bucket and queue on which any number of these processes run, its
    invariant, and when a message may be deleted. \<open>Results\<close>: what a completed delivery leaves in that cloud.
  \<^item> \<open>Tracing\<close>: \<open>shared/tracing.py\<close> over OpenTelemetry as the record \<open>otel\<close>; \<open>traced\<close> plugs it into the environment.
    Spans are transparent to what they surround.
  \<^item> \<open>Application\<close>: \<open>create_app\<close> and its lifespan in \<open>api/main.py\<close>, \<open>api/deps.py\<close>, and sessions of requests.
  \<^item> \<open>Startup\<close>: \<open>worker/main.py\<close>, \<open>run\<close> and \<open>main\<close> of \<open>api/main.py\<close>. \<open>worker_main\<close> is what
    \<open>main\<close> returns or raises, \<open>worker_process\<close> the exit of the process with its watchdogs.
  \<^item> \<open>Heartbeat\<close>: the threads of \<open>worker/heartbeat.py\<close> as a step relation on the object's attributes.
  \<^item> \<open>Timestamps\<close>: \<open>shared/timeutil.py\<close> over the Gregorian calendar.
  \<^item> \<open>Loadgen\<close>, \<open>Loadrun\<close>, \<open>Report\<close>: the functions of \<open>loadgen/generate.py\<close>, its threads as a step relation on the
    shared queue and measurements, and the report it prints.
  \<^item> \<open>Registries\<close>: the declarations and registrations of \<open>shared/metrics.py\<close> over \<open>prometheus_client\<close>.
  \<^item> \<open>Sample\<close>, \<open>Scenario\<close>: a concrete environment on which theorems with hypotheses are applied, and the exact log of one job
    from its upload to its completion on it.

  What the lemmas show. For the worker: a message is deleted only after an event that settles its job, an
  outage never loses one, \<open>COMPLETED\<close> implies stored thumbnails, metrics follow outcomes, S3 is only
  touched by the owner of the claim, nothing is left in the temporary directory, unless \<open>rmtree\<close> failed twice on it, or in
  the log context. For
  the API: no message without object and record, a job that could not be queued is stored as \<open>FAILED\<close>, every
  upload and every request is counted once. For the shared code: the retry loop is the ladder, its sleeps are bounded,
  location data and secrets do not get past the extraction and the redaction, timestamps sort as
  instants, a trace crosses the queue. For the system: the requests of any interleaved processes move a
  record along the abstract life of a job, a message is only deleted after its job was \<open>COMPLETE\<close> or \<open>FAILED\<close> since it was
  handed out, no record promises an object that is not stored, no queued message lacks its record or its original, a healthy
  delivery leaves a \<open>COMPLETE\<close> record with all its thumbnails,
  and the two ways in which a completed job can be lost (a late failure, or the compensation of a send
  whose answer was lost, overwrites it) are exhibited.
  For the processes: how the worker ends, in \<open>main\<close> or by its watchdog, that a shutdown is bounded by the grace period, that a
  heartbeat stops. For the generator: at every moment each scheduled upload is in exactly one place, runs end, percentiles
  have the nearest rank.

  Hypotheses, where a theorem has some, state documented behaviour of code outside \<open>src/\<close>: the meaning of
  DynamoDB expressions (\<open>documented\<close>), that stored statuses validate and messages parse back
  (\<open>status_validated\<close>, \<open>codec_ok\<close>), a responsive cloud, disk and decoder (\<open>aws_answers\<close>, \<open>disk_works\<close>,
  \<open>renders\<close>), float operations that preserve the order and are accurate to 53 bits (\<open>floats_ok\<close>), a monotone clock (\<open>clock_ok\<close>), the W3C propagator and the
  message attributes SQS hands over to a receive that asks for them (\<open>reads_w3c_headers\<close>, \<open>delivers\<close>), that boto3 does not
  raise the exceptions of this program (\<open>boto_raises_its_own\<close>), a metric registry that only refuses duplicate series (\<open>registry_ok\<close>). Each has a witness.

  Bounds. The poll loop \<open>run_worker\<close> takes fuel, since it only ends when a stop is requested;
  \<open>run_worker_stops\<close> shows that fuel equal to the number of iterations before the first stop is
  enough and that the result does not depend on it. The poll of the generator takes fuel as well, and
  \<open>polling_ends\<close> shows two rounds for every second until the deadline to be enough. A run of the
  generator is bounded by \<open>load_run_ends\<close>. All other loops are total functions.

  Not modelled. Log lines, and the places where the services open spans, which by \<open>logs_within_span\<close> add nothing to
  what a program promises; the heartbeat calls inside the render
  happen at its step boundaries, any number at each, and its threads are modelled apart; characters beyond Latin-1 (the
  ellipsis of the log truncation is represented by code point 133); the rounding of floats: a finite float is the rational
  its shortest decimal text denotes, with exact arithmetic except in the generator, where rounding is a
  parameter, while NaN and the infinities are values of their own; an exception inside boto3's serializer, which counts
  as the outcome of the request; the HTTP framework, whose routing and parsing arrive as a value; the text format
  of the metrics; command-line parsing, of which only the defaults are here; the script that draws the
  test fixtures.
\<close>

end
